(* ===== verification/Dudl_Prelude.thy ===== *)
theory Dudl_Prelude
  imports Main "HOL-Library.Monad_Syntax" "HOL-Library.Sublist"
begin

text \<open>
  Shared vocabulary of the development: the pieces of C and of its standard library that the
  sources use. A C string is a \<^typ>\<open>string\<close> without its terminating NUL; a plain \<open>char\<close> is
  signed, as on the platforms the daemon is packaged for, so reading one as an \<open>int\<close> sign-extends
  it. The character classes are those of the C locale. Signed 32-bit conversion is written out
  as \<open>c_int\<close>.
\<close>

named_theorems cchar \<open>reading and classifying C characters\<close>
named_theorems frame \<open>what an operation leaves unchanged\<close>

section \<open>Machine integers\<close>

definition c_int :: "int \<Rightarrow> int" where
  "c_int x = signed_take_bit 31 x"

definition c_uint :: "int \<Rightarrow> int" where
  "c_uint x = take_bit 32 x"

abbreviation INT_MAX :: int where "INT_MAX \<equiv> 2147483647"
abbreviation INT_MIN :: int where "INT_MIN \<equiv> - 2147483648"
abbreviation LONG_MAX :: int where "LONG_MAX \<equiv> 9223372036854775807"
abbreviation LONG_MIN :: int where "LONG_MIN \<equiv> - 9223372036854775808"
abbreviation ULONG_MAX :: int where "ULONG_MAX \<equiv> 18446744073709551615"

lemma c_int_id: "INT_MIN \<le> x \<Longrightarrow> x \<le> INT_MAX \<Longrightarrow> c_int x = x"
  by (simp add: c_int_def signed_take_bit_int_eq_self)

lemma c_int_bounds: "INT_MIN \<le> c_int x \<and> c_int x \<le> INT_MAX"
  using signed_take_bit_int_greater_eq_minus_exp [of 31 x] signed_take_bit_int_less_exp [of 31 x]
  by (simp add: c_int_def)

lemma c_int_idem [simp]: "c_int (c_int x) = c_int x"
  using c_int_bounds [of x] by (intro c_int_id) auto

section \<open>Characters\<close>

abbreviation NUL :: char where "NUL \<equiv> CHR 0x00"
abbreviation TAB :: char where "TAB \<equiv> CHR 0x09"
abbreviation LF :: char where "LF \<equiv> CHR 0x0A"
abbreviation CR :: char where "CR \<equiv> CHR 0x0D"
abbreviation DQUOTE :: char where "DQUOTE \<equiv> CHR 0x22"
abbreviation SQUOTE :: char where "SQUOTE \<equiv> CHR 0x27"
abbreviation BACKSLASH :: char where "BACKSLASH \<equiv> CHR 0x5C"

abbreviation (input) EOF :: int where "EOF \<equiv> - 1"

text \<open>A \<open>char\<close> promoted to \<open>int\<close>, and an \<open>int\<close> stored in a \<open>char\<close>.\<close>

definition schar :: "char \<Rightarrow> int" where
  "schar c = (let n = int (of_char c :: nat) in if n < 128 then n else n - 256)"

definition to_char :: "int \<Rightarrow> char" where
  "to_char i = char_of (nat (i mod 256))"

definition isspace :: "int \<Rightarrow> bool" where
  "isspace c \<longleftrightarrow> c = 32 \<or> (9 \<le> c \<and> c \<le> 13)"

definition isdigit :: "int \<Rightarrow> bool" where
  "isdigit c \<longleftrightarrow> 48 \<le> c \<and> c \<le> 57"

definition isalnum :: "int \<Rightarrow> bool" where
  "isalnum c \<longleftrightarrow> isdigit c \<or> (65 \<le> c \<and> c \<le> 90) \<or> (97 \<le> c \<and> c \<le> 122)"

definition tolower :: "int \<Rightarrow> int" where
  "tolower c = (if 65 \<le> c \<and> c \<le> 90 then c + 32 else c)"

abbreviation space :: "char \<Rightarrow> bool" where "space c \<equiv> isspace (schar c)"
abbreviation digit :: "char \<Rightarrow> bool" where "digit c \<equiv> isdigit (schar c)"
abbreviation alnum :: "char \<Rightarrow> bool" where "alnum c \<equiv> isalnum (schar c)"

definition lower :: "char \<Rightarrow> char" where
  "lower c = to_char (tolower (schar c))"

lemma to_char_schar [simp]: "to_char (schar c) = c"
proof (cases "(of_char c :: nat) < 128")
  case True
  then show ?thesis by (simp add: schar_def to_char_def)
next
  case False
  have "(int (of_char c) - 256) mod 256 = int (of_char c) mod 256"
    by (rule minus_mod_self2)
  also have "\<dots> = int (of_char c)"
    by simp
  finally show ?thesis using False by (simp add: schar_def to_char_def)
qed

lemma schar_inject [simp]: "schar a = schar b \<longleftrightarrow> a = b"
  by (metis to_char_schar)

lemma schar_bounds: "- 128 \<le> schar c \<and> schar c < 128"
proof -
  have "(of_char c :: nat) < 256" by simp
  then show ?thesis unfolding schar_def Let_def by arith
qed

lemma schar_zero [simp]: "schar c = 0 \<longleftrightarrow> c = NUL"
  using schar_inject [of c NUL] by (simp add: schar_def)

lemma space_not_NUL [cchar]: "space c \<Longrightarrow> c \<noteq> NUL"
  by (auto simp: isspace_def schar_def)

lemma digit_alnum [cchar]: "digit c \<Longrightarrow> alnum c"
  by (simp add: isalnum_def)

lemma alnum_not_space [cchar]: "alnum c \<Longrightarrow> \<not> space c"
  by (auto simp: isalnum_def isdigit_def isspace_def)

lemma alnum_not_EOF [cchar]: "alnum c \<Longrightarrow> schar c \<noteq> EOF"
  by (auto simp: isalnum_def isdigit_def)

lemma alnum_not_NUL [cchar]: "alnum c \<Longrightarrow> c \<noteq> NUL"
  by (auto simp: isalnum_def isdigit_def schar_def)

lemma space_not_EOF [cchar]: "space c \<Longrightarrow> schar c \<noteq> EOF"
  by (auto simp: isspace_def)

lemma not_isspace_EOF [simp]: "\<not> isspace EOF" and not_isdigit_EOF [simp]: "\<not> isdigit EOF"
  and not_isalnum_EOF [simp]: "\<not> isalnum EOF"
  by (simp_all add: isspace_def isdigit_def isalnum_def)

section \<open>Decimal text: the conversions d of printf, strtol and strtoul\<close>

definition digit_char :: "nat \<Rightarrow> char" where
  "digit_char n = to_char (48 + int n)"

fun dec :: "nat \<Rightarrow> string" where
  "dec n = (if n < 10 then [digit_char n] else dec (n div 10) @ [digit_char (n mod 10)])"

declare dec.simps [simp del]

text \<open>\<open>%d\<close>, and \<open>%04d\<close> (padded with zeros to four columns, the sign counted).\<close>

definition fmt_d :: "int \<Rightarrow> string" where
  "fmt_d i = (if i < 0 then CHR ''-'' # dec (nat (- i)) else dec (nat i))"

definition fmt_04d :: "int \<Rightarrow> string" where
  "fmt_04d i =
     (if i < 0 then CHR ''-'' # replicate (3 - length (dec (nat (- i)))) (CHR ''0'') @ dec (nat (- i))
      else replicate (4 - length (dec (nat i))) (CHR ''0'') @ dec (nat i))"

definition dval_step :: "int \<Rightarrow> char \<Rightarrow> int" where
  "dval_step a c = 10 * a + (schar c - 48)"

definition dval :: "string \<Rightarrow> int" where
  "dval ds = foldl dval_step 0 ds"

text \<open>
  \<open>strtol(in, &end, 10)\<close> and \<open>strtoul(in, &end, 10)\<close>: the value and the text \<open>end\<close> points to. Leading
  white space and a sign are skipped, the longest run of digits is converted, an out-of-range
  value saturates; without a digit the value is 0 and \<open>end\<close> is \<open>in\<close>.
\<close>

definition strip_sign :: "string \<Rightarrow> bool \<times> string" where
  "strip_sign s = (case s of [] \<Rightarrow> (False, s)
     | c # cs \<Rightarrow> if c = CHR ''-'' then (True, cs) else if c = CHR ''+'' then (False, cs) else (False, s))"

definition strtol :: "string \<Rightarrow> int \<times> string" where
  "strtol s =
     (let (neg, t) = strip_sign (dropWhile space s); ds = takeWhile digit t;
          v = (if neg then - dval ds else dval ds)
      in if ds = [] then (0, s)
         else (max LONG_MIN (min LONG_MAX v), dropWhile digit t))"

definition strtoul :: "string \<Rightarrow> int \<times> string" where
  "strtoul s =
     (let (neg, t) = strip_sign (dropWhile space s); ds = takeWhile digit t; v = dval ds
      in if ds = [] then (0, s)
         else (if v > ULONG_MAX then ULONG_MAX else if neg then (- v) mod (ULONG_MAX + 1) else v,
               dropWhile digit t))"

lemma schar_to_char: "- 128 \<le> i \<Longrightarrow> i < 128 \<Longrightarrow> schar (to_char i) = i"
proof (cases "0 \<le> i")
  case True
  moreover assume "i < 128"
  ultimately show ?thesis by (simp add: schar_def to_char_def)
next
  case False
  moreover assume "- 128 \<le> i"
  moreover from False this have "i mod 256 = i + 256"
    by (smt (verit) mod_add_self2 mod_pos_pos_trivial)
  ultimately show ?thesis by (simp add: schar_def to_char_def)
qed

lemma schar_digit_char [simp]: "n < 10 \<Longrightarrow> schar (digit_char n) = 48 + int n"
  by (simp add: digit_char_def schar_to_char)

lemma digit_digit_char [simp]: "n < 10 \<Longrightarrow> digit (digit_char n)"
  by (simp add: isdigit_def)

lemma dec_digits: "\<forall>c \<in> set (dec n). digit c"
proof (induction n rule: dec.induct)
  case (1 n)
  then show ?case by (subst dec.simps) (auto simp: isdigit_def)
qed

lemma dec_not_Nil [simp]: "dec n \<noteq> []"
  by (subst dec.simps) simp

lemma dval_append: "dval (xs @ [c]) = 10 * dval xs + (schar c - 48)"
  by (simp add: dval_def dval_step_def)

lemma dval_dec [simp]: "dval (dec n) = int n"
proof (induction n rule: dec.induct)
  case (1 n)
  show ?case
  proof (cases "n < 10")
    case True
    then show ?thesis by (subst dec.simps) (simp add: dval_def dval_step_def)
  next
    case False
    with 1 show ?thesis
      by (subst dec.simps) (simp add: dval_append zmod_int zdiv_int)
  qed
qed

lemma fmt_d_nonneg: "0 \<le> i \<Longrightarrow> fmt_d i = dec (nat i)"
  by (simp add: fmt_d_def)

lemma fmt_d_not_Nil [simp]: "fmt_d i \<noteq> []"
  by (simp add: fmt_d_def)

text \<open>\<open>strtol\<close> reads back what \<open>%d\<close> prints.\<close>

lemma takeWhile_dec: "(rest = [] \<or> \<not> digit (hd rest)) \<Longrightarrow>
    takeWhile digit (dec n @ rest) = dec n \<and> dropWhile digit (dec n @ rest) = rest"
  using dec_digits [of n]
  by (cases rest) (auto simp: takeWhile_append2 dropWhile_append2)

end
