(* ===== verification/Opt.thy ===== *)
theory Opt
  imports Dudl_Prelude
begin

text \<open>
  The configuration (\<open>src/opt.c\<close>, \<open>opt.h\<close>). The glib key file is a parameter: what
  \<open>g_key_file_get_string\<close>, \<open>_integer\<close> and \<open>_double\<close> return for a key of the group \<open>dudld\<close>, with \<open>None\<close> for
  a reported error; a file that cannot be loaded is \<open>None\<close>. Doubles are only passed on, so they are
  kept as the literal or the text they come from.
\<close>

datatype double = D_int int | D_text string

datatype replaygain = rg_none | rg_track | rg_track_peak | rg_album | rg_album_peak

definition replaygain_of_int :: "int \<Rightarrow> replaygain option" where
  "replaygain_of_int n =
     (if n = 0 then Some rg_none else if n = 1 then Some rg_track else if n = 2 then Some rg_track_peak
      else if n = 3 then Some rg_album else if n = 4 then Some rg_album_peak else None)"

record opts =
  opt_port :: int
  opt_pidfile :: string
  opt_path_tracks :: string
  opt_gap :: int
  opt_cut :: int
  opt_rgpreamp :: double
  opt_rgtype :: replaygain
  opt_random :: int
  opt_start :: int
  opt_sfilter :: string
  opt_failtag :: string
  opt_pipeline :: string
  opt_db_host :: string
  opt_db_port :: string
  opt_db_name :: string
  opt_db_user :: string
  opt_db_pass :: string

record keyfile =
  kf_string :: "string \<Rightarrow> string option"
  kf_integer :: "string \<Rightarrow> int option"
  kf_double :: "string \<Rightarrow> double option"

definition def_string :: "keyfile option \<Rightarrow> string \<Rightarrow> string \<Rightarrow> string" where
  "def_string kf key def =
     (case kf of None \<Rightarrow> def | Some k \<Rightarrow> (case kf_string k key of None \<Rightarrow> def | Some s \<Rightarrow> s))"

definition def_integer :: "keyfile option \<Rightarrow> string \<Rightarrow> int \<Rightarrow> int" where
  "def_integer kf key def =
     (case kf of None \<Rightarrow> def | Some k \<Rightarrow> (case kf_integer k key of None \<Rightarrow> def | Some n \<Rightarrow> n))"

definition def_double :: "keyfile option \<Rightarrow> string \<Rightarrow> double \<Rightarrow> double" where
  "def_double kf key def =
     (case kf of None \<Rightarrow> def | Some k \<Rightarrow> (case kf_double k key of None \<Rightarrow> def | Some x \<Rightarrow> x))"

definition def_replaygain :: "keyfile option \<Rightarrow> string \<Rightarrow> replaygain \<Rightarrow> replaygain" where
  "def_replaygain kf key def =
     (case kf of None \<Rightarrow> def
      | Some k \<Rightarrow> (case kf_integer k key of None \<Rightarrow> def
        | Some n \<Rightarrow> (case replaygain_of_int n of None \<Rightarrow> def | Some r \<Rightarrow> r)))"

text \<open>\<open>opt_read\<close>, from the values the variables have before it (as set on the command line).\<close>

definition opt_read :: "keyfile option \<Rightarrow> opts \<Rightarrow> opts" where
  "opt_read keyfile o0 = o0\<lparr>
     opt_port := def_integer keyfile ''port'' 4445,
     opt_pidfile := def_string keyfile ''pidfile'' ''/var/run/dudld/dudld.pid'',
     opt_path_tracks := def_string keyfile ''path_tracks'' ''/pub/fun/mp3/CD'',
     opt_gap := def_integer keyfile ''gap'' 0,
     opt_random := def_integer keyfile ''random'' 1,
     opt_cut := def_integer keyfile ''cut'' 1,
     opt_rgpreamp := def_double keyfile ''rgpreamp'' (D_int 7),
     opt_start := def_integer keyfile ''start'' 0,
     opt_sfilter := def_string keyfile ''sfilter'' ''init'',
     opt_failtag := def_string keyfile ''failtag'' ''failed'',
     opt_pipeline := def_string keyfile ''pipeline'' ''autoaudiosink'',
     opt_rgtype := def_replaygain keyfile ''rgtype'' rg_album,
     opt_db_host := def_string keyfile ''db_host'' [],
     opt_db_port := def_string keyfile ''db_port'' [],
     opt_db_name := def_string keyfile ''db_name'' ''dudl'',
     opt_db_user := def_string keyfile ''db_user'' ''dudld'',
     opt_db_pass := def_string keyfile ''db_pass'' ''dudld''\<rparr>"

text \<open>
  The configuration file decides every option: \<open>opt_read\<close> runs after the command line was
  parsed and overwrites all variables, whether the file sets them or not.
\<close>

lemma opt_read_overrides: "opt_read kf o1 = opt_read kf o2"
  by (cases o1; cases o2) (simp add: opt_read_def)

end
