(* ===== verification/Iterator.thy ===== *)
theory Iterator
  imports Dudl_Prelude
begin

text \<open>
  The iterator interface of the program: \<open>it_*_begin\<close> and \<open>it_*_next\<close> (\<open>src/pgdb/dudldb.c\<close> for database
  results, \<open>src/client.c\<close> for clients) and the loop every caller writes with them,
  \<open>for( x = it_begin(it); x; x = it_next(it) ) body\<close>. The locale states what the two functions owe their
  callers, and shows that the loop then runs its body once for each element, in order, and ends.
\<close>

partial_function (option) for_each ::
  "('i \<Rightarrow> 'w \<Rightarrow> ('a option \<times> 'i \<times> 'w) option) \<Rightarrow> ('a \<Rightarrow> 'w \<Rightarrow> 'w option) \<Rightarrow> 'a option \<Rightarrow> 'i \<Rightarrow> 'w \<Rightarrow> 'w option" where
  "for_each nxt body x i w =
     (case x of
        None \<Rightarrow> Some w
      | Some v \<Rightarrow> do { w1 \<leftarrow> body v w; (x', i', w2) \<leftarrow> nxt i w1; for_each nxt body x' i' w2 })"

declare for_each.simps [code]

definition run_loop ::
  "('i \<Rightarrow> 'w \<Rightarrow> ('a option \<times> 'i \<times> 'w) option) \<Rightarrow> ('i \<Rightarrow> 'w \<Rightarrow> ('a option \<times> 'i \<times> 'w) option)
    \<Rightarrow> ('a \<Rightarrow> 'w \<Rightarrow> 'w option) \<Rightarrow> 'i \<Rightarrow> 'w \<Rightarrow> 'w option" where
  "run_loop bgn nxt body i w = do { (x, i', w1) \<leftarrow> bgn i w; for_each nxt body x i' w1 }"

text \<open>The same loop with a \<open>break\<close> or \<open>return\<close>: the body may end it with a result.\<close>

partial_function (option) for_until ::
  "('i \<Rightarrow> 'w \<Rightarrow> ('a option \<times> 'i \<times> 'w) option) \<Rightarrow> ('a \<Rightarrow> 'w \<Rightarrow> ('r option \<times> 'w) option) \<Rightarrow> 'a option \<Rightarrow> 'i \<Rightarrow> 'w
    \<Rightarrow> ('r option \<times> 'w) option" where
  "for_until nxt body x i w =
     (case x of
        None \<Rightarrow> Some (None, w)
      | Some v \<Rightarrow> do { (r, w1) \<leftarrow> body v w;
          (case r of
             Some y \<Rightarrow> Some (Some y, w1)
           | None \<Rightarrow> do { (x', i', w2) \<leftarrow> nxt i w1; for_until nxt body x' i' w2 }) })"

declare for_until.simps [code]

text \<open>What the loop should do: the body for each element, after the element was handed out.\<close>

fun visit_all :: "('a \<Rightarrow> 'w \<Rightarrow> 'w) \<Rightarrow> ('a \<Rightarrow> 'w \<Rightarrow> 'w option) \<Rightarrow> 'a list \<Rightarrow> 'w \<Rightarrow> 'w option" where
  "visit_all got body [] w = Some w"
| "visit_all got body (x # xs) w = do { w1 \<leftarrow> body x (got x w); visit_all got body xs w1 }"

definition nth_opt :: "'a list \<Rightarrow> nat \<Rightarrow> 'a option" where
  "nth_opt xs k = (if k < length xs then Some (xs ! k) else None)"

definition handed :: "('a \<Rightarrow> 'w \<Rightarrow> 'w) \<Rightarrow> 'a option \<Rightarrow> 'w \<Rightarrow> 'w" where
  "handed got x w = (case x of None \<Rightarrow> w | Some v \<Rightarrow> got v w)"

locale iterator =
  fixes bgn :: "'i \<Rightarrow> 'w \<Rightarrow> ('a option \<times> 'i \<times> 'w) option"
    and nxt :: "'i \<Rightarrow> 'w \<Rightarrow> ('a option \<times> 'i \<times> 'w) option"
    and inv :: "'i \<Rightarrow> bool"
    and items :: "'i \<Rightarrow> 'a list"
    and pos :: "'i \<Rightarrow> nat"
    and got :: "'a \<Rightarrow> 'w \<Rightarrow> 'w"
  assumes begins: "inv i \<Longrightarrow> \<exists>i'. bgn i w = Some (nth_opt (items i) 0, i', handed got (nth_opt (items i) 0) w)
            \<and> inv i' \<and> items i' = items i \<and> pos i' = 0"
    and steps: "inv i \<Longrightarrow> pos i < length (items i) \<Longrightarrow>
          \<exists>i'. nxt i w = Some (nth_opt (items i) (Suc (pos i)), i', handed got (nth_opt (items i) (Suc (pos i))) w)
            \<and> inv i' \<and> items i' = items i \<and> pos i' = Suc (pos i)"
begin

lemma for_each_visits: "inv i \<Longrightarrow> pos i \<le> length (items i) \<Longrightarrow>
    for_each nxt body (nth_opt (items i) (pos i)) i (handed got (nth_opt (items i) (pos i)) w) =
      visit_all got body (drop (pos i) (items i)) w"
proof (induction "length (items i) - pos i" arbitrary: i w)
  case 0
  then show ?case by (subst for_each.simps) (simp add: nth_opt_def handed_def)
next
  case (Suc n)
  then have p: "pos i < length (items i)" by simp
  show ?case
  proof (cases "body (items i ! pos i) (got (items i ! pos i) w)")
    case None
    with p show ?thesis
      by (subst for_each.simps) (simp add: nth_opt_def handed_def Cons_nth_drop_Suc [symmetric])
  next
    case (Some w1)
    obtain i' where i': "nxt i w1 = Some (nth_opt (items i) (Suc (pos i)), i', handed got (nth_opt (items i) (Suc (pos i))) w1)"
        "inv i'" "items i' = items i" "pos i' = Suc (pos i)"
      using steps [OF Suc.prems(1) p, of w1] by blast
    have "for_each nxt body (nth_opt (items i') (pos i')) i' (handed got (nth_opt (items i') (pos i')) w1) =
        visit_all got body (drop (pos i') (items i')) w1"
      using Suc.hyps(1) [of i' w1] Suc.hyps(2) i' p by simp
    with Some i' p show ?thesis
      by (subst for_each.simps) (simp add: nth_opt_def [of _ "pos i"] handed_def [of _ "Some _"] Cons_nth_drop_Suc [symmetric])
  qed
qed

lemma loop_visits: "inv i \<Longrightarrow> run_loop bgn nxt body i w = visit_all got body (items i) w"
proof -
  assume "inv i"
  then obtain i' where i': "bgn i w = Some (nth_opt (items i) 0, i', handed got (nth_opt (items i) 0) w)"
      "inv i'" "items i' = items i" "pos i' = 0"
    using begins [of i w] by blast
  with for_each_visits [of i' body w] show ?thesis by (simp add: run_loop_def)
qed

end

end
