(* ===== verification/Dudldb.thy ===== *)
theory Dudldb
  imports Opt Iterator
begin

text \<open>
  The database core (\<open>src/pgdb/dudldb.c\<close>): connecting and reconnecting, sending queries, escaping
  text, reading fields and iterating over results. libpq is a parameter, the record \<open>libpq\<close> of its
  functions on an unspecified external state; a \<open>PGresult\<close> is the record of what its accessor
  functions return. A function that may run into undefined behaviour of C (a \<open>NULL\<close> pointer read as a
  string, a buffer overrun) returns an option, and \<open>None\<close> stands for it.

  \<open>db_query\<close> reconnects through \<open>db_conn\<close>, which itself sends queries while its static \<open>inprogress\<close> is
  set; a query sent then finds \<open>db_conn\<close> returning at once. Both levels are \<open>db_vquery\<close> with the
  function it reconnects by as an argument, and \<open>db_query_inner\<close> states that they agree.
\<close>

section \<open>libpq\<close>

datatype exec_status = PGRES_COMMAND_OK | PGRES_TUPLES_OK | PGRES_OTHER

record pgres =
  PQresultStatus :: exec_status
  PQntuples :: int
  PQfnumber :: "string \<Rightarrow> int"
  PQgetvalue :: "int \<Rightarrow> int \<Rightarrow> string option"
  PQcmdTuples :: string

record 'd libpq =
  PQconnectdb :: "string \<Rightarrow> 'd \<Rightarrow> bool \<times> 'd"
  PQstatus_ok :: "'d \<Rightarrow> bool"
  PQexec :: "string \<Rightarrow> 'd \<Rightarrow> pgres option \<times> 'd"
  PQfinish :: "'d \<Rightarrow> 'd"

text \<open>The state of this file: \<open>dbcon\<close> is "not NULL", \<open>inprogress\<close> the static counter of \<open>db_conn\<close>.\<close>

record 'd dbst =
  ext :: 'd
  dbcon :: bool
  inprogress :: nat

type_synonym 'w query = "string \<Rightarrow> 'w \<Rightarrow> (pgres option \<times> 'w) option"

section \<open>Connection and queries\<close>

definition BUFLENQUERY :: nat where "BUFLENQUERY = 2048"
definition DBVER :: int where "DBVER = 4"

text \<open>\<open>addopt\<close> behind \<open>len\<close> characters of the 1024 byte buffer of \<open>db_conn\<close>.\<close>

definition addopt :: "string \<Rightarrow> string \<Rightarrow> string \<Rightarrow> string option" where
  "addopt buffer opt val =
     (if val = [] then Some buffer
      else let b = buffer @ opt @ ''='' @ [SQUOTE] @ val @ [SQUOTE] @ '' ''
           in if length b < 1024 then Some b else None)"

definition conninfo :: "opts \<Rightarrow> string option" where
  "conninfo opt =
     do { b \<leftarrow> addopt [] ''host'' (opt_db_host opt);
          b \<leftarrow> addopt b ''port'' (opt_db_port opt);
          b \<leftarrow> addopt b ''dbname'' (opt_db_name opt);
          b \<leftarrow> addopt b ''user'' (opt_db_user opt);
          addopt b ''password'' (opt_db_pass opt) }"

definition db_done :: "('d, 'l) libpq_scheme \<Rightarrow> ('d, 'z) dbst_scheme \<Rightarrow> ('d, 'z) dbst_scheme" where
  "db_done L w = (if dbcon w then w\<lparr>ext := PQfinish L (ext w), dbcon := False\<rparr> else w\<lparr>dbcon := False\<rparr>)"

text \<open>\<open>PQexec\<close> and \<open>PQstatus\<close> on \<open>dbcon\<close>; on a \<open>NULL\<close> handle libpq returns \<open>NULL\<close> and \<open>CONNECTION_BAD\<close>.\<close>

definition pq_exec :: "('d, 'l) libpq_scheme \<Rightarrow> string \<Rightarrow> ('d, 'z) dbst_scheme \<Rightarrow> pgres option \<times> ('d, 'z) dbst_scheme" where
  "pq_exec L s w = (if dbcon w then (case PQexec L s (ext w) of (r, d) \<Rightarrow> (r, w\<lparr>ext := d\<rparr>)) else (None, w))"

definition pq_ok :: "('d, 'l) libpq_scheme \<Rightarrow> ('d, 'z) dbst_scheme \<Rightarrow> bool" where
  "pq_ok L w \<longleftrightarrow> dbcon w \<and> PQstatus_ok L (ext w)"

text \<open>
  \<open>db_vquery\<close> for the formatted text \<open>q\<close>: \<open>vsnprintf\<close> cuts it to \<open>BUFLENQUERY - 1\<close> characters, and the
  test that follows refuses texts longer than \<open>BUFLENQUERY\<close>. The first argument is \<open>db_conn\<close>.
\<close>

definition db_vquery :: "(('d, 'z) dbst_scheme \<Rightarrow> (int \<times> ('d, 'z) dbst_scheme) option) \<Rightarrow> ('d, 'l) libpq_scheme
    \<Rightarrow> ('d, 'z) dbst_scheme query" where
  "db_vquery conn L q w =
     (if length q > BUFLENQUERY then Some (None, w)
      else
        let buf = take (BUFLENQUERY - 1) q;
            (res, w1) = (if dbcon w then pq_exec L buf w else (None, w))
        in if pq_ok L w1 then Some (res, w1)
           else do { (rc, w2) \<leftarrow> conn w1;
                     Some (if rc \<noteq> 0 then (None, w2) else pq_exec L buf w2) })"

definition pgint :: "pgres \<Rightarrow> int \<Rightarrow> int \<Rightarrow> int option" where
  "pgint res tup f = map_option (\<lambda>s. c_int (fst (strtol s))) (PQgetvalue res tup f)"

text \<open>A query sent while \<open>db_conn\<close> is in progress.\<close>

abbreviation (input) no_conn :: "'w \<Rightarrow> (int \<times> 'w) option" where
  "no_conn \<equiv> \<lambda>w. Some (0, w)"

definition db_conn_fail :: "('d, 'l) libpq_scheme \<Rightarrow> ('d, 'z) dbst_scheme \<Rightarrow> int \<times> ('d, 'z) dbst_scheme" where
  "db_conn_fail L w =
     (1, (if dbcon w then w\<lparr>ext := PQfinish L (ext w)\<rparr> else w)\<lparr>dbcon := False, inprogress := inprogress w - 1\<rparr>)"

definition db_conn :: "('d, 'l) libpq_scheme \<Rightarrow> opts \<Rightarrow> (('d, 'z) dbst_scheme \<Rightarrow> ('d, 'z) dbst_scheme option) option
    \<Rightarrow> ('d, 'z) dbst_scheme \<Rightarrow> (int \<times> ('d, 'z) dbst_scheme) option" where
  "db_conn L opt opened_cb w =
     (if inprogress w \<noteq> 0 then Some (0, w)
      else
        let w0 = db_done L (w\<lparr>inprogress := inprogress w + 1\<rparr>) in
        do { buffer \<leftarrow> conninfo opt;
             let (con, d) = PQconnectdb L buffer (ext w0);
             let w1 = w0\<lparr>ext := d, dbcon := con\<rparr>;
             if \<not> pq_ok L w1 then Some (db_conn_fail L w1)
             else do {
               (res, w2) \<leftarrow> db_vquery no_conn L (''SELECT ver FROM dbver WHERE item = '' @ [SQUOTE] @ ''schema'' @ [SQUOTE]) w1;
               (case res of
                  None \<Rightarrow> Some (db_conn_fail L w2)
                | Some r \<Rightarrow>
                    if PQresultStatus r \<noteq> PGRES_TUPLES_OK \<or> PQntuples r \<noteq> 1 then Some (db_conn_fail L w2)
                    else do {
                      ver \<leftarrow> pgint r 0 0;
                      if ver \<noteq> DBVER then Some (db_conn_fail L w2)
                      else do {
                        w3 \<leftarrow> (case opened_cb of None \<Rightarrow> Some w2 | Some cb \<Rightarrow> cb w2);
                        Some (0, w3\<lparr>inprogress := inprogress w3 - 1\<rparr>) } }) } })"

definition db_query :: "('d, 'l) libpq_scheme \<Rightarrow> opts \<Rightarrow> (('d, 'z) dbst_scheme \<Rightarrow> ('d, 'z) dbst_scheme option) option
    \<Rightarrow> ('d, 'z) dbst_scheme query" where
  "db_query L opt opened_cb = db_vquery (db_conn L opt opened_cb) L"

definition db_init :: "('d, 'l) libpq_scheme \<Rightarrow> opts \<Rightarrow> (('d, 'z) dbst_scheme \<Rightarrow> ('d, 'z) dbst_scheme option) option
    \<Rightarrow> ('d, 'z) dbst_scheme \<Rightarrow> (int \<times> ('d, 'z) dbst_scheme) option" where
  "db_init L opt cbfunc w = db_conn L opt cbfunc w"

section \<open>Text in queries\<close>

definition db_escape :: "string \<Rightarrow> string" where
  "db_escape s =
     (if SQUOTE \<notin> set s then s
      else concat (map (\<lambda>c. if c = SQUOTE then [SQUOTE, SQUOTE] else [c]) s))"

section \<open>Fields\<close>

definition pguint :: "pgres \<Rightarrow> int \<Rightarrow> int \<Rightarrow> int option" where
  "pguint res tup f = map_option (\<lambda>s. c_uint (fst (strtoul s))) (PQgetvalue res tup f)"

definition pgint64 :: "pgres \<Rightarrow> int \<Rightarrow> int \<Rightarrow> int option" where
  "pgint64 res tup f = map_option (\<lambda>s. fst (strtol s)) (PQgetvalue res tup f)"

definition pguint64 :: "pgres \<Rightarrow> int \<Rightarrow> int \<Rightarrow> int option" where
  "pguint64 res tup f = map_option (\<lambda>s. fst (strtoul s)) (PQgetvalue res tup f)"

definition pgdouble :: "pgres \<Rightarrow> int \<Rightarrow> int \<Rightarrow> double option" where
  "pgdouble res tup f = map_option D_text (PQgetvalue res tup f)"

definition pgbool :: "pgres \<Rightarrow> int \<Rightarrow> int \<Rightarrow> bool option" where
  "pgbool res tup f = map_option (\<lambda>s. s \<noteq> ''t'') (PQgetvalue res tup f)"

text \<open>The loop of \<open>pgstring\<close>: white space is cut from the end, but never the first character.\<close>

fun strip_end :: "string \<Rightarrow> string" where
  "strip_end [] = []"
| "strip_end (c # s) = c # rev (dropWhile space (rev s))"

definition pgstring :: "pgres \<Rightarrow> int \<Rightarrow> int \<Rightarrow> string option" where
  "pgstring res tup f = map_option strip_end (PQgetvalue res tup f)"

definition db_table_exists :: "'w query \<Rightarrow> string \<Rightarrow> 'w \<Rightarrow> (int \<times> 'w) option" where
  "db_table_exists query table w =
     do { (res, w) \<leftarrow> query (''SELECT relname FROM pg_class WHERE relkind = '' @ [SQUOTE] @ ''r'' @ [SQUOTE]
                         @ '' AND relname = '' @ [SQUOTE] @ table @ [SQUOTE]) w;
          Some (case res of
              None \<Rightarrow> - 1
            | Some r \<Rightarrow> if PQresultStatus r \<noteq> PGRES_TUPLES_OK then - 1
                       else if PQntuples r \<noteq> 0 then 1 else 0, w) }"

section \<open>Iterators\<close>

type_synonym ('w, 'a) db_convert = "pgres \<Rightarrow> int \<Rightarrow> 'w \<Rightarrow> ('a option \<times> 'w) option"

record ('w, 'a) it_db =
  it_res :: pgres
  it_conv :: "('w, 'a) db_convert"
  it_tuple :: int

definition db_iterate :: "'w query \<Rightarrow> ('w, 'a) db_convert \<Rightarrow> string \<Rightarrow> 'w \<Rightarrow> (('w, 'a) it_db option \<times> 'w) option" where
  "db_iterate query func q w =
     do { (res, w) \<leftarrow> query q w;
          Some (case res of
              None \<Rightarrow> None
            | Some r \<Rightarrow> if PQresultStatus r \<noteq> PGRES_TUPLES_OK then None
                       else Some \<lparr>it_res = r, it_conv = func, it_tuple = 0\<rparr>, w) }"

definition it_db_cur :: "('w, 'a) it_db \<Rightarrow> 'w \<Rightarrow> ('a option \<times> 'w) option" where
  "it_db_cur i w = it_conv i (it_res i) (it_tuple i) w"

definition it_db_begin :: "('w, 'a) it_db \<Rightarrow> 'w \<Rightarrow> ('a option \<times> ('w, 'a) it_db \<times> 'w) option" where
  "it_db_begin i w =
     (let i' = i\<lparr>it_tuple := 0\<rparr> in do { (x, w) \<leftarrow> it_db_cur i' w; Some (x, i', w) })"

definition it_db_next :: "('w, 'a) it_db \<Rightarrow> 'w \<Rightarrow> ('a option \<times> ('w, 'a) it_db \<times> 'w) option" where
  "it_db_next i w =
     (let i' = i\<lparr>it_tuple := it_tuple i + 1\<rparr> in do { (x, w) \<leftarrow> it_db_cur i' w; Some (x, i', w) })"

definition it_db_for :: "('w, 'a) it_db \<Rightarrow> ('a \<Rightarrow> 'w \<Rightarrow> 'w option) \<Rightarrow> 'w \<Rightarrow> 'w option" where
  "it_db_for i body w = run_loop it_db_begin it_db_next body i w"

text \<open>A converter that sends no query itself.\<close>

definition pure_conv :: "(pgres \<Rightarrow> int \<Rightarrow> 'a option option) \<Rightarrow> ('w, 'a) db_convert" where
  "pure_conv f res tup w = map_option (\<lambda>x. (x, w)) (f res tup)"

text \<open>
  The macro \<open>GETFIELD\<close>: a missing column makes the converter return \<open>NULL\<close>. The second form reads a
  column that may be missing.
\<close>

definition getfield :: "pgres \<Rightarrow> string \<Rightarrow> (int \<Rightarrow> 'a option option) \<Rightarrow> 'a option option" where
  "getfield res n k = (if PQfnumber res n = - 1 then Some None else k (PQfnumber res n))"

definition optfield :: "pgres \<Rightarrow> string \<Rightarrow> 'b \<Rightarrow> (int \<Rightarrow> 'b option) \<Rightarrow> 'b option" where
  "optfield res n d get = (if PQfnumber res n = - 1 then Some d else get (PQfnumber res n))"

text \<open>A text in single quotes.\<close>

definition quoted :: "string \<Rightarrow> string" where
  "quoted s = [SQUOTE] @ s @ [SQUOTE]"

text \<open>
  The two result tests every operation makes: a query that must return rows, and one that must
  succeed without rows; \<open>None\<close> and every other status take the error branch.
\<close>

definition tuples_ok :: "pgres option \<Rightarrow> pgres option" where
  "tuples_ok res = (case res of None \<Rightarrow> None | Some r \<Rightarrow> if PQresultStatus r = PGRES_TUPLES_OK then Some r else None)"

definition command_ok :: "pgres option \<Rightarrow> bool" where
  "command_ok res \<longleftrightarrow> (case res of None \<Rightarrow> False | Some r \<Rightarrow> PQresultStatus r = PGRES_COMMAND_OK)"

section \<open>Connection and queries: lemmas\<close>

lemma pq_exec_frame [frame]: "pq_exec L s w = (r, w') \<Longrightarrow> dbcon w' = dbcon w \<and> inprogress w' = inprogress w"
  by (auto simp: pq_exec_def split: prod.splits if_splits)

lemma db_done_frame [frame]: "inprogress (db_done L w) = inprogress w" "\<not> dbcon (db_done L w)"
  by (simp_all add: db_done_def)

lemma db_vquery_unfold:
  assumes "\<not> length q > BUFLENQUERY"
    and "(if dbcon w then pq_exec L (take (BUFLENQUERY - 1) q) w else (None, w)) = (res, w1)"
  shows "db_vquery conn L q w =
    (if pq_ok L w1 then Some (res, w1)
     else do { (rc, w2) \<leftarrow> conn w1;
               Some (if rc \<noteq> 0 then (None, w2) else pq_exec L (take (BUFLENQUERY - 1) q) w2) })"
  using assms(1) by (simp only: db_vquery_def assms(2) Let_def prod.case if_False)

text \<open>What \<open>db_vquery\<close> keeps of the counter, when the function it reconnects by does.\<close>

lemma db_vquery_inprogress:
  assumes "\<And>w rc w'. conn w = Some (rc, w') \<Longrightarrow> inprogress w' = inprogress w"
    and "db_vquery conn L q w = Some (r, w')"
  shows "inprogress w' = inprogress w"
proof (cases "length q > BUFLENQUERY")
  case True
  with assms(2) show ?thesis by (simp add: db_vquery_def)
next
  case False
  let ?buf = "take (BUFLENQUERY - 1) q"
  obtain res w1 where 1: "(if dbcon w then pq_exec L ?buf w else (None, w)) = (res, w1)" by (metis surj_pair)
  then have i1: "inprogress w1 = inprogress w" by (auto dest: pq_exec_frame split: if_splits)
  show ?thesis
  proof (cases "pq_ok L w1")
    case True
    with assms(2) i1 show ?thesis by (simp add: db_vquery_unfold [OF False 1])
  next
    case nok: False
    with assms(2) obtain rc w2 where c: "conn w1 = Some (rc, w2)"
      and r: "(r, w') = (if rc \<noteq> 0 then (None, w2) else pq_exec L ?buf w2)"
      by (auto simp: db_vquery_unfold [OF False 1] bind_eq_Some_conv)
    from r have "inprogress w' = inprogress w2" by (auto dest: pq_exec_frame [OF sym] split: if_splits)
    with assms(1) [OF c] i1 show ?thesis by simp
  qed
qed

lemma db_conn_fail_frame: "db_conn_fail L w = (rc, w') \<Longrightarrow> rc = 1 \<and> \<not> dbcon w' \<and> inprogress w' = inprogress w - 1"
  by (auto simp: db_conn_fail_def)

lemma db_conn_cases:
  assumes "db_conn L opt cb w = Some (rc, w')" "inprogress w = 0"
    and cb: "\<And>f w w'. cb = Some f \<Longrightarrow> f w = Some w' \<Longrightarrow> inprogress w' = inprogress w"
  shows "inprogress w' = 0 \<and> (rc = 0 \<or> rc = 1 \<and> \<not> dbcon w')"
proof -
  let ?w0 = "db_done L (w\<lparr>inprogress := 1\<rparr>)"
  obtain buffer where buf: "conninfo opt = Some buffer"
    using assms(1,2) by (auto simp: db_conn_def Let_def bind_eq_Some_conv)
  obtain con d where con: "PQconnectdb L buffer (ext ?w0) = (con, d)" by (metis surj_pair)
  define w1 where "w1 = ?w0\<lparr>ext := d, dbcon := con\<rparr>"
  have i1: "inprogress w1 = 1" by (simp add: w1_def frame)
  note eq = assms(1) [unfolded db_conn_def Let_def]
  show ?thesis
  proof (cases "pq_ok L w1")
    case False
    with eq assms(2) buf con have "db_conn_fail L w1 = (rc, w')" by (simp add: w1_def)
    from db_conn_fail_frame [OF this] i1 show ?thesis by simp
  next
    case True
    let ?q = "''SELECT ver FROM dbver WHERE item = '' @ [SQUOTE] @ ''schema'' @ [SQUOTE]"
    from eq assms(2) buf con True obtain res w2 where v: "db_vquery no_conn L ?q w1 = Some (res, w2)"
      by (auto simp: w1_def bind_eq_Some_conv)
    have i2: "inprogress w2 = 1" using db_vquery_inprogress [OF _ v] i1 by simp
    have rest: "(case res of
                  None \<Rightarrow> Some (db_conn_fail L w2)
                | Some r \<Rightarrow>
                    if PQresultStatus r \<noteq> PGRES_TUPLES_OK \<or> PQntuples r \<noteq> 1 then Some (db_conn_fail L w2)
                    else do {
                      ver \<leftarrow> pgint r 0 0;
                      if ver \<noteq> DBVER then Some (db_conn_fail L w2)
                      else do {
                        w3 \<leftarrow> (case cb of None \<Rightarrow> Some w2 | Some cb \<Rightarrow> cb w2);
                        Some (0, w3\<lparr>inprogress := inprogress w3 - 1\<rparr>) } }) = Some (rc, w')"
      using eq assms(2) buf con True v by (simp add: w1_def)
    then show ?thesis
      using i2 db_conn_fail_frame [of L w2 rc w'] cb [of _ w2]
      by (auto simp: bind_eq_Some_conv split: option.splits if_splits)
  qed
qed

section \<open>Escaped text: lemmas\<close>

text \<open>
  A string literal of SQL after its opening quote, as the server reads it (with the standard's strings,
  where only the quote is special): the text up to the closing quote, and what follows it.
\<close>

fun sql_literal :: "string \<Rightarrow> (string \<times> string) option" where
  "sql_literal [] = None"
| "sql_literal [c] = (if c = SQUOTE then Some ([], []) else None)"
| "sql_literal (c # d # s) =
     (if c = SQUOTE then
        (if d = SQUOTE then map_option (\<lambda>(t, r). (SQUOTE # t, r)) (sql_literal s) else Some ([], d # s))
      else map_option (\<lambda>(t, r). (c # t, r)) (sql_literal (d # s)))"

definition esc :: "string \<Rightarrow> string" where
  "esc s = concat (map (\<lambda>c. if c = SQUOTE then [SQUOTE, SQUOTE] else [c]) s)"

lemma db_escape_esc: "db_escape s = esc s"
proof -
  have "SQUOTE \<notin> set s \<Longrightarrow> esc s = s" by (induction s) (auto simp: esc_def)
  then show ?thesis by (simp add: db_escape_def esc_def [symmetric])
qed

lemma esc_simps [simp]: "esc [] = []" "esc (c # s) = (if c = SQUOTE then [SQUOTE, SQUOTE] else [c]) @ esc s"
  by (simp_all add: esc_def)

lemma sql_literal_Cons: "c \<noteq> SQUOTE \<Longrightarrow> sql_literal (c # s) = map_option (\<lambda>(t, r). (c # t, r)) (sql_literal s)"
  by (cases s) auto

lemma sql_literal_esc: "r = [] \<or> hd r \<noteq> SQUOTE \<Longrightarrow> sql_literal (esc s @ SQUOTE # r) = Some (s, r)"
proof (induction s)
  case Nil
  then show ?case by (cases r) auto
next
  case (Cons c s)
  then show ?case by (cases "c = SQUOTE") (auto simp: sql_literal_Cons)
qed

lemma length_esc: "length (esc s) = length s + count_list s SQUOTE"
  by (induction s) auto

section \<open>Iterators: lemmas\<close>

text \<open>
  The elements an iterator with a converter \<open>f\<close> hands out: the rows in order, up to the first one
  that cannot be converted.
\<close>

definition row_items :: "(pgres \<Rightarrow> int \<Rightarrow> 'a option option) \<Rightarrow> ('w, 'a) it_db \<Rightarrow> 'a list" where
  "row_items f i =
     map the (takeWhile (\<lambda>x. x \<noteq> None) (map (\<lambda>k. the (f (it_res i) (int k))) [0..<nat (PQntuples (it_res i))]))"

definition row_inv :: "(pgres \<Rightarrow> int \<Rightarrow> 'a option option) \<Rightarrow> ('w, 'a) it_db \<Rightarrow> bool" where
  "row_inv f i \<longleftrightarrow> it_conv i = pure_conv f \<and> 0 \<le> it_tuple i \<and>
     (\<forall>k < nat (PQntuples (it_res i)). f (it_res i) (int k) \<noteq> None)"

text \<open>A converter that returns \<open>NULL\<close> past the last row, as all of them do.\<close>

definition ends_rows :: "(pgres \<Rightarrow> int \<Rightarrow> 'a option option) \<Rightarrow> bool" where
  "ends_rows f \<longleftrightarrow> (\<forall>res tup. PQntuples res \<le> tup \<longrightarrow> f res tup = Some None)"

lemma nth_takeWhile_map:
  "nth_opt (map the (takeWhile (\<lambda>x. x \<noteq> None) xs)) k =
     (if k \<le> length (takeWhile (\<lambda>x. x \<noteq> None) xs) \<and> k < length xs then xs ! k else None)"
proof -
  let ?t = "takeWhile (\<lambda>x. x \<noteq> None) xs"
  consider "k < length ?t" | "k = length ?t" | "length ?t < k" by linarith
  then show ?thesis
  proof cases
    case 1
    then have "xs ! k = ?t ! k" by (simp add: takeWhile_nth)
    moreover have "?t ! k \<noteq> None" using set_takeWhileD [OF nth_mem [OF 1]] by simp
    moreover have "k < length xs" using 1 length_takeWhile_le [of "\<lambda>x. x \<noteq> None" xs] by simp
    ultimately show ?thesis using 1 by (auto simp: nth_opt_def)
  next
    case 2
    then show ?thesis using nth_length_takeWhile [of "\<lambda>x. x \<noteq> None" xs] by (auto simp: nth_opt_def)
  next
    case 3
    then show ?thesis by (simp add: nth_opt_def)
  qed
qed

lemma row_conv:
  assumes "row_inv f i" "ends_rows f" "k \<le> length (row_items f i)"
  shows "f (it_res i) (int k) = Some (nth_opt (row_items f i) k)"
proof -
  let ?n = "nat (PQntuples (it_res i))"
  let ?xs = "map (\<lambda>k. the (f (it_res i) (int k))) [0..<?n]"
  have len: "length (row_items f i) = length (takeWhile (\<lambda>x. x \<noteq> None) ?xs)" by (simp add: row_items_def)
  show ?thesis
  proof (cases "k < ?n")
    case True
    then have "f (it_res i) (int k) = Some (?xs ! k)" using assms(1) by (auto simp: row_inv_def)
    with True assms(3) len show ?thesis
      unfolding row_items_def nth_takeWhile_map by simp
  next
    case False
    then have "f (it_res i) (int k) = Some None" using assms(2) by (auto simp: ends_rows_def)
    moreover have "length (row_items f i) \<le> ?n"
      using len length_takeWhile_le [of "\<lambda>x. x \<noteq> None" ?xs] by simp
    ultimately show ?thesis using False assms(3) by (simp add: nth_opt_def)
  qed
qed

lemma row_iterator: "ends_rows f \<Longrightarrow>
    iterator it_db_begin it_db_next (\<lambda>i. row_inv f i) (row_items f) (\<lambda>i. nat (it_tuple i)) (\<lambda>x w. w)"
proof
  fix i :: "('w, 'a) it_db" and w assume f: "ends_rows f" and i: "row_inv f i"
  let ?i = "i\<lparr>it_tuple := 0\<rparr>"
  have s: "row_inv f ?i" "row_items f ?i = row_items f i" using i by (auto simp: row_inv_def row_items_def)
  have "it_db_begin i w = Some (nth_opt (row_items f i) 0, ?i, w)"
    using row_conv [OF s(1) f, of 0] s i
    by (simp add: it_db_begin_def it_db_cur_def row_inv_def pure_conv_def)
  then show "\<exists>i'. it_db_begin i w = Some (nth_opt (row_items f i) 0, i', handed (\<lambda>x w. w) (nth_opt (row_items f i) 0) w) \<and>
      row_inv f i' \<and> row_items f i' = row_items f i \<and> nat (it_tuple i') = 0"
    using s by (intro exI [of _ ?i]) (simp add: handed_def split: option.split)
next
  fix i :: "('w, 'a) it_db" and w assume f: "ends_rows f" and i: "row_inv f i"
    and p: "nat (it_tuple i) < length (row_items f i)"
  let ?i = "i\<lparr>it_tuple := it_tuple i + 1\<rparr>"
  have s: "row_inv f ?i" "row_items f ?i = row_items f i" using i by (auto simp: row_inv_def row_items_def)
  have t: "int (Suc (nat (it_tuple i))) = it_tuple i + 1" and n: "nat (it_tuple i + 1) = Suc (nat (it_tuple i))"
    using i by (simp_all add: row_inv_def nat_add_distrib)
  have "it_db_next i w = Some (nth_opt (row_items f i) (Suc (nat (it_tuple i))), ?i, w)"
    using row_conv [OF i f, of "Suc (nat (it_tuple i))", unfolded t] p i
    by (simp add: it_db_next_def it_db_cur_def row_inv_def pure_conv_def)
  then show "\<exists>i'. it_db_next i w = Some (nth_opt (row_items f i) (Suc (nat (it_tuple i))), i',
        handed (\<lambda>x w. w) (nth_opt (row_items f i) (Suc (nat (it_tuple i)))) w) \<and>
      row_inv f i' \<and> row_items f i' = row_items f i \<and> nat (it_tuple i') = Suc (nat (it_tuple i))"
    using s n by (intro exI [of _ ?i]) (simp add: handed_def split: option.split)
qed

section \<open>Properties\<close>

text \<open>A libpq to run the definitions with: it keeps the statements and knows the schema version.\<close>

definition demo_version :: string where
  "demo_version = ''SELECT ver FROM dbver WHERE item = '' @ quoted ''schema''"

definition demo_pq :: "string list libpq" where
  "demo_pq = \<lparr>PQconnectdb = \<lambda>s d. (True, d @ [''connect'']), PQstatus_ok = \<lambda>d. True,
     PQexec = \<lambda>s d. (Some \<lparr>PQresultStatus = (if s = demo_version then PGRES_TUPLES_OK else PGRES_COMMAND_OK),
        PQntuples = 1, PQfnumber = \<lambda>n. 0, PQgetvalue = \<lambda>t f. Some ''4'', PQcmdTuples = ''1''\<rparr>, d @ [s]),
     PQfinish = \<lambda>d. d\<rparr>"

definition demo_opts :: opts where
  "demo_opts = opt_read None \<lparr>opt_port = 0, opt_pidfile = [], opt_path_tracks = [], opt_gap = 0, opt_cut = 0,
     opt_rgpreamp = D_int 0, opt_rgtype = rg_none, opt_random = 0, opt_start = 0, opt_sfilter = [],
     opt_failtag = [], opt_pipeline = [], opt_db_host = [], opt_db_port = [], opt_db_name = [],
     opt_db_user = [], opt_db_pass = []\<rparr>"

text \<open>
  C28: Text that went through \<open>db_escape\<close> and stands between quotes is read by an SQL server as one
  literal with exactly the original text, whatever the text contains, and the statement goes on
  behind it; \<open>db_escape\<close> writes exactly as many characters as it has counted quotes for.
\<close>

theorem db_escape_literal:
  assumes "rest = [] \<or> hd rest \<noteq> SQUOTE"
  shows "sql_literal (db_escape s @ SQUOTE # rest) = Some (s, rest) \<and>
    length (db_escape s) = length s + count_list s SQUOTE"
  using sql_literal_esc [OF assms] by (simp_all add: db_escape_esc length_esc)

theorem db_escape_literal_witness:
  "sql_literal (db_escape [CHR ''a'', SQUOTE, CHR '';''] @ SQUOTE # '' OR 1'') = Some ([CHR ''a'', SQUOTE, CHR '';''], '' OR 1'')"
  using db_escape_literal [of "'' OR 1''" "[CHR ''a'', SQUOTE, CHR '';'']"] by simp

text \<open>
  C25: A lost connection is reopened at most one level deep: while \<open>db_conn\<close> is in progress a query
  never connects again, \<open>db_conn\<close> leaves its counter as it found it on every path, and when it fails no
  handle is left open. This needs of the callback only that it keeps the counter.
\<close>

theorem db_conn_reentry:
  assumes "\<And>f w w'. cb = Some f \<Longrightarrow> f w = Some w' \<Longrightarrow> inprogress w' = inprogress w"
  shows "(inprogress w \<noteq> 0 \<longrightarrow> db_query L opt cb q w = db_vquery no_conn L q w) \<and>
    (inprogress w = 0 \<longrightarrow> db_conn L opt cb w = Some (rc, w') \<longrightarrow>
      inprogress w' = 0 \<and> (rc = 0 \<or> rc = 1 \<and> \<not> dbcon w'))"
proof (intro conjI impI)
  assume p: "inprogress w \<noteq> 0"
  obtain res w1 where 1: "(if dbcon w then pq_exec L (take (BUFLENQUERY - 1) q) w else (None, w)) = (res, w1)"
    by (metis surj_pair)
  then have "inprogress w1 \<noteq> 0" using p by (auto dest: pq_exec_frame split: if_splits)
  then have "db_conn L opt cb w1 = Some (0, w1)" by (simp add: db_conn_def)
  then show "db_query L opt cb q w = db_vquery no_conn L q w"
    using db_vquery_unfold [OF _ 1]
    by (cases "length q > BUFLENQUERY") (simp add: db_query_def db_vquery_def, simp add: db_query_def)
next
  assume "inprogress w = 0" "db_conn L opt cb w = Some (rc, w')"
  then have *: "inprogress w' = 0 \<and> (rc = 0 \<or> rc = 1 \<and> \<not> dbcon w')"
    using db_conn_cases assms by blast
  then show "inprogress w' = 0" "rc = 0 \<or> rc = 1 \<and> \<not> dbcon w'" by auto
qed

theorem db_conn_reentry_witness:
  "db_conn demo_pq demo_opts (Some Some) \<lparr>ext = [], dbcon = False, inprogress = 0\<rparr> =
     Some (0, \<lparr>ext = [''connect'', demo_version], dbcon = True, inprogress = 0\<rparr>) \<and>
   db_query demo_pq demo_opts (Some Some) ''BEGIN'' \<lparr>ext = [], dbcon = False, inprogress = 1\<rparr> =
     db_vquery no_conn demo_pq ''BEGIN'' \<lparr>ext = [], dbcon = False, inprogress = 1\<rparr>"
proof -
  let ?cb = "Some Some :: (string list dbst \<Rightarrow> string list dbst option) option"
  have cb: "\<And>f w w'. ?cb = Some f \<Longrightarrow> f w = Some w' \<Longrightarrow> inprogress w' = inprogress w" by auto
  have c: "db_conn demo_pq demo_opts (Some Some) \<lparr>ext = [], dbcon = False, inprogress = 0\<rparr> =
     Some (0, \<lparr>ext = [''connect'', demo_version], dbcon = True, inprogress = 0\<rparr>)"
    by code_simp
  have "db_query demo_pq demo_opts (Some Some) ''BEGIN'' \<lparr>ext = [], dbcon = False, inprogress = 1\<rparr> =
     db_vquery no_conn demo_pq ''BEGIN'' \<lparr>ext = [], dbcon = False, inprogress = 1\<rparr>"
    using db_conn_reentry [of ?cb "\<lparr>ext = [], dbcon = False, inprogress = 1\<rparr>" demo_pq demo_opts "''BEGIN''", OF cb]
    by simp
  then show ?thesis using c by simp
qed



end
