(* ===== verification/Parsebuf.thy ===== *)
theory Parsebuf
  imports Dudl_Prelude
begin

text \<open>
  The parser's input buffer (\<open>src/commondb/parsebuf.c\<close>, \<open>parsebuf.h\<close>): the string buffer behind the
  \<open>PI_*\<close> macros and the contract those macros document ("seek back to the point of no return, ie
  where PI_DONE was called last"). The contract is the locale \<open>input_buffer\<close>: a buffer shows three
  pieces of text, what was disposed, what was read since, and what is left.
\<close>

section \<open>The string buffer\<close>

record pi_str =
  str :: string
  cur :: nat
  done_pos :: nat

text \<open>\<open>str[i]\<close> of a NUL-terminated string.\<close>

definition c_at :: "string \<Rightarrow> nat \<Rightarrow> char" where
  "c_at s i = (if i < length s then s ! i else NUL)"

definition pi_str_eof :: "pi_str \<Rightarrow> bool" where
  "pi_str_eof d \<longleftrightarrow> c_at (str d) (cur d) = NUL"

definition pi_str_line :: "pi_str \<Rightarrow> int" where
  "pi_str_line d = - 1"

definition pi_str_col :: "pi_str \<Rightarrow> nat" where
  "pi_str_col d = cur d"

definition pi_str_next :: "pi_str \<Rightarrow> int \<times> pi_str" where
  "pi_str_next d =
     (if pi_str_eof d then (EOF, d)
      else (schar (c_at (str d) (cur d)), d\<lparr>cur := cur d + 1\<rparr>))"

definition pi_str_done :: "pi_str \<Rightarrow> pi_str" where
  "pi_str_done d = d\<lparr>done_pos := cur d\<rparr>"

definition pi_str_undo :: "pi_str \<Rightarrow> pi_str" where
  "pi_str_undo d = d\<lparr>cur := done_pos d\<rparr>"

definition pi_str_new :: "string \<Rightarrow> pi_str" where
  "pi_str_new s = \<lparr>str = s, cur = 0, done_pos = 0\<rparr>"

text \<open>The positions stay inside the string, and the disposed part never passes the read part.\<close>

definition pi_wf :: "pi_str \<Rightarrow> bool" where
  "pi_wf d \<longleftrightarrow> done_pos d \<le> cur d \<and> cur d \<le> length (str d) \<and> NUL \<notin> set (str d)"

text \<open>The buffer with \<open>p\<close> disposed, \<open>d\<close> read and not yet disposed, \<open>r\<close> left.\<close>

definition pi_zip :: "string \<Rightarrow> string \<Rightarrow> string \<Rightarrow> pi_str" where
  "pi_zip p d r = \<lparr>str = p @ d @ r, cur = length p + length d, done_pos = length p\<rparr>"

section \<open>The contract of an input buffer\<close>

locale input_buffer =
  fixes view :: "'s \<Rightarrow> string \<times> string \<times> string"
    and inv :: "'s \<Rightarrow> bool"
    and pnext :: "'s \<Rightarrow> int \<times> 's"
    and peof :: "'s \<Rightarrow> bool"
    and pdone :: "'s \<Rightarrow> 's"
    and pundo :: "'s \<Rightarrow> 's"
  assumes next_end: "inv s \<Longrightarrow> view s = (p, d, []) \<Longrightarrow> pnext s = (EOF, s)"
    and next_char: "inv s \<Longrightarrow> view s = (p, d, c # r) \<Longrightarrow>
          fst (pnext s) = schar c \<and> view (snd (pnext s)) = (p, d @ [c], r)"
    and eof_iff: "inv s \<Longrightarrow> view s = (p, d, r) \<Longrightarrow> peof s \<longleftrightarrow> r = []"
    and view_done: "inv s \<Longrightarrow> view s = (p, d, r) \<Longrightarrow> view (pdone s) = (p @ d, [], r)"
    and view_undo: "inv s \<Longrightarrow> view s = (p, d, r) \<Longrightarrow> view (pundo s) = (p, [], d @ r)"
    and inv_next: "inv s \<Longrightarrow> inv (snd (pnext s))"
    and inv_done: "inv s \<Longrightarrow> inv (pdone s)"
    and inv_undo: "inv s \<Longrightarrow> inv (pundo s)"
begin

lemmas inv_ops = inv_next inv_done inv_undo

text \<open>The whole text never changes, whatever the client does.\<close>

definition whole :: "'s \<Rightarrow> string" where
  "whole s = (case view s of (p, d, r) \<Rightarrow> p @ d @ r)"

lemma whole_next: "inv s \<Longrightarrow> whole (snd (pnext s)) = whole s"
proof -
  assume i: "inv s"
  obtain p d r where v: "view s = (p, d, r)" by (cases "view s")
  show ?thesis
  proof (cases r)
    case Nil
    with next_end [OF i] v show ?thesis by simp
  next
    case (Cons c r')
    with next_char [OF i] v show ?thesis by (simp add: whole_def)
  qed
qed

lemma whole_done: "inv s \<Longrightarrow> whole (pdone s) = whole s"
  by (cases "view s") (simp add: whole_def view_done)

lemma whole_undo: "inv s \<Longrightarrow> whole (pundo s) = whole s"
  by (cases "view s") (simp add: whole_def view_undo)

text \<open>Looking ahead: read one character after a dispose, then undo.\<close>

lemma peek: "inv s \<Longrightarrow> view (pundo (snd (pnext (pdone s)))) = view (pdone s)"
proof -
  assume i: "inv s"
  obtain p d r where v: "view s = (p, d, r)" by (cases "view s")
  have vd: "view (pdone s) = (p @ d, [], r)" using view_done [OF i v] .
  have id: "inv (pdone s)" using inv_done [OF i] .
  show ?thesis
  proof (cases r)
    case Nil
    with next_end [OF id] vd view_undo [OF id] show ?thesis by simp
  next
    case (Cons c r')
    with next_char [OF id] vd view_undo [OF inv_next [OF id]] show ?thesis by simp
  qed
qed

end

section \<open>The string buffer keeps the contract\<close>

definition pi_view :: "pi_str \<Rightarrow> string \<times> string \<times> string" where
  "pi_view d = (take (done_pos d) (str d),
      drop (done_pos d) (take (cur d) (str d)), drop (cur d) (str d))"

lemma pi_wf_new: "NUL \<notin> set s \<Longrightarrow> pi_wf (pi_str_new s)"
  by (simp add: pi_wf_def pi_str_new_def)

lemma pi_eof_iff: "pi_wf d \<Longrightarrow> pi_str_eof d \<longleftrightarrow> cur d = length (str d)"
  by (auto simp: pi_wf_def pi_str_eof_def c_at_def in_set_conv_nth)

lemma pi_view_Cons:
  assumes "pi_wf s" "pi_view s = (p, d, c # r)"
  shows "cur s < length (str s)" "str s ! cur s = c"
    "drop (done_pos s) (take (Suc (cur s)) (str s)) = d @ [c]" "drop (Suc (cur s)) (str s) = r"
proof -
  have drop: "drop (cur s) (str s) = c # r" using assms by (simp add: pi_view_def)
  then show l: "cur s < length (str s)" by (metis drop_eq_Nil leI list.distinct(1))
  with drop show c: "str s ! cur s = c" by (metis Cons_nth_drop_Suc list.inject)
  from l drop show "drop (Suc (cur s)) (str s) = r" by (metis Cons_nth_drop_Suc list.inject)
  have "d = drop (done_pos s) (take (cur s) (str s))" using assms by (simp add: pi_view_def)
  with l c assms show "drop (done_pos s) (take (Suc (cur s)) (str s)) = d @ [c]"
    by (simp add: take_Suc_conv_app_nth pi_wf_def)
qed

interpretation pb: input_buffer pi_view pi_wf pi_str_next pi_str_eof pi_str_done pi_str_undo
proof (unfold_locales, goal_cases)
  case (1 s p d)
  then show ?case by (auto simp: pi_str_next_def pi_eof_iff pi_view_def pi_wf_def)
next
  case (2 s p d c r)
  note f = pi_view_Cons [OF 2]
  from 2 f show ?case
    by (simp add: pi_str_next_def pi_eof_iff c_at_def) (simp add: pi_view_def)
next
  case (3 s p d r)
  then show ?case by (auto simp: pi_eof_iff) (auto simp: pi_view_def pi_wf_def)
next
  case (4 s p d r)
  then show ?case
    by (auto simp: pi_view_def pi_str_done_def pi_wf_def) (metis append_take_drop_id min.absorb1 take_take)
next
  case (5 s p d r)
  then show ?case
    by (auto simp: pi_view_def pi_str_undo_def pi_wf_def)
       (metis append_take_drop_id drop_append length_take min.absorb2 append_Nil diff_is_0_eq drop0)
next
  case (6 s)
  then show ?case by (auto simp: pi_str_next_def pi_eof_iff) (auto simp: pi_wf_def)
next
  case (7 s)
  then show ?case by (simp add: pi_wf_def pi_str_done_def)
next
  case (8 s)
  then show ?case by (simp add: pi_wf_def pi_str_undo_def)
qed

section \<open>The buffer by its three pieces\<close>

lemma pi_zip_cong: "p = p' \<Longrightarrow> d = d' \<Longrightarrow> r = r' \<Longrightarrow> pi_zip p d r = pi_zip p' d' r'"
  by simp

lemma pi_eof_zip [simp]: "NUL \<notin> set r \<Longrightarrow> pi_str_eof (pi_zip p d r) \<longleftrightarrow> r = []"
  by (cases r) (auto simp: pi_str_eof_def pi_zip_def c_at_def nth_append)

lemma pi_next_end [simp]: "pi_str_next (pi_zip p d []) = (EOF, pi_zip p d [])"
  by (simp add: pi_str_next_def)

lemma pi_next_zip [simp]: "c \<noteq> NUL \<Longrightarrow>
    pi_str_next (pi_zip p d (c # r)) = (schar c, pi_zip p (d @ [c]) r)"
  by (simp add: pi_str_next_def pi_str_eof_def pi_zip_def c_at_def nth_append)

lemma pi_done_zip [simp]: "pi_str_done (pi_zip p d r) = pi_zip (p @ d) [] r"
  by (simp add: pi_str_done_def pi_zip_def)

lemma pi_undo_zip [simp]: "pi_str_undo (pi_zip p d r) = pi_zip p [] (d @ r)"
  by (simp add: pi_str_undo_def pi_zip_def)

lemma pi_new_zip: "pi_str_new s = pi_zip [] [] s"
  by (simp add: pi_str_new_def pi_zip_def)

lemma pi_col_zip [simp]: "pi_str_col (pi_zip p d r) = length p + length d"
  by (simp add: pi_str_col_def pi_zip_def)

lemma pi_wf_zip: "pi_wf (pi_zip p d r) \<longleftrightarrow> NUL \<notin> set (p @ d @ r)"
  by (auto simp: pi_wf_def pi_zip_def)

lemma pi_zip_exists: "pi_wf s \<Longrightarrow> \<exists>p d r. s = pi_zip p d r \<and> NUL \<notin> set (p @ d @ r)"
proof -
  assume w: "pi_wf s"
  let ?p = "take (done_pos s) (str s)" and ?d = "drop (done_pos s) (take (cur s) (str s))"
    and ?r = "drop (cur s) (str s)"
  have "?p @ ?d = take (cur s) (str s)"
    using w by (metis append_take_drop_id min.absorb1 pi_wf_def take_take)
  then have "?p @ ?d @ ?r = str s" by (metis append_assoc append_take_drop_id)
  moreover from this w have "NUL \<notin> set (?p @ ?d @ ?r)" by (simp add: pi_wf_def)
  moreover have "s = pi_zip ?p ?d ?r" using w calculation(1) by (simp add: pi_zip_def pi_wf_def)
  ultimately show ?thesis by blast
qed

end
