(* ===== verification/Parseexpr.thy ===== *)
theory Parseexpr
  imports Parsebuf
begin

text \<open>
  The filter expression parser (\<open>src/commondb/parseexpr.c\<close>, \<open>parseexpr.h\<close>): the data types, the
  token readers, the value and test parsers and the expression parser, one definition per C
  function and in the source's order. A \<open>NULL\<close> result is \<open>None\<close>; allocation is taken to succeed.
  The ghost field \<open>oob\<close> of the parser state records that a byte was written behind the block
  \<open>_parse_alloc\<close> had allocated. The lexer loops are total functions with their termination proofs;
  the three mutually recursive expression functions carry a recursion budget, and \<open>None\<close> at the
  outside means the budget ran out, which \<open>expr_parse_total\<close> excludes for \<open>expr_parse\<close>.
\<close>

section \<open>Data\<close>

datatype valtype = vt_none | vt_num | vt_string | vt_list | vt_max

datatype cvalue = V_num int | V_string string | V_list "cvalue list"

fun value_type :: "cvalue \<Rightarrow> valtype" where
  "value_type (V_num n) = vt_num"
| "value_type (V_string s) = vt_string"
| "value_type (V_list l) = vt_list"

datatype valop = vo_none | vo_eq | vo_lt | vo_le | vo_gt | vo_ge | vo_in | vo_re | vo_max

datatype valfield = vf_none | vf_dur | vf_lplay | vf_tag | vf_artist | vf_title | vf_album
  | vf_year | vf_pos | vf_max

record valtest =
  vfield :: valfield
  vop :: valop
  vval :: cvalue

datatype operator = op_none | op_self | op_not | op_and | op_or | op_max

datatype expr = Op_self valtest | Op_not expr | Op_and expr expr | Op_or expr expr

text \<open>
  What \<open>parse_error\<close> stores: a literal message, or the one message with conversions, kept with its
  arguments (the source passes a \<open>char *\<close> for its \<open>%d\<close>, so its text depends on an address).
\<close>

datatype parse_msg = Msg string | Msg_invalid_match valfield valop valtype

record parse_stat =
  inp :: pi_str
  msg :: "parse_msg option"
  oob :: bool

section \<open>Low-level token reader\<close>

definition ps_next :: "parse_stat \<Rightarrow> int \<times> parse_stat" where
  "ps_next i = (case pi_str_next (inp i) of (c, d) \<Rightarrow> (c, i\<lparr>inp := d\<rparr>))"

definition ps_done :: "parse_stat \<Rightarrow> parse_stat" where
  "ps_done i = i\<lparr>inp := pi_str_done (inp i)\<rparr>"

definition ps_undo :: "parse_stat \<Rightarrow> parse_stat" where
  "ps_undo i = i\<lparr>inp := pi_str_undo (inp i)\<rparr>"

definition ps_eof :: "parse_stat \<Rightarrow> bool" where
  "ps_eof i = pi_str_eof (inp i)"

definition parse_error :: "parse_stat \<Rightarrow> parse_msg \<Rightarrow> parse_stat" where
  "parse_error i m = (case msg i of None \<Rightarrow> i\<lparr>msg := Some m\<rparr> | Some _ \<Rightarrow> i)"

text \<open>How far the state is from the end of its input: what the loops decrease.\<close>

definition left :: "parse_stat \<Rightarrow> nat" where
  "left i = length (str (inp i)) - cur (inp i)"

lemma left_done [simp]: "left (ps_done i) = left i"
  by (simp add: left_def ps_done_def pi_str_done_def)

lemma ps_next_left: "ps_next i = (c, i') \<Longrightarrow> c \<noteq> EOF \<Longrightarrow> left i' < left i"
  by (auto simp: ps_next_def pi_str_next_def pi_str_eof_def c_at_def left_def split: if_splits)

lemma isspace_EOF_D: "isspace c \<Longrightarrow> c \<noteq> EOF"
  by (auto simp: isspace_def)

function parse_nonspace :: "parse_stat \<Rightarrow> int \<times> parse_stat" where
  "parse_nonspace i =
     (case ps_next (ps_done i) of (c, i') \<Rightarrow>
        if isspace c then parse_nonspace i' else (c, i'))"
  by pat_completeness auto
termination
  by (relation "measure left") (auto dest!: ps_next_left [OF sym] dest: isspace_EOF_D)

declare parse_nonspace.simps [simp del]

definition filter_name :: "parse_stat \<Rightarrow> int \<times> parse_stat" where
  "filter_name i =
     (case ps_next i of (c, i1) \<Rightarrow>
        if c = EOF then (EOF, ps_done i1)
        else if isalnum c then (c, ps_done i1)
        else (EOF, ps_undo i1))"

definition filter_string :: "parse_stat \<Rightarrow> int \<times> parse_stat" where
  "filter_string i =
     (case ps_next i of (c, i1) \<Rightarrow>
        if c = schar BACKSLASH then
          (case ps_next (ps_done i1) of (e, i2) \<Rightarrow>
             if e = schar BACKSLASH \<or> e = schar DQUOTE then (e, ps_done i2)
             else if e = EOF then
               (c, ps_done (parse_error i2 (Msg ''EOF while expecting escaped char'')))
             else (c, ps_undo i2))
        else if c = schar DQUOTE then (EOF, ps_undo i1)
        else (c, ps_done i1))"

text \<open>The two functions \<open>_parse_alloc\<close> is called with.\<close>

datatype pfilter = Filter_name | Filter_string

fun run_filter :: "pfilter \<Rightarrow> parse_stat \<Rightarrow> int \<times> parse_stat" where
  "run_filter Filter_name i = filter_name i"
| "run_filter Filter_string i = filter_string i"

lemma left_parse_error [simp]: "left (parse_error i m) = left i"
  by (simp add: parse_error_def left_def split: option.split)

lemma ps_next_left_le: "ps_next i = (c, i') \<Longrightarrow> left i' \<le> left i"
  by (auto simp: ps_next_def pi_str_next_def left_def split: if_splits)

lemma left_undo_next: "ps_next (ps_done i) = (c, i') \<Longrightarrow> left (ps_undo i') = left i"
  by (auto simp: ps_next_def ps_done_def ps_undo_def pi_str_next_def pi_str_done_def
      pi_str_undo_def left_def split: if_splits)

lemma run_filter_left: "run_filter f i = (c, i') \<Longrightarrow> c \<noteq> EOF \<Longrightarrow> left i' < left i"
proof (cases f)
  case Filter_name
  moreover assume "run_filter f i = (c, i')" "c \<noteq> EOF"
  ultimately show ?thesis
    by (auto simp: filter_name_def split: prod.splits if_splits dest: ps_next_left)
next
  case Filter_string
  assume r: "run_filter f i = (c, i')" "c \<noteq> EOF"
  obtain a i1 where a: "ps_next i = (a, i1)" by (cases "ps_next i")
  obtain e i2 where e: "ps_next (ps_done i1) = (e, i2)" by (cases "ps_next (ps_done i1)")
  have "schar BACKSLASH \<noteq> EOF" by (simp add: schar_def)
  with r Filter_string a e ps_next_left [OF a] ps_next_left_le [OF e] left_undo_next [OF e]
  show ?thesis by (auto simp: filter_string_def split: if_splits)
qed

text \<open>
  The loop of \<open>_parse_alloc\<close>: \<open>avail\<close> and \<open>used\<close> as in the source, \<open>cap\<close> the size of the block
  behind \<open>str\<close>, \<open>acc\<close> the characters stored so far.
\<close>

function parse_alloc_loop ::
  "pfilter \<Rightarrow> nat \<Rightarrow> nat \<Rightarrow> nat \<Rightarrow> string \<Rightarrow> parse_stat \<Rightarrow> string \<times> parse_stat" where
  "parse_alloc_loop f cap avail used acc i =
     (case run_filter f i of (c, i1) \<Rightarrow>
        if c = EOF then (acc, i1\<lparr>oob := oob i1 \<or> cap \<le> used\<rparr>)
        else
          let avail' = (if avail \<le> used then avail + 100 else avail);
              cap' = (if avail \<le> used then avail' + 1 else cap)
          in parse_alloc_loop f cap' avail' (used + 1) (acc @ [to_char (tolower c)])
               (i1\<lparr>oob := oob i1 \<or> cap' \<le> used\<rparr>))"
  by pat_completeness auto
termination
  by (relation "measure (\<lambda>(f, cap, avail, used, acc, i). left i)")
     (auto dest!: run_filter_left [OF sym] simp: left_def)

declare parse_alloc_loop.simps [simp del]

definition parse_alloc :: "pfilter \<Rightarrow> parse_stat \<Rightarrow> string \<times> parse_stat" where
  "parse_alloc f i = parse_alloc_loop f 5 5 0 [] i"

definition parse_name :: "parse_stat \<Rightarrow> string \<times> parse_stat" where
  "parse_name i = parse_alloc Filter_name (ps_undo (snd (parse_nonspace i)))"

lemma parse_nonspace_left: "parse_nonspace i = (c, i') \<Longrightarrow>
    left i' \<le> left i \<and> left (ps_undo i') \<le> left i \<and> (c \<noteq> EOF \<longrightarrow> left i' < left i)"
proof (induction i rule: parse_nonspace.induct)
  case (1 i)
  obtain a i1 where a: "ps_next (ps_done i) = (a, i1)" by (cases "ps_next (ps_done i)")
  show ?case
  proof (cases "isspace a")
    case True
    with 1 a have "left i' \<le> left i1 \<and> left (ps_undo i') \<le> left i1 \<and> (c \<noteq> EOF \<longrightarrow> left i' < left i1)"
      by (simp add: parse_nonspace.simps [of i])
    with ps_next_left_le [OF a] show ?thesis by auto
  next
    case False
    with 1 a have "c = a" "i' = i1" by (simp_all add: parse_nonspace.simps [of i])
    with ps_next_left_le [OF a] left_undo_next [OF a] ps_next_left [OF a] show ?thesis by simp
  qed
qed

function parse_num_loop :: "int \<Rightarrow> parse_stat \<Rightarrow> int \<times> parse_stat" where
  "parse_num_loop num i =
     (case parse_nonspace i of (c, i1) \<Rightarrow>
        if isdigit c
        then parse_num_loop (c_int (c_int (num * 10) + (c - schar (CHR ''0'')))) (ps_done i1)
        else (num, ps_undo i1))"
  by pat_completeness auto
termination
  by (relation "measure (\<lambda>(num, i). left i)")
     (auto dest!: parse_nonspace_left [OF sym] simp: isdigit_def)

declare parse_num_loop.simps [simp del]

definition parse_num :: "parse_stat \<Rightarrow> int \<times> parse_stat" where
  "parse_num i = parse_num_loop 0 i"

definition parse_string :: "parse_stat \<Rightarrow> string option \<times> parse_stat" where
  "parse_string i =
     (case parse_nonspace i of (c, i1) \<Rightarrow>
        if c = EOF then (None, ps_done i1)
        else if c \<noteq> schar DQUOTE then (None, ps_undo i1)
        else
          case parse_alloc Filter_string (ps_done i1) of (s, i2) \<Rightarrow>
            case ps_next i2 of (c2, i3) \<Rightarrow>
              if c2 \<noteq> schar DQUOTE
              then (None, parse_error i3 (Msg ''missing string termination''))
              else (Some s, i3))"

section \<open>Values\<close>

definition parse_value :: "parse_stat \<Rightarrow> cvalue option \<times> parse_stat" where
  "parse_value i =
     (case parse_nonspace i of (c, i0) \<Rightarrow>
        let i1 = ps_undo i0 in
        if c = EOF then (None, parse_error i1 (Msg ''expecting a value''))
        else if c = schar DQUOTE then
          (case parse_string i1 of (None, i2) \<Rightarrow> (None, i2) | (Some s, i2) \<Rightarrow> (Some (V_string s), i2))
        else if isdigit c then
          (case parse_num i1 of (n, i2) \<Rightarrow> (Some (V_num n), i2))
        else (None, parse_error i1 (Msg ''invalid value'')))"

text \<open>
  No reader of this file moves the input backwards past where it started: what the loop of
  \<open>parse_vallist\<close> and the recursion of the expression parser rest on.
\<close>

lemma left_oob [simp]: "left (i\<lparr>oob := b\<rparr>) = left i"
  by (simp add: left_def)

lemma filter_name_left: "left (snd (filter_name i)) \<le> left i \<or> left (snd (filter_name i)) = left (ps_undo i)"
  by (auto simp: filter_name_def ps_next_def pi_str_next_def ps_done_def pi_str_done_def ps_undo_def
      pi_str_undo_def left_def split: if_splits)

lemma filter_string_left: "left (snd (filter_string i)) \<le> left i \<or> left (snd (filter_string i)) = left (ps_undo i)"
proof -
  obtain a i1 where a: "ps_next i = (a, i1)" by (cases "ps_next i")
  obtain e i2 where e: "ps_next (ps_done i1) = (e, i2)" by (cases "ps_next (ps_done i1)")
  have "left (ps_undo i1) = left (ps_undo i)"
    using a by (auto simp: ps_next_def pi_str_next_def ps_undo_def pi_str_undo_def left_def split: if_splits)
  with a e ps_next_left_le [OF a] ps_next_left_le [OF e] left_undo_next [OF e] show ?thesis
    by (auto simp: filter_string_def)
qed

lemma run_filter_done: "run_filter f i = (c, i') \<Longrightarrow> c \<noteq> EOF \<Longrightarrow> left (ps_undo i') = left i'"
  by (cases f) (auto simp: filter_name_def filter_string_def ps_next_def pi_str_next_def ps_done_def
      pi_str_done_def ps_undo_def pi_str_undo_def left_def parse_error_def schar_def
      split: prod.splits if_splits option.splits)

lemma run_filter_le: "left (ps_undo i) \<le> left i \<Longrightarrow> left (snd (run_filter f i)) \<le> left i"
  using filter_name_left [of i] filter_string_left [of i] by (cases f) auto

lemma left_undo_oob [simp]: "left (ps_undo (i\<lparr>oob := b\<rparr>)) = left (ps_undo i)"
  by (simp add: ps_undo_def left_def)

lemma parse_alloc_loop_left:
  "left (ps_undo i) \<le> left i \<Longrightarrow> left (snd (parse_alloc_loop f cap avail used acc i)) \<le> left i"
proof (induction f cap avail used acc i rule: parse_alloc_loop.induct)
  case (1 f cap avail used acc i)
  obtain c i1 where c: "run_filter f i = (c, i1)" by (cases "run_filter f i")
  show ?case
  proof (cases "c = EOF")
    case True
    with c run_filter_le [OF "1.prems", of f] show ?thesis
      by (simp add: parse_alloc_loop.simps [of f cap avail used acc i])
  next
    case False
    with 1(1) [OF c [symmetric] False refl refl] c run_filter_done [OF c False]
      run_filter_left [OF c False]
    show ?thesis
      by (simp add: parse_alloc_loop.simps [of f cap avail used acc i] Let_def)
  qed
qed

lemma left_undo_done [simp]: "left (ps_undo (ps_done i)) = left i"
  by (simp add: ps_undo_def ps_done_def pi_str_undo_def pi_str_done_def left_def)

lemma parse_num_loop_left: "left (snd (parse_num_loop n i)) \<le> left i"
proof (induction n i rule: parse_num_loop.induct)
  case (1 n i)
  obtain c i1 where c: "parse_nonspace i = (c, i1)" by (cases "parse_nonspace i")
  with 1 [OF c [symmetric]] parse_nonspace_left [OF c] show ?case
    by (auto simp: parse_num_loop.simps [of n i])
qed

lemma parse_string_left: "parse_string i = (r, i') \<Longrightarrow> left i' \<le> left i"
proof -
  assume r: "parse_string i = (r, i')"
  obtain c i1 where c: "parse_nonspace i = (c, i1)" by (cases "parse_nonspace i")
  obtain s i2 where s: "parse_alloc Filter_string (ps_done i1) = (s, i2)"
    by (cases "parse_alloc Filter_string (ps_done i1)")
  obtain e i3 where e: "ps_next i2 = (e, i3)" by (cases "ps_next i2")
  have "left i2 \<le> left i1"
    using parse_alloc_loop_left [of "ps_done i1" Filter_string 5 5 0 "[]"] s by (simp add: parse_alloc_def)
  with r c s e parse_nonspace_left [OF c] ps_next_left_le [OF e] show ?thesis
    by (auto simp: parse_string_def split: if_splits)
qed

lemma parse_value_left: "parse_value i = (r, i') \<Longrightarrow> left i' \<le> left i"
proof -
  assume r: "parse_value i = (r, i')"
  obtain c i1 where c: "parse_nonspace i = (c, i1)" by (cases "parse_nonspace i")
  obtain s i2 where s: "parse_string (ps_undo i1) = (s, i2)" by (cases "parse_string (ps_undo i1)")
  have "left (snd (parse_num (ps_undo i1))) \<le> left (ps_undo i1)"
    by (simp add: parse_num_def parse_num_loop_left)
  with r c s parse_nonspace_left [OF c] parse_string_left [OF s] show ?thesis
    by (auto simp: parse_value_def Let_def split: if_splits option.splits prod.splits)
qed

lemma parse_vallist_left: "parse_value i = (r, i1) \<Longrightarrow> parse_nonspace i1 = (c, i2) \<Longrightarrow> c \<noteq> EOF \<Longrightarrow>
    left i2 < left i"
  using parse_value_left [of i r i1] parse_nonspace_left [of i1 c i2] by auto

function parse_vallist_loop :: "cvalue list \<Rightarrow> parse_stat \<Rightarrow> cvalue option \<times> parse_stat" where
  "parse_vallist_loop acc i =
     (case parse_value i of
        (None, i1) \<Rightarrow> (None, parse_error i1 (Msg ''missing value''))
      | (Some v, i1) \<Rightarrow>
          (case parse_nonspace i1 of (c, i2) \<Rightarrow>
             if c = schar (CHR '','') then parse_vallist_loop (acc @ [v]) i2
             else (Some (V_list (acc @ [v])), ps_undo i2)))"
  by pat_completeness auto
termination
  by (relation "measure (\<lambda>(acc, i). left i)")
     (auto dest!: parse_vallist_left [OF sym sym] simp: schar_def)

declare parse_vallist_loop.simps [simp del]

definition parse_vallist :: "parse_stat \<Rightarrow> cvalue option \<times> parse_stat" where
  "parse_vallist i = parse_vallist_loop [] i"

section \<open>Value tests\<close>

definition parse_valop :: "parse_stat \<Rightarrow> valop \<times> parse_stat" where
  "parse_valop i =
     (case parse_nonspace i of (c, i1) \<Rightarrow>
        if c = schar (CHR ''='') then (vo_eq, ps_done i1)
        else if c = schar (CHR ''>'') then
          (case ps_next (ps_done i1) of (n, i2) \<Rightarrow>
             if n = schar (CHR ''='') then (vo_ge, ps_done i2) else (vo_gt, ps_undo i2))
        else if c = schar (CHR ''<'') then
          (case ps_next (ps_done i1) of (n, i2) \<Rightarrow>
             if n = schar (CHR ''='') then (vo_le, ps_done i2) else (vo_lt, ps_undo i2))
        else if c = schar (CHR ''~'') then (vo_re, ps_done i1)
        else if c = schar (CHR ''i'') \<or> c = schar (CHR ''I'') then
          (case ps_next i1 of (n, i2) \<Rightarrow>
             if n = schar (CHR ''n'') \<or> n = schar (CHR ''N'') then (vo_in, ps_done i2)
             else (vo_none, parse_error (ps_done i2) (Msg ''EOF instead of value operator'')))
        else if c = EOF then
          (vo_none, parse_error (ps_done i1) (Msg ''EOF instead of value operator''))
        else (vo_none, ps_undo i1))"

type_synonym valtesttype = "valfield \<times> valop \<times> valtype"

definition vttypes :: "valtesttype list" where
  "vttypes =
   [(vf_dur, vo_eq, vt_num), (vf_dur, vo_lt, vt_num), (vf_dur, vo_le, vt_num),
    (vf_dur, vo_gt, vt_num), (vf_dur, vo_ge, vt_num),
    (vf_lplay, vo_eq, vt_num), (vf_lplay, vo_lt, vt_num), (vf_lplay, vo_le, vt_num),
    (vf_lplay, vo_gt, vt_num), (vf_lplay, vo_ge, vt_num),
    (vf_year, vo_eq, vt_num), (vf_year, vo_lt, vt_num), (vf_year, vo_le, vt_num),
    (vf_year, vo_gt, vt_num), (vf_year, vo_ge, vt_num),
    (vf_tag, vo_eq, vt_num), (vf_tag, vo_eq, vt_string), (vf_tag, vo_re, vt_string),
    (vf_tag, vo_in, vt_list),
    (vf_title, vo_eq, vt_string), (vf_title, vo_re, vt_string),
    (vf_artist, vo_eq, vt_string), (vf_artist, vo_eq, vt_num), (vf_artist, vo_re, vt_string),
    (vf_album, vo_eq, vt_string), (vf_album, vo_eq, vt_num), (vf_album, vo_re, vt_string),
    (vf_pos, vo_eq, vt_num), (vf_pos, vo_lt, vt_num), (vf_pos, vo_le, vt_num),
    (vf_pos, vo_gt, vt_num), (vf_pos, vo_ge, vt_num),
    (vf_none, vo_none, vt_none)]"

fun valfield_name :: "valfield \<Rightarrow> string" where
  "valfield_name vf_none = []"
| "valfield_name vf_dur = ''duration''"
| "valfield_name vf_lplay = ''lastplay''"
| "valfield_name vf_tag = ''tag''"
| "valfield_name vf_artist = ''artist''"
| "valfield_name vf_title = ''title''"
| "valfield_name vf_album = ''album''"
| "valfield_name vf_year = ''year''"
| "valfield_name vf_pos = ''pos''"
| "valfield_name vf_max = []"

fun valop_name :: "valop \<Rightarrow> string" where
  "valop_name vo_none = []"
| "valop_name vo_eq = ''=''"
| "valop_name vo_lt = ''<''"
| "valop_name vo_le = ''<=''"
| "valop_name vo_gt = ''>''"
| "valop_name vo_ge = ''>=''"
| "valop_name vo_in = ''IN''"
| "valop_name vo_re = ''~''"
| "valop_name vo_max = []"

text \<open>The loop over \<open>vf_none\<close> to \<open>vf_pos\<close> that looks a field name up; \<open>vf_max\<close> is "not found".\<close>

definition valfields :: "valfield list" where
  "valfields = [vf_none, vf_dur, vf_lplay, vf_tag, vf_artist, vf_title, vf_album, vf_year, vf_pos]"

definition find_field :: "string \<Rightarrow> valfield" where
  "find_field name = (case find (\<lambda>f. name = valfield_name f) valfields of None \<Rightarrow> vf_max | Some f \<Rightarrow> f)"

text \<open>The loop over \<open>vttypes\<close> up to its \<open>vf_none\<close> row.\<close>

fun vttypes_has :: "valtesttype list \<Rightarrow> valfield \<Rightarrow> valop \<Rightarrow> valtype \<Rightarrow> bool" where
  "vttypes_has [] f p t = False"
| "vttypes_has ((f', p', t') # rows) f p t =
     (if f' = vf_none then False
      else if f' = f \<and> p' = p \<and> t' = t then True
      else vttypes_has rows f p t)"

definition parse_valtest :: "parse_stat \<Rightarrow> valtest option \<times> parse_stat" where
  "parse_valtest i =
     (case parse_name i of (name, i1) \<Rightarrow>
        let fld = find_field name in
        if fld = vf_max then (None, parse_error i1 (Msg ''unknown field''))
        else
          case parse_valop i1 of (oper, i2) \<Rightarrow>
            if oper = vo_none \<or> oper = vo_max
            then (None, parse_error i2 (Msg ''invalid value operator''))
            else
              case (if oper = vo_in then parse_vallist i2 else parse_value i2) of
                (None, i3) \<Rightarrow> (None, parse_error i3 (Msg ''no value specified''))
              | (Some v, i3) \<Rightarrow>
                  if vttypes_has vttypes fld oper (value_type v)
                  then (Some \<lparr>vfield = fld, vop = oper, vval = v\<rparr>, i3)
                  else (None, parse_error i3 (Msg_invalid_match fld oper (value_type v))))"

section \<open>Expressions\<close>

definition parse_expr_val :: "parse_stat \<Rightarrow> expr option \<times> parse_stat" where
  "parse_expr_val i =
     (case parse_valtest i of (None, i1) \<Rightarrow> (None, i1) | (Some vt, i1) \<Rightarrow> (Some (Op_self vt), i1))"

definition parse_operator :: "parse_stat \<Rightarrow> operator \<times> parse_stat" where
  "parse_operator i =
     (case parse_nonspace i of (c, i1) \<Rightarrow>
        if c = schar (CHR ''|'') then (op_or, ps_done i1)
        else if c = schar (CHR ''&'') then (op_and, ps_done i1)
        else if c = EOF then (op_none, ps_done i1)
        else (op_none, ps_undo i1))"

text \<open>The \<open>op\<close> and the two \<open>data.expr\<close> pointers \<open>parse_expr\<close> fills in.\<close>

definition mk_binary :: "operator \<Rightarrow> expr \<Rightarrow> expr \<Rightarrow> expr" where
  "mk_binary oper a b = (if oper = op_or then Op_or a b else Op_and a b)"

function (sequential) parse_one_expr :: "nat \<Rightarrow> parse_stat \<Rightarrow> (expr option \<times> parse_stat) option"
  and parse_expr_not :: "nat \<Rightarrow> parse_stat \<Rightarrow> (expr option \<times> parse_stat) option"
  and parse_expr :: "nat \<Rightarrow> parse_stat \<Rightarrow> (expr option \<times> parse_stat) option" where
  "parse_one_expr 0 i = None"
| "parse_one_expr (Suc n) i =
     (case parse_nonspace i of (c, i1) \<Rightarrow>
        if c = schar (CHR ''('') then
          (case parse_expr n (ps_done i1) of
             None \<Rightarrow> None
           | Some (None, i2) \<Rightarrow> Some (None, parse_error i2 (Msg ''expecting an expression''))
           | Some (Some e, i2) \<Rightarrow>
               (case parse_nonspace i2 of (c2, i3) \<Rightarrow>
                  if c2 \<noteq> schar (CHR '')'')
                  then Some (None, parse_error i3 (Msg ''missing close brace''))
                  else Some (Some e, ps_done i3)))
        else if c = schar (CHR '')'') then
          Some (None, ps_done (parse_error i1 (Msg ''unexpected close brace'')))
        else if c = schar (CHR ''!'') then parse_expr_not n (ps_done i1)
        else Some (parse_expr_val (ps_undo i1)))"
| "parse_expr_not n i =
     (case parse_one_expr n i of
        None \<Rightarrow> None
      | Some (None, i1) \<Rightarrow> Some (None, parse_error i1 (Msg ''expecting an expression''))
      | Some (Some e, i1) \<Rightarrow> Some (Some (Op_not e), i1))"
| "parse_expr n i =
     (case parse_one_expr n i of
        None \<Rightarrow> None
      | Some (None, i1) \<Rightarrow> Some (None, i1)
      | Some (Some a, i1) \<Rightarrow>
          (case parse_nonspace i1 of (c, i2) \<Rightarrow>
             if c = schar (CHR '')'') then Some (Some a, ps_undo i2)
             else
               case parse_operator (ps_undo i2) of (oper, i3) \<Rightarrow>
                 if oper = op_none then
                   (if \<not> ps_eof i3 then Some (None, parse_error i3 (Msg ''invalid operator''))
                    else Some (Some a, i3))
                 else
                   (case parse_one_expr n i3 of
                      None \<Rightarrow> None
                    | Some (None, i4) \<Rightarrow>
                        Some (None, parse_error i4 (Msg ''expecting another expression for &|''))
                    | Some (Some b, i4) \<Rightarrow> Some (Some (mk_binary oper a b), i4))))"
  by pat_completeness auto
termination
  by (relation "measure (\<lambda>x. case x of Inl (n, i) \<Rightarrow> 2 * n | Inr (Inl (n, i)) \<Rightarrow> Suc (2 * n)
        | Inr (Inr (n, i)) \<Rightarrow> Suc (2 * n))") auto

declare parse_one_expr.simps(2) [simp del] parse_expr_not.simps [simp del] parse_expr.simps [simp del]

text \<open>
  \<open>expr_parse\<close>: the expression, and the three out parameters \<open>line\<close>, \<open>col\<close>, \<open>msg\<close>. One level of
  braces or negation takes one unit of budget and one character of input.
\<close>

definition expr_parse :: "pi_str \<Rightarrow> (expr option \<times> int \<times> int \<times> parse_msg option \<times> parse_stat) option" where
  "expr_parse i =
     (case parse_expr (Suc (length (str i))) \<lparr>inp = i, msg = None, oob = False\<rparr> of
        None \<Rightarrow> None
      | Some (None, st) \<Rightarrow>
          Some (None, pi_str_line (inp st), int (pi_str_col (inp st)), msg st, st)
      | Some (Some e, st) \<Rightarrow>
          (case parse_nonspace st of (c, st1) \<Rightarrow>
             if c \<noteq> EOF
             then Some (None, pi_str_line (inp st1), int (pi_str_col (inp st1)),
                        Some (Msg ''junk at end''), st1)
             else Some (Some e, - 1, - 1, None, st1)))"

definition expr_parse_str :: "string \<Rightarrow> (expr option \<times> int \<times> parse_msg option) option" where
  "expr_parse_str s =
     (case expr_parse (pi_str_new s) of
        None \<Rightarrow> None
      | Some (e, ln, col, m, st) \<Rightarrow> Some (e, col, m))"

end
