(* ===== verification/Music.thy ===== *)
theory Music
  imports Dudldb Parseexpr
begin

text \<open>
  Artists, albums and tracks (\<open>src/pgdb/artist.c\<close>, \<open>album.c\<close>, \<open>track.c\<close>, \<open>src/commondb/track.c\<close>): the
  converters from result rows and the operations, one definition per C function. Every operation
  takes the query function as its first argument. The objects are values: a \<open>*_free\<close> has nothing
  left to do here.
\<close>

section \<open>Artists\<close>

record artist =
  ar_id :: int
  ar_name :: string

record artist_col =
  col_id :: string
  col_artist :: string

definition title_col :: artist_col where
  "title_col = \<lparr>col_id = ''artist_id'', col_artist = ''artist_name''\<rparr>"

definition album_col :: artist_col where
  "album_col = \<lparr>col_id = ''album_artist_id'', col_artist = ''album_artist_name''\<rparr>"

definition artist_convert :: "artist_col \<Rightarrow> pgres \<Rightarrow> int \<Rightarrow> artist option option" where
  "artist_convert col res tup =
     (if tup \<ge> PQntuples res then Some None
      else getfield res (col_id col) (\<lambda>f. do {
        i \<leftarrow> pgint res tup f;
        getfield res (col_artist col) (\<lambda>f. do {
        n \<leftarrow> pgstring res tup f;
        Some (Some \<lparr>ar_id = i, ar_name = n\<rparr>) }) }))"

definition artist_convert_title :: "pgres \<Rightarrow> int \<Rightarrow> artist option option" where
  "artist_convert_title = artist_convert title_col"

definition artist_convert_album :: "pgres \<Rightarrow> int \<Rightarrow> artist option option" where
  "artist_convert_album = artist_convert album_col"

text \<open>An operation that sends one statement and reports \<open>0\<close> or \<open>-1\<close>.\<close>

definition db_command :: "'w query \<Rightarrow> string \<Rightarrow> 'w \<Rightarrow> (int \<times> 'w) option" where
  "db_command query q w =
     do { (res, w) \<leftarrow> query q w; Some (if command_ok res then 0 else - 1, w) }"

definition artist_setname :: "'w query \<Rightarrow> int \<Rightarrow> string \<Rightarrow> 'w \<Rightarrow> (int \<times> 'w) option" where
  "artist_setname query artistid name w =
     db_command query (''UPDATE mus_artist SET nname = '' @ quoted (db_escape name) @
       '' WHERE id = '' @ fmt_d artistid) w"

text \<open>The error exits of \<open>artist_merge\<close>.\<close>

definition merge_rollback :: "'w query \<Rightarrow> 'w \<Rightarrow> (int \<times> 'w) option" where
  "merge_rollback query w = do { (res, w) \<leftarrow> query ''ROLLBACK'' w; Some (1, w) }"

definition artist_merge :: "'w query \<Rightarrow> int \<Rightarrow> int \<Rightarrow> 'w \<Rightarrow> (int \<times> 'w) option" where
  "artist_merge query fromid toid w =
     do { (res, w) \<leftarrow> query ''BEGIN'' w;
          if \<not> command_ok res then Some (- 1, w) else do {
          (res, w) \<leftarrow> query (''UPDATE stor_file SET artist_id = '' @ fmt_d toid @ '' WHERE artist_id = '' @ fmt_d fromid) w;
          if \<not> command_ok res then merge_rollback query w else do {
          (res, w) \<leftarrow> query (''UPDATE mus_album SET artist_id = '' @ fmt_d toid @ '' WHERE artist_id = '' @ fmt_d fromid) w;
          if \<not> command_ok res then merge_rollback query w else do {
          (res, w) \<leftarrow> query (''DELETE FROM mus_artist WHERE id = '' @ fmt_d fromid) w;
          if \<not> command_ok res then merge_rollback query w else do {
          (res, w) \<leftarrow> query ''COMMIT'' w;
          if \<not> command_ok res then merge_rollback query w else Some (0, w) } } } } }"

definition db_get :: "'w query \<Rightarrow> (pgres \<Rightarrow> int \<Rightarrow> 'a option option) \<Rightarrow> string \<Rightarrow> 'w \<Rightarrow> ('a option \<times> 'w) option" where
  "db_get query conv q w =
     do { (res, w) \<leftarrow> query q w;
          (case tuples_ok res of
             None \<Rightarrow> Some (None, w)
           | Some r \<Rightarrow> map_option (\<lambda>x. (x, w)) (conv r 0)) }"

definition artist_get :: "'w query \<Rightarrow> int \<Rightarrow> 'w \<Rightarrow> (artist option \<times> 'w) option" where
  "artist_get query i w =
     db_get query (artist_convert title_col) (''SELECT * FROM mserv_artist WHERE artist_id = '' @ fmt_d i) w"

definition artists_list :: "'w query \<Rightarrow> 'w \<Rightarrow> (('w, artist) it_db option \<times> 'w) option" where
  "artists_list query w = db_iterate query (pure_conv artist_convert_title)
     ''SELECT * FROM mserv_artist ORDER BY LOWER(artist_name)'' w"

definition artists_tag :: "'w query \<Rightarrow> int \<Rightarrow> 'w \<Rightarrow> (('w, artist) it_db option \<times> 'w) option" where
  "artists_tag query tid w = db_iterate query (pure_conv artist_convert_title)
     (''SELECT * FROM mserv_artist a WHERE a.artist_id IN ( SELECT f.artist_id FROM stor_file f '' @
      ''INNER JOIN mserv_filetag t ON f.id = t.file_id WHERE t.tag_id = '' @ fmt_d tid @
      '' ) ORDER BY LOWER(artist_name)'') w"

definition artists_search :: "'w query \<Rightarrow> string \<Rightarrow> 'w \<Rightarrow> (('w, artist) it_db option \<times> 'w) option" where
  "artists_search query substr w = db_iterate query (pure_conv artist_convert_title)
     (''SELECT * FROM mserv_artist WHERE LOWER(artist_name) LIKE LOWER('' @
      quoted (''%'' @ db_escape substr @ ''%'') @ '') ORDER BY LOWER(artist_name)'') w"

text \<open>The first half of every \<open>*_add\<close>: a new id from a sequence, or \<open>-1\<close>.\<close>

definition db_nextval :: "'w query \<Rightarrow> string \<Rightarrow> 'w \<Rightarrow> (int \<times> 'w) option" where
  "db_nextval query sq w =
     do { (res, w) \<leftarrow> query (''SELECT nextval('' @ quoted sq @ '')'') w;
          (case tuples_ok res of
             None \<Rightarrow> Some (- 1, w)
           | Some r \<Rightarrow> do { i \<leftarrow> pgint r 0 0; Some (if i < 0 then - 1 else i, w) }) }"

definition artist_add :: "'w query \<Rightarrow> string \<Rightarrow> 'w \<Rightarrow> (int \<times> 'w) option" where
  "artist_add query name w =
     do { (i, w) \<leftarrow> db_nextval query ''mus_artist_id_seq'' w;
          if i < 0 then Some (- 1, w) else do {
          (res, w) \<leftarrow> query (''INSERT INTO mus_artist(id, nname) VALUES( '' @ fmt_d i @ '', '' @
            quoted (db_escape name) @ '')'') w;
          Some (if command_ok res then i else - 1, w) } }"

definition artist_del :: "'w query \<Rightarrow> int \<Rightarrow> 'w \<Rightarrow> (int \<times> 'w) option" where
  "artist_del query artistid w = db_command query (''DELETE FROM mus_artist WHERE id = '' @ fmt_d artistid) w"

section \<open>Albums\<close>

record album =
  al_id :: int
  al_album :: string
  al_year :: int
  al_artist :: artist
  al_rgain :: double
  al_rgainpeak :: double

definition album_convert :: "pgres \<Rightarrow> int \<Rightarrow> album option option" where
  "album_convert res tup =
     (if tup \<ge> PQntuples res then Some None
      else getfield res ''album_id'' (\<lambda>f. do {
        i \<leftarrow> pgint res tup f;
        getfield res ''album_name'' (\<lambda>f. do {
        n \<leftarrow> pgstring res tup f;
        getfield res ''album_publish_year'' (\<lambda>f. do {
        y \<leftarrow> pgint res tup f;
        rg \<leftarrow> optfield res ''album_rgain'' (D_int 0) (pgdouble res tup);
        rp \<leftarrow> optfield res ''album_rgain_peak'' (D_int 0) (pgdouble res tup);
        a \<leftarrow> artist_convert_album res tup;
        Some (case a of None \<Rightarrow> None
          | Some ar \<Rightarrow> Some \<lparr>al_id = i, al_album = n, al_year = y, al_artist = ar,
              al_rgain = rg, al_rgainpeak = rp\<rparr>) }) }) }))"

definition album_setname :: "'w query \<Rightarrow> int \<Rightarrow> string \<Rightarrow> 'w \<Rightarrow> (int \<times> 'w) option" where
  "album_setname query albumid name w =
     db_command query (''UPDATE mus_album SET album = '' @ quoted (db_escape name) @
       '' WHERE id = '' @ fmt_d albumid) w"

definition album_setartist :: "'w query \<Rightarrow> int \<Rightarrow> int \<Rightarrow> 'w \<Rightarrow> (int \<times> 'w) option" where
  "album_setartist query albumid artistid w =
     db_command query (''UPDATE mus_album SET artist_id = '' @ fmt_d artistid @ '' WHERE id = '' @ fmt_d albumid) w"

definition album_setyear :: "'w query \<Rightarrow> int \<Rightarrow> int \<Rightarrow> 'w \<Rightarrow> (int \<times> 'w) option" where
  "album_setyear query albumid year w =
     db_command query (''UPDATE mus_album SET publish_date = '' @ quoted (fmt_d year @ ''-1-1'') @
       '' WHERE id = '' @ fmt_d albumid) w"

definition album_get :: "'w query \<Rightarrow> int \<Rightarrow> 'w \<Rightarrow> (album option \<times> 'w) option" where
  "album_get query i w =
     db_get query album_convert (''SELECT * FROM mserv_album WHERE album_id = '' @ fmt_d i) w"

definition albums_artistid :: "'w query \<Rightarrow> int \<Rightarrow> 'w \<Rightarrow> (('w, album) it_db option \<times> 'w) option" where
  "albums_artistid query artistid w = db_iterate query (pure_conv album_convert)
     (''SELECT * FROM mserv_album WHERE album_artist_id = '' @ fmt_d artistid @ '' ORDER BY LOWER(album_name)'') w"

definition albums_tag :: "'w query \<Rightarrow> int \<Rightarrow> 'w \<Rightarrow> (('w, album) it_db option \<times> 'w) option" where
  "albums_tag query tid w = db_iterate query (pure_conv album_convert)
     (''SELECT * FROM mserv_album a WHERE a.album_id IN ( SELECT f.album_id FROM stor_file f '' @
      ''INNER JOIN mserv_filetag t ON f.id = t.file_id WHERE t.tag_id = '' @ fmt_d tid @
      '' ) ORDER BY LOWER(album_name)'') w"

definition albums_list :: "'w query \<Rightarrow> 'w \<Rightarrow> (('w, album) it_db option \<times> 'w) option" where
  "albums_list query w = db_iterate query (pure_conv album_convert)
     ''SELECT * FROM mserv_album ORDER BY LOWER(album_artist_name), LOWER(album_name)'' w"

definition albums_search :: "'w query \<Rightarrow> string \<Rightarrow> 'w \<Rightarrow> (('w, album) it_db option \<times> 'w) option" where
  "albums_search query substr w = db_iterate query (pure_conv album_convert)
     (''SELECT * FROM mserv_album WHERE LOWER(album_name) LIKE LOWER('' @
      quoted (''%'' @ db_escape substr @ ''%'') @ '') ORDER BY LOWER(album_artist_name), LOWER(album_name)'') w"

section \<open>Tracks\<close>

record track =
  tr_id :: int
  tr_album :: album
  tr_albumnr :: int
  tr_title :: string
  tr_artist :: artist
  tr_duration :: int
  tr_seg_from :: int
  tr_seg_to :: int
  tr_rgain :: double
  tr_rgainpeak :: double
  tr_fname :: string
  tr_lastplay :: int

text \<open>
  \<open>seg_from\<close> and \<open>seg_to\<close> are \<open>guint64\<close>, \<open>lastplay\<close> is \<open>unsigned\<close>: the assignments convert. The product
  \<open>duration * 1000000000\<close> is computed in 64 bits.
\<close>

definition c_uint64 :: "int \<Rightarrow> int" where
  "c_uint64 x = x mod 2 ^ 64"

definition track_convert :: "pgres \<Rightarrow> int \<Rightarrow> track option option" where
  "track_convert res tup =
     (if tup \<ge> PQntuples res then Some None
      else getfield res ''id'' (\<lambda>f. do {
        i \<leftarrow> pgint res tup f;
        getfield res ''album_pos'' (\<lambda>f. do {
        nr \<leftarrow> pgint res tup f;
        lplay \<leftarrow> optfield res ''lplay'' 0 (pgint res tup);
        dur \<leftarrow> optfield res ''dur'' 0 (pgint res tup);
        sfrom \<leftarrow> optfield res ''seg_from'' 0 (pgint64 res tup);
        sto \<leftarrow> optfield res ''seg_to'' (dur * 1000000000) (pgint64 res tup);
        rg \<leftarrow> optfield res ''rgain'' (D_int 0) (pgdouble res tup);
        rp \<leftarrow> optfield res ''rgain_peak'' (D_int 0) (pgdouble res tup);
        getfield res ''filename'' (\<lambda>f. do {
        fn \<leftarrow> pgstring res tup f;
        getfield res ''title'' (\<lambda>f. do {
        tt \<leftarrow> pgstring res tup f;
        a \<leftarrow> artist_convert_title res tup;
        (case a of None \<Rightarrow> Some None
         | Some ar \<Rightarrow> do {
             b \<leftarrow> album_convert res tup;
             Some (case b of None \<Rightarrow> None
               | Some al \<Rightarrow> Some \<lparr>tr_id = i, tr_album = al, tr_albumnr = nr, tr_title = tt, tr_artist = ar,
                   tr_duration = dur, tr_seg_from = c_uint64 sfrom, tr_seg_to = c_uint64 sto,
                   tr_rgain = rg, tr_rgainpeak = rp, tr_fname = fn, tr_lastplay = c_uint lplay\<rparr>) }) }) }) }) }))"

definition track_rgval :: "track \<Rightarrow> replaygain \<Rightarrow> double" where
  "track_rgval t gain =
     (case gain of rg_track \<Rightarrow> tr_rgain t | rg_track_peak \<Rightarrow> tr_rgainpeak t
      | rg_album \<Rightarrow> al_rgain (tr_album t) | rg_album_peak \<Rightarrow> al_rgainpeak (tr_album t)
      | rg_none \<Rightarrow> D_int 0)"

definition track_setname :: "'w query \<Rightarrow> int \<Rightarrow> string \<Rightarrow> 'w \<Rightarrow> (int \<times> 'w) option" where
  "track_setname query trackid title w =
     db_command query (''UPDATE stor_file SET title = '' @ quoted (db_escape title) @
       '' WHERE id = '' @ fmt_d trackid) w"

definition track_setartist :: "'w query \<Rightarrow> int \<Rightarrow> int \<Rightarrow> 'w \<Rightarrow> (int \<times> 'w) option" where
  "track_setartist query trackid artistid w =
     db_command query (''UPDATE stor_file SET artist_id = '' @ fmt_d artistid @ '' WHERE id = '' @ fmt_d trackid) w"

definition track_id :: "'w query \<Rightarrow> int \<Rightarrow> int \<Rightarrow> 'w \<Rightarrow> (int \<times> 'w) option" where
  "track_id query album_id num w =
     do { (res, w) \<leftarrow> query (''SELECT id FROM stor_file WHERE album_id = '' @ fmt_d album_id @
            '' AND album_pos = '' @ fmt_d num) w;
          (case tuples_ok res of
             None \<Rightarrow> Some (- 1, w)
           | Some r \<Rightarrow>
               if PQntuples r \<le> 0 \<or> PQfnumber r ''id'' < 0 then Some (- 1, w)
               else do { i \<leftarrow> pgint r 0 (PQfnumber r ''id''); Some (i, w) }) }"

definition track_get :: "'w query \<Rightarrow> int \<Rightarrow> 'w \<Rightarrow> (track option \<times> 'w) option" where
  "track_get query i w =
     db_get query track_convert (''SELECT * FROM mserv_track WHERE id = '' @ fmt_d i) w"

definition tracks_albumid :: "'w query \<Rightarrow> int \<Rightarrow> 'w \<Rightarrow> (('w, track) it_db option \<times> 'w) option" where
  "tracks_albumid query albumid w = db_iterate query (pure_conv track_convert)
     (''SELECT * FROM mserv_track WHERE  album_id = '' @ fmt_d albumid @ '' ORDER BY album_pos'') w"

definition tracks_artistid :: "'w query \<Rightarrow> int \<Rightarrow> 'w \<Rightarrow> (('w, track) it_db option \<times> 'w) option" where
  "tracks_artistid query artistid w = db_iterate query (pure_conv track_convert)
     (''SELECT * FROM mserv_track WHERE artist_id = '' @ fmt_d artistid @
      '' ORDER BY LOWER(album_name), album_pos'') w"

definition tracks_search :: "'w query \<Rightarrow> string \<Rightarrow> 'w \<Rightarrow> (('w, track) it_db option \<times> 'w) option" where
  "tracks_search query substr w = db_iterate query (pure_conv track_convert)
     (''SELECT * FROM mserv_track WHERE LOWER(title) LIKE LOWER('' @
      quoted (''%'' @ db_escape substr @ ''%'') @
      '') ORDER BY LOWER(album_artist_name), LOWER(album_name), album_pos'') w"

definition tracks :: "'w query \<Rightarrow> 'w \<Rightarrow> (int \<times> 'w) option" where
  "tracks query w =
     do { (res, w) \<leftarrow> query ''SELECT count(*) FROM stor_file WHERE title NOTNULL AND NOT broken'' w;
          (case tuples_ok res of
             None \<Rightarrow> Some (- 1, w)
           | Some r \<Rightarrow> do { n \<leftarrow> pgint r 0 0; Some (n, w) }) }"

text \<open>
  \<open>track_mkpath\<close> into a buffer of \<open>len\<close> bytes: the string the buffer then holds. \<open>track_exists\<close> tries
  to open that file; whether it can be opened is the argument \<open>opens\<close>.
\<close>

definition track_mkpath :: "opts \<Rightarrow> nat \<Rightarrow> track \<Rightarrow> string" where
  "track_mkpath opt len t = take (len - 1) (opt_path_tracks opt @ ''/'' @ tr_fname t)"

definition MAXPATHLEN :: nat where "MAXPATHLEN = 4096"

definition track_exists :: "'w query \<Rightarrow> (string \<Rightarrow> 'w \<Rightarrow> bool) \<Rightarrow> opts \<Rightarrow> track \<Rightarrow> 'w \<Rightarrow> (bool \<times> 'w) option" where
  "track_exists query opens opt t w =
     (if opens (track_mkpath opt MAXPATHLEN t) w then Some (True, w)
      else do { (res, w) \<leftarrow> query (''UPDATE stor_file SET available = false WHERE id = '' @ fmt_d (tr_id t)) w;
                Some (False, w) })"

section \<open>Iterating over results\<close>

lemma ends_artist: "ends_rows (artist_convert col)" and ends_album: "ends_rows album_convert"
  and ends_track: "ends_rows track_convert"
  by (simp_all add: ends_rows_def artist_convert_def album_convert_def track_convert_def)

interpretation artist_rows: iterator it_db_begin it_db_next "row_inv (artist_convert col)"
  "row_items (artist_convert col)" "\<lambda>i. nat (it_tuple i)" "\<lambda>x w. w"
  by (rule row_iterator [OF ends_artist])

interpretation album_rows: iterator it_db_begin it_db_next "row_inv album_convert"
  "row_items album_convert" "\<lambda>i. nat (it_tuple i)" "\<lambda>x w. w"
  by (rule row_iterator [OF ends_album])

interpretation track_rows: iterator it_db_begin it_db_next "row_inv track_convert"
  "row_items track_convert" "\<lambda>i. nat (it_tuple i)" "\<lambda>x w. w"
  by (rule row_iterator [OF ends_track])

text \<open>
  C27: Reading a track list runs the caller's code once for each row of the result, in order, up to the
  first row that cannot be converted, and then ends: for every result whose fields can be read.
\<close>

theorem track_list_visits:
  assumes "\<forall>k < nat (PQntuples r). track_convert r (int k) \<noteq> None"
  shows "it_db_for \<lparr>it_res = r, it_conv = pure_conv track_convert, it_tuple = 0\<rparr> body w =
    visit_all (\<lambda>x w. w) body
      (map the (takeWhile (\<lambda>x. x \<noteq> None) (map (\<lambda>k. the (track_convert r (int k))) [0..<nat (PQntuples r)]))) w"
  using track_rows.loop_visits [of "\<lparr>it_res = r, it_conv = pure_conv track_convert, it_tuple = 0\<rparr>" body w] assms
  by (simp add: it_db_for_def row_inv_def row_items_def)

text \<open>A result with two tracks: every text field is the number of the row.\<close>

definition demo_tracks :: pgres where
  "demo_tracks = \<lparr>PQresultStatus = PGRES_TUPLES_OK, PQntuples = 2, PQfnumber = \<lambda>n. 0,
     PQgetvalue = \<lambda>t f. Some (fmt_d t), PQcmdTuples = []\<rparr>"

theorem track_list_visits_witness:
  "it_db_for \<lparr>it_res = demo_tracks, it_conv = pure_conv track_convert, it_tuple = 0\<rparr>
     (\<lambda>t l. Some (l @ [tr_id t])) [] = Some [0, 1]"
proof -
  have u: "[0..<nat (PQntuples demo_tracks)] = [0, 1]" by code_simp
  have r: "track_convert demo_tracks (int k) \<noteq> None" if "k < nat (PQntuples demo_tracks)" for k
    by (auto simp: track_convert_def artist_convert_title_def artist_convert_def album_convert_def
        artist_convert_album_def getfield_def optfield_def pgint_def pgint64_def pgdouble_def pgstring_def
        demo_tracks_def split: option.split)
  have v: "visit_all (\<lambda>x w. w) (\<lambda>t l. Some (l @ [tr_id t]))
      (map the (takeWhile (\<lambda>x. x \<noteq> None) (map (\<lambda>k. the (track_convert demo_tracks (int k))) [0, 1]))) [] = Some [0, 1]"
    by code_simp
  show ?thesis using track_list_visits [of demo_tracks "\<lambda>t l. Some (l @ [tr_id t])" "[]", unfolded u] r v by simp
qed

end
