(* ===== verification/User.thy ===== *)
theory User
  imports Music
begin

text \<open>
  Users, tags and stored filters (\<open>src/pgdb/user.c\<close>, \<open>tag.c\<close>, \<open>sfilter.c\<close>). The C library's \<open>random\<close>,
  \<open>crypt\<close> and \<open>time\<close> are the record \<open>libc\<close>. The hooks \<open>tag_func_changed\<close> and \<open>tag_func_del\<close> are arguments of the
  operations that call them, \<open>None\<close> for a \<open>NULL\<close> function pointer.
\<close>

section \<open>Users\<close>

abbreviation (input) r_any :: int where "r_any \<equiv> 0"
abbreviation (input) r_guest :: int where "r_guest \<equiv> 1"
abbreviation (input) r_user :: int where "r_user \<equiv> 2"
abbreviation (input) r_admin :: int where "r_admin \<equiv> 3"
abbreviation (input) r_master :: int where "r_master \<equiv> 4"

record user =
  us_id :: int
  us_right :: int
  us_name :: string
  us_pass :: string

record 'w libc =
  c_random :: "'w \<Rightarrow> int \<times> 'w"
  c_time :: "'w \<Rightarrow> int \<times> 'w"
  c_crypt :: "string \<Rightarrow> string \<Rightarrow> string option"

definition user_convert :: "pgres \<Rightarrow> int \<Rightarrow> user option option" where
  "user_convert res tup =
     (if tup \<ge> PQntuples res then Some None
      else getfield res ''id'' (\<lambda>f. do {
        i \<leftarrow> pgint res tup f;
        getfield res ''lev'' (\<lambda>f. do {
        r \<leftarrow> pgint res tup f;
        getfield res ''name'' (\<lambda>f. do {
        n \<leftarrow> pgstring res tup f;
        getfield res ''pass'' (\<lambda>f. do {
        p \<leftarrow> pgstring res tup f;
        Some (Some \<lparr>us_id = i, us_right = r, us_name = n, us_pass = p\<rparr>) }) }) }) }))"

definition hexdigit :: "int \<Rightarrow> char" where
  "hexdigit n = (if n < 10 then to_char (48 + n) else to_char (87 + n))"

text \<open>\<open>%02x\<close> of a number in 0..255, and the text \<open>%s\<close> prints for a \<open>NULL\<close> pointer.\<close>

definition fmt_02x :: "int \<Rightarrow> string" where
  "fmt_02x n = [hexdigit (n div 16), hexdigit (n mod 16)]"

definition null_text :: string where "null_text = ''(null)''"

definition fmt_s :: "string option \<Rightarrow> string" where
  "fmt_s s = (case s of None \<Rightarrow> null_text | Some t \<Rightarrow> t)"

text \<open>
  A random number in \<open>0..RAND_MAX\<close> scaled to \<open>0..n\<close>, \<open>(int)((double)r / RAND_MAX * n)\<close>. \<open>RAND_MAX\<close> is prime, so
  for \<open>0 < r < RAND_MAX\<close> and \<open>n < 2^20\<close> the exact quotient is further from an integer than the two roundings
  of the floating point expression can move it, and the integer quotient is what C computes.
\<close>

abbreviation RAND_MAX :: int where "RAND_MAX \<equiv> 2147483647"

definition rand_scale :: "int \<Rightarrow> int \<Rightarrow> int" where
  "rand_scale r n = r * n div RAND_MAX"

definition pass_gen :: "'w libc \<Rightarrow> string \<Rightarrow> 'w \<Rightarrow> string option \<times> 'w" where
  "pass_gen C pass w = (case c_random C w of (r, w) \<Rightarrow> (c_crypt C pass (fmt_02x (rand_scale r 255)), w))"

definition pass_ok :: "'w libc \<Rightarrow> string \<Rightarrow> string \<Rightarrow> bool" where
  "pass_ok C cpass pass = (case c_crypt C pass cpass of None \<Rightarrow> False | Some cr \<Rightarrow> cpass = cr)"

definition user_add :: "'w query \<Rightarrow> 'w libc \<Rightarrow> string \<Rightarrow> int \<Rightarrow> string \<Rightarrow> 'w \<Rightarrow> (int \<times> 'w) option" where
  "user_add query C name right pass w =
     do { (uid, w) \<leftarrow> db_nextval query ''mserv_user_id_seq'' w;
          if uid < 0 then Some (- 1, w) else do {
          let (cp, w) = pass_gen C pass w;
          (res, w) \<leftarrow> query (''INSERT INTO mserv_user( id, name, lev, pass ) VALUES( '' @ fmt_d uid @ '', '' @
            quoted name @ '', '' @ fmt_d right @ '', '' @ quoted (fmt_s cp) @ '' )'') w;
          Some (if command_ok res then uid else - 1, w) } }"

definition user_ok :: "'w libc \<Rightarrow> user \<Rightarrow> string \<Rightarrow> bool" where
  "user_ok C u pass = pass_ok C (us_pass u) pass"

text \<open>A lookup that must find exactly one row.\<close>

definition db_get_one :: "'w query \<Rightarrow> (pgres \<Rightarrow> int \<Rightarrow> 'a option option) \<Rightarrow> string \<Rightarrow> 'w \<Rightarrow> ('a option \<times> 'w) option" where
  "db_get_one query conv q w =
     do { (res, w) \<leftarrow> query q w;
          (case tuples_ok res of
             None \<Rightarrow> Some (None, w)
           | Some r \<Rightarrow> if PQntuples r \<noteq> 1 then Some (None, w) else map_option (\<lambda>x. (x, w)) (conv r 0)) }"

definition db_get_id :: "'w query \<Rightarrow> string \<Rightarrow> 'w \<Rightarrow> (int \<times> 'w) option" where
  "db_get_id query q w =
     do { (res, w) \<leftarrow> query q w;
          (case tuples_ok res of
             None \<Rightarrow> Some (- 1, w)
           | Some r \<Rightarrow> if PQntuples r \<noteq> 1 then Some (- 1, w) else do { i \<leftarrow> pgint r 0 0; Some (i, w) }) }"

definition user_get :: "'w query \<Rightarrow> int \<Rightarrow> 'w \<Rightarrow> (user option \<times> 'w) option" where
  "user_get query uid w =
     db_get_one query user_convert (''SELECT * FROM mserv_user WHERE id = '' @ fmt_d uid) w"

definition user_getn :: "'w query \<Rightarrow> string \<Rightarrow> 'w \<Rightarrow> (user option \<times> 'w) option" where
  "user_getn query name w =
     db_get_one query user_convert (''SELECT * FROM mserv_user WHERE name = '' @ quoted (db_escape name)) w"

definition user_id :: "'w query \<Rightarrow> string \<Rightarrow> 'w \<Rightarrow> (int \<times> 'w) option" where
  "user_id query name w = db_get_id query (''SELECT id FROM mserv_user WHERE name = '' @ quoted (db_escape name)) w"

definition users_list :: "'w query \<Rightarrow> 'w \<Rightarrow> (('w, user) it_db option \<times> 'w) option" where
  "users_list query w = db_iterate query (pure_conv user_convert)
     ''SELECT * FROM mserv_user ORDER BY LOWER(name)'' w"

text \<open>
  The three updates below end with \<open>if( PQcmdTuples(res) == 0 )\<close>. \<open>PQcmdTuples\<close> returns a string, so this
  compares a pointer, and the branch is never taken.
\<close>

definition user_setright :: "'w query \<Rightarrow> int \<Rightarrow> int \<Rightarrow> 'w \<Rightarrow> (int \<times> 'w) option" where
  "user_setright query userid right w =
     db_command query (''UPDATE mserv_user SET lev = '' @ fmt_d right @ '' WHERE id = '' @ fmt_d userid) w"

definition user_setpass :: "'w query \<Rightarrow> 'w libc \<Rightarrow> int \<Rightarrow> string \<Rightarrow> 'w \<Rightarrow> (int \<times> 'w) option" where
  "user_setpass query C userid newpass w =
     (case pass_gen C newpass w of (pass, w) \<Rightarrow>
        db_command query (''UPDATE mserv_user SET pass = '' @ quoted (fmt_s pass) @ '' WHERE id = '' @ fmt_d userid) w)"

definition user_del :: "'w query \<Rightarrow> int \<Rightarrow> 'w \<Rightarrow> (int \<times> 'w) option" where
  "user_del query uid w = db_command query (''DELETE FROM mserv_user WHERE id = '' @ fmt_d uid) w"

section \<open>Tags\<close>

record tag =
  tg_id :: int
  tg_name :: string
  tg_desc :: string

type_synonym ('w, 'a) hook = "('a \<Rightarrow> 'w \<Rightarrow> 'w option) option"

definition call_hook :: "('w, 'a) hook \<Rightarrow> 'a \<Rightarrow> 'w \<Rightarrow> 'w option" where
  "call_hook h x w = (case h of None \<Rightarrow> Some w | Some f \<Rightarrow> f x w)"

definition tag_convert :: "pgres \<Rightarrow> int \<Rightarrow> tag option option" where
  "tag_convert res tup =
     (if tup \<ge> PQntuples res then Some None
      else getfield res ''id'' (\<lambda>f. do {
        i \<leftarrow> pgint res tup f;
        getfield res ''name'' (\<lambda>f. do {
        n \<leftarrow> pgstring res tup f;
        getfield res ''cmnt'' (\<lambda>f. do {
        c \<leftarrow> pgstring res tup f;
        Some (Some \<lparr>tg_id = i, tg_name = n, tg_desc = c\<rparr>) }) }) }))"

definition tag_get :: "'w query \<Rightarrow> int \<Rightarrow> 'w \<Rightarrow> (tag option \<times> 'w) option" where
  "tag_get query i w =
     db_get query tag_convert (''SELECT id, name, cmnt FROM mserv_tag WHERE id = '' @ fmt_d i) w"

definition tag_id :: "'w query \<Rightarrow> string \<Rightarrow> 'w \<Rightarrow> (int \<times> 'w) option" where
  "tag_id query name w = db_get_id query (''SELECT id FROM mserv_tag WHERE name = '' @ quoted (db_escape name)) w"

definition tags_list :: "'w query \<Rightarrow> 'w \<Rightarrow> (('w, tag) it_db option \<times> 'w) option" where
  "tags_list query w = db_iterate query (pure_conv tag_convert)
     ''SELECT id, name, cmnt FROM mserv_tag ORDER BY LOWER(name)'' w"

definition tags_artist :: "'w query \<Rightarrow> int \<Rightarrow> 'w \<Rightarrow> (('w, tag) it_db option \<times> 'w) option" where
  "tags_artist query aid w = db_iterate query (pure_conv tag_convert)
     (''SELECT id, name, cmnt FROM mserv_tag t WHERE t.id IN ( SELECT tt.tag_id FROM stor_file f '' @
      ''INNER JOIN mserv_filetag tt ON f.id = tt.file_id WHERE f.artist_id = '' @ fmt_d aid @
      '' ) ORDER BY LOWER(name)'') w"

text \<open>The announcement behind \<open>tag_add\<close>, \<open>tag_setname\<close> and \<open>tag_setdesc\<close>.\<close>

definition tag_announce :: "'w query \<Rightarrow> ('w, tag) hook \<Rightarrow> int \<Rightarrow> 'w \<Rightarrow> 'w option" where
  "tag_announce query tag_func_changed i w =
     (case tag_func_changed of
        None \<Rightarrow> Some w
      | Some f \<Rightarrow> do { (t, w) \<leftarrow> tag_get query i w;
                     (case t of None \<Rightarrow> Some w | Some t \<Rightarrow> f t w) })"

definition tag_add :: "'w query \<Rightarrow> ('w, tag) hook \<Rightarrow> string \<Rightarrow> 'w \<Rightarrow> (int \<times> 'w) option" where
  "tag_add query tag_func_changed name w =
     do { (i, w) \<leftarrow> db_nextval query ''mserv_tag_id_seq'' w;
          if i < 0 then Some (- 1, w) else do {
          (res, w) \<leftarrow> query (''INSERT INTO mserv_tag(id, name) VALUES( '' @ fmt_d i @ '', '' @
            quoted (db_escape name) @ '')'') w;
          if \<not> command_ok res then Some (- 1, w) else do {
          w \<leftarrow> tag_announce query tag_func_changed i w;
          Some (i, w) } } }"

text \<open>
  \<open>tag_del\<close> tests \<open>tag_func_del\<close> but calls \<open>tag_func_changed\<close>; calling a \<open>NULL\<close> pointer is undefined.
\<close>

definition tag_del :: "'w query \<Rightarrow> ('w, tag) hook \<Rightarrow> ('w, tag) hook \<Rightarrow> int \<Rightarrow> 'w \<Rightarrow> (int \<times> 'w) option" where
  "tag_del query tag_func_changed tag_func_del i w =
     do { (t, w) \<leftarrow> (case tag_func_del of None \<Rightarrow> Some (None, w) | Some _ \<Rightarrow> tag_get query i w);
          (res, w) \<leftarrow> query (''DELETE FROM mserv_tag WHERE id = '' @ fmt_d i) w;
          if \<not> command_ok res then Some (- 1, w) else
          (case (tag_func_del, t) of
             (Some _, Some t) \<Rightarrow> do { f \<leftarrow> tag_func_changed; w \<leftarrow> f t w; Some (0, w) }
           | _ \<Rightarrow> Some (0, w)) }"

definition tag_update :: "'w query \<Rightarrow> ('w, tag) hook \<Rightarrow> string \<Rightarrow> int \<Rightarrow> string \<Rightarrow> 'w \<Rightarrow> (int \<times> 'w) option" where
  "tag_update query tag_func_changed col i val w =
     do { (res, w) \<leftarrow> query (''UPDATE mserv_tag SET '' @ col @ '' ='' @ quoted (db_escape val) @
            '' WHERE id = '' @ fmt_d i) w;
          if \<not> command_ok res then Some (- 1, w) else do {
          w \<leftarrow> tag_announce query tag_func_changed i w;
          Some (0, w) } }"

definition tag_setname :: "'w query \<Rightarrow> ('w, tag) hook \<Rightarrow> int \<Rightarrow> string \<Rightarrow> 'w \<Rightarrow> (int \<times> 'w) option" where
  "tag_setname query tag_func_changed = tag_update query tag_func_changed ''name''"

definition tag_setdesc :: "'w query \<Rightarrow> ('w, tag) hook \<Rightarrow> int \<Rightarrow> string \<Rightarrow> 'w \<Rightarrow> (int \<times> 'w) option" where
  "tag_setdesc query tag_func_changed = tag_update query tag_func_changed ''cmnt''"

definition track_tags :: "'w query \<Rightarrow> int \<Rightarrow> 'w \<Rightarrow> (('w, tag) it_db option \<times> 'w) option" where
  "track_tags query tid w = db_iterate query (pure_conv tag_convert)
     (''SELECT tg.id, tg.name, tg.cmnt FROM mserv_tag tg INNER JOIN mserv_filetag tt ON tg.id = tt.tag_id '' @
      ''INNER JOIN stor_file t ON tt.file_id = t.id WHERE t.id = '' @ fmt_d tid @ '' ORDER BY LOWER(tg.name)'') w"

definition track_tagged :: "'w query \<Rightarrow> int \<Rightarrow> int \<Rightarrow> 'w \<Rightarrow> (int \<times> 'w) option" where
  "track_tagged query tid i w =
     do { (res, w) \<leftarrow> query (''SELECT tag_id FROM mserv_filetag WHERE file_id = '' @ fmt_d tid @
            '' AND tag_id = '' @ fmt_d i) w;
          Some (case tuples_ok res of None \<Rightarrow> - 1 | Some r \<Rightarrow> if PQntuples r > 0 then 1 else 0, w) }"

definition track_tagadd :: "'w query \<Rightarrow> int \<Rightarrow> int \<Rightarrow> 'w \<Rightarrow> (int \<times> 'w) option" where
  "track_tagadd query tid i w =
     do { (res, w) \<leftarrow> query (''SELECT id FROM mserv_tag WHERE id = '' @ fmt_d i) w;
          (case tuples_ok res of
             None \<Rightarrow> Some (- 1, w)
           | Some r \<Rightarrow>
               if PQntuples r = 0 then Some (- 2, w) else do {
               (t, w) \<leftarrow> track_tagged query tid i w;
               if t < 0 then Some (- 1, w)
               else if t > 0 then Some (0, w)
               else db_command query (''INSERT INTO mserv_filetag( tag_id, file_id ) VALUES( '' @ fmt_d i @
                      '', '' @ fmt_d tid @ '' )'') w }) }"

definition track_tagdel :: "'w query \<Rightarrow> int \<Rightarrow> int \<Rightarrow> 'w \<Rightarrow> (int \<times> 'w) option" where
  "track_tagdel query tid i w =
     db_command query (''DELETE FROM mserv_filetag WHERE tag_id = '' @ fmt_d i @
       '' AND file_id = '' @ fmt_d tid @ '' '') w"

section \<open>Stored filters\<close>

record sfilter =
  sf_id :: int
  sf_name :: string
  sf_filter :: string

definition sfilter_convert :: "pgres \<Rightarrow> int \<Rightarrow> sfilter option option" where
  "sfilter_convert res tup =
     (if tup \<ge> PQntuples res then Some None
      else getfield res ''id'' (\<lambda>f. do {
        i \<leftarrow> pgint res tup f;
        getfield res ''name'' (\<lambda>f. do {
        n \<leftarrow> pgstring res tup f;
        getfield res ''filter'' (\<lambda>f. do {
        c \<leftarrow> pgstring res tup f;
        Some (Some \<lparr>sf_id = i, sf_name = n, sf_filter = c\<rparr>) }) }) }))"

definition sfilter_get :: "'w query \<Rightarrow> int \<Rightarrow> 'w \<Rightarrow> (sfilter option \<times> 'w) option" where
  "sfilter_get query i w =
     db_get query sfilter_convert (''SELECT id, name, filter FROM juke_sfilter WHERE id = '' @ fmt_d i) w"

definition sfilter_id :: "'w query \<Rightarrow> string \<Rightarrow> 'w \<Rightarrow> (int \<times> 'w) option" where
  "sfilter_id query name w =
     db_get_id query (''SELECT id FROM juke_sfilter WHERE name = '' @ quoted (db_escape name)) w"

definition sfilters_list :: "'w query \<Rightarrow> 'w \<Rightarrow> (('w, sfilter) it_db option \<times> 'w) option" where
  "sfilters_list query w = db_iterate query (pure_conv sfilter_convert)
     ''SELECT id, name, filter FROM juke_sfilter ORDER BY LOWER(name)'' w"

definition sfilter_add :: "'w query \<Rightarrow> string \<Rightarrow> 'w \<Rightarrow> (int \<times> 'w) option" where
  "sfilter_add query name w =
     do { (i, w) \<leftarrow> db_nextval query ''juke_sfilter_id_seq'' w;
          if i < 0 then Some (- 1, w) else do {
          (res, w) \<leftarrow> query (''INSERT INTO juke_sfilter(id, name) VALUES( '' @ fmt_d i @ '', '' @
            quoted (db_escape name) @ '')'') w;
          Some (if command_ok res then i else - 1, w) } }"

definition sfilter_del :: "'w query \<Rightarrow> int \<Rightarrow> 'w \<Rightarrow> (int \<times> 'w) option" where
  "sfilter_del query i w = db_command query (''DELETE FROM juke_sfilter WHERE id = '' @ fmt_d i) w"

definition sfilter_setname :: "'w query \<Rightarrow> int \<Rightarrow> string \<Rightarrow> 'w \<Rightarrow> (int \<times> 'w) option" where
  "sfilter_setname query i name w =
     db_command query (''UPDATE juke_sfilter SET name ='' @ quoted (db_escape name) @ '' WHERE id = '' @ fmt_d i) w"

definition sfilter_setfilter :: "'w query \<Rightarrow> int \<Rightarrow> string \<Rightarrow> 'w \<Rightarrow> (int \<times> 'w) option" where
  "sfilter_setfilter query i flt w =
     db_command query (''UPDATE juke_sfilter SET filter ='' @ quoted (db_escape flt) @ '' WHERE id = '' @ fmt_d i) w"

section \<open>Iterating over results\<close>

lemma ends_user: "ends_rows user_convert" and ends_tag: "ends_rows tag_convert"
  and ends_sfilter: "ends_rows sfilter_convert"
  by (simp_all add: ends_rows_def user_convert_def tag_convert_def sfilter_convert_def)

interpretation user_rows: iterator it_db_begin it_db_next "row_inv user_convert"
  "row_items user_convert" "\<lambda>i. nat (it_tuple i)" "\<lambda>x w. w"
  by (rule row_iterator [OF ends_user])

interpretation tag_rows: iterator it_db_begin it_db_next "row_inv tag_convert"
  "row_items tag_convert" "\<lambda>i. nat (it_tuple i)" "\<lambda>x w. w"
  by (rule row_iterator [OF ends_tag])

interpretation sfilter_rows: iterator it_db_begin it_db_next "row_inv sfilter_convert"
  "row_items sfilter_convert" "\<lambda>i. nat (it_tuple i)" "\<lambda>x w. w"
  by (rule row_iterator [OF ends_sfilter])

end
