(* ===== verification/Cbuf.thy ===== *)
theory Cbuf
  imports Dudl_Prelude
begin

text \<open>
  Character arrays and the bounded output functions of the C library the sources use on them. A
  memory object is the list of its bytes; a write that leaves the object is undefined behaviour and
  shows as \<open>None\<close>. Sizes are \<open>size_t\<close>: a subtraction that passes below zero wraps. Texts are taken
  to be shorter than \<open>INT_MAX\<close>, so that the \<open>int\<close> results of \<open>snprintf\<close> are exact.

  The locale \<open>bounded_formatter\<close> is the contract the recursive formatters of the program share:
  called with a part of an object and its size, they store as much of a text as fits, terminate it,
  touch nothing else, and return a number that is smaller than the size exactly when all of it
  fitted.
\<close>

section \<open>Arrays and snprintf\<close>

type_synonym mem = "char list"

abbreviation SIZE_MOD :: nat where "SIZE_MOD \<equiv> 2 ^ 64"

definition szsub :: "nat \<Rightarrow> nat \<Rightarrow> nat" where
  "szsub a b = (if b \<le> a then a - b else a + SIZE_MOD - b)"

definition mem_write :: "nat \<Rightarrow> string \<Rightarrow> mem \<Rightarrow> mem option" where
  "mem_write off s m =
     (if off + length s \<le> length m then Some (take off m @ s @ drop (off + length s) m) else None)"

text \<open>\<open>snprintf(buf+off, len, ...)\<close> for the converted text \<open>s\<close>.\<close>

definition snprintf :: "mem \<Rightarrow> nat \<Rightarrow> nat \<Rightarrow> string \<Rightarrow> (nat \<times> mem) option" where
  "snprintf m off len s =
     (if len = 0 then Some (length s, m)
      else case mem_write off (take (len - 1) s @ [NUL]) m of
             None \<Rightarrow> None
           | Some m' \<Rightarrow> Some (length s, m'))"

text \<open>The C string that starts at an offset.\<close>

definition cstr :: "mem \<Rightarrow> nat \<Rightarrow> string" where
  "cstr m off = takeWhile (\<lambda>c. c \<noteq> NUL) (drop off m)"

section \<open>What a bounded formatter does\<close>

definition stamp :: "mem \<Rightarrow> nat \<Rightarrow> nat \<Rightarrow> string \<Rightarrow> mem" where
  "stamp m off len s =
     (if len = 0 then m
      else let w = take (len - 1) s @ [NUL] in take off m @ w @ drop (off + length w) m)"

definition fmt_count :: "nat \<Rightarrow> string \<Rightarrow> nat \<Rightarrow> bool" where
  "fmt_count len s n \<longleftrightarrow> (if length s \<le> len then n = length s else len < n \<and> n \<le> length s)"

definition formats :: "mem \<Rightarrow> nat \<Rightarrow> nat \<Rightarrow> string \<Rightarrow> (nat \<times> mem) option \<Rightarrow> bool" where
  "formats m off len s r \<longleftrightarrow> (\<exists>n. r = Some (n, stamp m off len s) \<and> fmt_count len s n)"

lemma length_stamp [simp]: "off + len \<le> length m \<Longrightarrow> length (stamp m off len s) = length m"
  by (auto simp: stamp_def Let_def min_def)

lemma mem_write_take: "off + len \<le> length m \<Longrightarrow> 0 < len \<Longrightarrow>
    mem_write off (take (len - 1) s @ [NUL]) m = Some (stamp m off len s)"
  by (simp add: mem_write_def stamp_def)

lemma snprintf_formats: "off + len \<le> length m \<Longrightarrow> formats m off len s (snprintf m off len s)"
proof (cases "len = 0")
  case True
  then show ?thesis by (simp add: formats_def snprintf_def stamp_def fmt_count_def)
next
  case False
  moreover assume "off + len \<le> length m"
  ultimately have "snprintf m off len s = Some (length s, stamp m off len s)"
    by (simp add: snprintf_def mem_write_take [simplified])
  then show ?thesis by (simp add: formats_def fmt_count_def)
qed

lemma stamp_append: "stamp (p @ q) (length p) len b = p @ stamp q 0 len b"
  by (simp add: stamp_def)

lemma stamp_stamp:
  assumes "off + len \<le> length m" "length a \<le> len"
  shows "stamp (stamp m off len a) (off + length a) (len - length a) b = stamp m off len (a @ b)"
proof (cases "length a = len")
  case True
  then show ?thesis by (simp add: stamp_def)
next
  case False
  with assms have l: "length a < len" by simp
  let ?w = "take (len - 1 - length a) b @ [NUL]"
  have s: "stamp m off len a = (take off m @ a) @ NUL # drop (off + length a + 1) m"
    using l by (simp add: stamp_def)
  have k: "length (take off m @ a) = off + length a" using assms by simp
  have "stamp (stamp m off len a) (off + length a) (len - length a) b =
      (take off m @ a) @ stamp (NUL # drop (off + length a + 1) m) 0 (len - length a) b"
    using stamp_append [of "take off m @ a" "NUL # drop (off + length a + 1) m" "len - length a" b]
    by (simp only: s k)
  also have "stamp (NUL # drop (off + length a + 1) m) 0 (len - length a) b =
      ?w @ drop (length ?w) (NUL # drop (off + length a + 1) m)"
    using l by (simp add: stamp_def)
  also have "drop (length ?w) (NUL # drop (off + length a + 1) m) = drop (off + length a + length ?w) m"
    by (simp add: add_ac)
  also have "(take off m @ a) @ ?w @ drop (off + length a + length ?w) m = stamp m off len (a @ b)"
  proof -
    have "take (len - 1) (a @ b) = a @ take (len - 1 - length a) b" using l by simp
    then show ?thesis using l by (simp add: stamp_def add_ac)
  qed
  finally show ?thesis .
qed

text \<open>
  Output in pieces: \<open>m\<close> is an object in which the text \<open>a\<close> was stored in the part at \<open>off\<close>, and
  \<open>length a\<close> characters are counted; storing further text behind it gives the concatenation.
\<close>

definition written :: "mem \<Rightarrow> nat \<Rightarrow> nat \<Rightarrow> string \<Rightarrow> mem \<Rightarrow> bool" where
  "written m0 off len a m \<longleftrightarrow> length a \<le> len \<and> length m = length m0 \<and>
     (\<forall>t. stamp m (off + length a) (len - length a) t = stamp m0 off len (a @ t))"

lemma written_start: "written m off len [] m"
  by (simp add: written_def)

lemma written_last:
  assumes "written m0 off len a m" "formats m (off + length a) (szsub len (length a)) b (Some (n, m'))"
  shows "formats m0 off len (a @ b) (Some (length a + n, m'))"
  using assms by (auto simp: written_def formats_def szsub_def fmt_count_def split: if_splits)

lemma written_stop:
  assumes "written m0 off len a m" "formats m (off + length a) (szsub len (length a)) b (Some (n, m'))"
    and "len < length a + n"
  shows "formats m0 off len (a @ b @ c) (Some (length a + n, m'))"
proof -
  from assms have l: "length a \<le> len" and m': "m' = stamp m (off + length a) (len - length a) b"
    and n: "len - length a < length b" "n \<le> length b"
    by (auto simp: written_def formats_def szsub_def fmt_count_def split: if_splits)
  have "stamp m (off + length a) (len - length a) b = stamp m (off + length a) (len - length a) (b @ c)"
    using n by (simp add: stamp_def)
  with assms(1) m' l n assms(3) show ?thesis by (auto simp: written_def formats_def fmt_count_def)
qed

lemma written_step:
  assumes "written m0 off len a m" "formats m (off + length a) (szsub len (length a)) b (Some (n, m'))"
    and "off + len \<le> length m0" "length a + n \<le> len"
  shows "n = length b" "written m0 off len (a @ b) m'"
proof -
  from assms have l: "length a \<le> len" and m': "m' = stamp m (off + length a) (len - length a) b"
    and n: "n = length b" "length m = length m0"
    by (auto simp: written_def formats_def szsub_def fmt_count_def split: if_splits)
  show "n = length b" by (fact n)
  have "stamp m' (off + length (a @ b)) (len - length (a @ b)) t = stamp m0 off len ((a @ b) @ t)" for t
  proof -
    have "stamp m' (off + length (a @ b)) (len - length (a @ b)) t =
        stamp m (off + length a) (len - length a) (b @ t)"
      using stamp_stamp [of "off + length a" "len - length a" m b t] l m' n assms(3,4)
      by (simp add: add.assoc)
    also have "\<dots> = stamp m0 off len (a @ b @ t)" using assms(1) by (simp add: written_def)
    finally show ?thesis by simp
  qed
  then show "written m0 off len (a @ b) m'"
    using l n m' assms(3,4) by (simp add: written_def)
qed

text \<open>
  One guarded piece, \<open>used += f(buf+used, len-used); if (used > len) return used;\<close>, followed by
  the rest of the function.
\<close>

definition guarded :: "nat \<Rightarrow> nat \<Rightarrow> (nat \<times> mem) option \<Rightarrow> (nat \<Rightarrow> mem \<Rightarrow> (nat \<times> mem) option)
    \<Rightarrow> (nat \<times> mem) option" where
  "guarded len used r k =
     (case r of None \<Rightarrow> None
      | Some (n, m) \<Rightarrow> if used + n > len then Some (used + n, m) else k (used + n) m)"

lemma guarded_formats:
  assumes "written m0 off len a m" "off + len \<le> length m0"
    and "formats m (off + length a) (szsub len (length a)) b r"
    and "\<And>m'. written m0 off len (a @ b) m' \<Longrightarrow> m' = stamp m0 off len (a @ b) \<Longrightarrow>
      formats m0 off len (a @ b @ c) (k (length a + length b) m')"
  shows "formats m0 off len (a @ b @ c) (guarded len (length a) r k)"
proof -
  obtain n m' where r: "r = Some (n, m')" using assms(3) by (auto simp: formats_def)
  show ?thesis
  proof (cases "len < length a + n")
    case True
    from written_stop [OF assms(1) assms(3) [unfolded r] True, of c] True show ?thesis
      by (simp only: r guarded_def option.case prod.case if_True)
  next
    case False
    then have le: "length a + n \<le> len" by simp
    note w = written_step [OF assms(1) assms(3) [unfolded r] assms(2) le]
    from assms(1,3) r have "m' = stamp m0 off len (a @ b)"
      by (simp add: formats_def written_def szsub_def)
    from False assms(4) [OF w(2) this] w(1) show ?thesis
      by (simp only: r guarded_def option.case prod.case if_False)
  qed
qed

text \<open>The last piece, whose count is not checked any more.\<close>

definition finished :: "nat \<Rightarrow> (nat \<times> mem) option \<Rightarrow> (nat \<times> mem) option" where
  "finished used r = (case r of None \<Rightarrow> None | Some (n, m) \<Rightarrow> Some (used + n, m))"

lemma finished_formats:
  assumes "written m0 off len a m" "formats m (off + length a) (szsub len (length a)) b r"
  shows "formats m0 off len (a @ b) (finished (length a) r)"
proof -
  obtain n m' where r: "r = Some (n, m')" using assms(2) by (auto simp: formats_def)
  from written_last [OF assms(1) assms(2) [unfolded r]] show ?thesis by (simp add: r finished_def)
qed

lemma written_room: "written m0 off len a m \<Longrightarrow> off + len \<le> length m0 \<Longrightarrow>
    off + length a + szsub len (length a) \<le> length m"
  by (simp add: written_def szsub_def)

text \<open>A function made of such pieces writes the concatenation of their texts.\<close>

type_synonym piece = "mem \<Rightarrow> nat \<Rightarrow> nat \<Rightarrow> (nat \<times> mem) option"

definition piece_ok :: "piece \<Rightarrow> string \<Rightarrow> bool" where
  "piece_ok p t \<longleftrightarrow> (\<forall>m off len. off + len \<le> length m \<longrightarrow> formats m off len t (p m off len))"

fun pieces :: "nat \<Rightarrow> nat \<Rightarrow> piece list \<Rightarrow> nat \<Rightarrow> mem \<Rightarrow> (nat \<times> mem) option" where
  "pieces off len [] used m = Some (used, m)"
| "pieces off len [p] used m = finished used (p m (off + used) (szsub len used))"
| "pieces off len (p # ps) used m =
     guarded len used (p m (off + used) (szsub len used)) (pieces off len ps)"

lemma pieces_body:
  "pieces off len [p] = (\<lambda>used m. finished used (p m (off + used) (szsub len used)))"
  "pieces off len (p # q # ps) =
     (\<lambda>used m. guarded len used (p m (off + used) (szsub len used)) (pieces off len (q # ps)))"
  by (simp_all add: fun_eq_iff)

lemma piece_ok_snprintf [simp]: "piece_ok (\<lambda>m off len. snprintf m off len s) s"
  by (simp add: piece_ok_def snprintf_formats)

lemma pieces_formats:
  assumes "list_all2 piece_ok ps ts" "ps \<noteq> []" "off + len \<le> length m0" "written m0 off len a m"
  shows "formats m0 off len (a @ concat ts) (pieces off len ps (length a) m)"
  using assms
proof (induction off len ps "length a" m arbitrary: a ts rule: pieces.induct)
  case (2 off len p m)
  then obtain t where t: "ts = [t]" "piece_ok p t" by (auto simp: list_all2_Cons1)
  then show ?case
    using finished_formats [OF 2(4)] written_room [OF 2(4,3)] by (simp add: piece_ok_def)
next
  case (3 off len p q ps m)
  then obtain t ts' where t: "ts = t # ts'" "piece_ok p t" "list_all2 piece_ok (q # ps) ts'"
    by (auto simp: list_all2_Cons1)
  have "formats m0 off len (a @ t @ concat ts')
      (guarded len (length a) (p m (off + length a) (szsub len (length a))) (pieces off len (q # ps)))"
  proof (rule guarded_formats [OF 3(5,4)])
    show "formats m (off + length a) (szsub len (length a)) t (p m (off + length a) (szsub len (length a)))"
      using t(2) written_room [OF 3(5,4)] by (simp add: piece_ok_def)
    fix m' assume "written m0 off len (a @ t) m'"
    then show "formats m0 off len (a @ t @ concat ts') (pieces off len (q # ps) (length a + length t) m')"
      using 3(1) [where a = "a @ t" and ts = ts'] t(3) 3(4) by simp
  qed
  then show ?case by (simp add: t)
qed auto

section \<open>Writes inside a part\<close>

definition within :: "mem \<Rightarrow> nat \<Rightarrow> nat \<Rightarrow> mem \<Rightarrow> bool" where
  "within m off len m' \<longleftrightarrow>
     length m' = length m \<and> take off m' = take off m \<and> drop (off + len) m' = drop (off + len) m"

lemma within_refl [simp]: "within m off len m"
  by (simp add: within_def)

lemma within_trans: "within m off len m1 \<Longrightarrow> within m1 off len m2 \<Longrightarrow> within m off len m2"
  by (simp add: within_def)

lemma within_length: "within m off len m' \<Longrightarrow> length m' = length m"
  by (simp add: within_def)

lemma within_part: "within m (off + k) (len - k) m' \<Longrightarrow> k \<le> len \<Longrightarrow> within m off len m'"
proof -
  assume a: "within m (off + k) (len - k) m'" "k \<le> len"
  then have "take off (take (off + k) m') = take off (take (off + k) m)" by (simp add: within_def)
  then have "take off m' = take off m" by (simp add: min_def)
  with a show ?thesis by (simp add: within_def)
qed

lemma drop_insert: "length w \<le> len \<Longrightarrow> off \<le> length m \<Longrightarrow>
    drop (off + len) (take off m @ w @ drop (off + length w) m) = drop (off + len) m"
  by (simp add: add.commute)

lemma stamp_within: "off + len \<le> length m \<Longrightarrow> within m off len (stamp m off len s)"
proof (cases "len = 0")
  case True
  then show ?thesis by (simp add: stamp_def)
next
  case False
  assume a: "off + len \<le> length m"
  let ?w = "take (len - 1) s @ [NUL]"
  have w: "length ?w \<le> len" using False by (simp add: min_def) arith
  have s: "stamp m off len s = take off m @ ?w @ drop (off + length ?w) m"
    using False by (simp only: stamp_def Let_def if_False)
  have "drop (off + len) (stamp m off len s) = drop (off + len) m"
    unfolding s by (rule drop_insert [OF w]) (use a in simp)
  then show ?thesis using a by (simp add: within_def) (simp add: s)
qed

lemma snprintf_within: "off + len \<le> length m \<Longrightarrow> \<exists>m'. snprintf m off len s = Some (length s, m') \<and> within m off len m'"
proof -
  assume a: "off + len \<le> length m"
  have "snprintf m off len s = Some (length s, stamp m off len s)"
    using mem_write_take [OF a, of s] by (simp add: snprintf_def stamp_def)
  then show ?thesis using stamp_within [OF a] by blast
qed

section \<open>The contract\<close>

locale bounded_formatter =
  fixes fmt :: "mem \<Rightarrow> nat \<Rightarrow> nat \<Rightarrow> 'a \<Rightarrow> (nat \<times> mem) option"
    and text_of :: "'a \<Rightarrow> string"
    and ok :: "'a \<Rightarrow> bool"
  assumes fmt_formats: "ok x \<Longrightarrow> off + len \<le> length m \<Longrightarrow> formats m off len (text_of x) (fmt m off len x)"
begin

text \<open>No write leaves the part of the object the caller handed over.\<close>

lemma in_bounds: "ok x \<Longrightarrow> off + len \<le> length m \<Longrightarrow>
    \<exists>n m'. fmt m off len x = Some (n, m') \<and> length m' = length m \<and>
      take off m' = take off m \<and> drop (off + len) m' = drop (off + len) m"
proof -
  assume a: "ok x" "off + len \<le> length m"
  then obtain n where n: "fmt m off len x = Some (n, stamp m off len (text_of x))"
    using fmt_formats [of x off len m] by (auto simp: formats_def)
  with stamp_within [OF a(2), of "text_of x"] show ?thesis by (simp add: within_def)
qed

text \<open>The caller can tell a cut text from a whole one, and reads the longest prefix that fits.\<close>

lemma result: "ok x \<Longrightarrow> off + len \<le> length m \<Longrightarrow> 0 < len \<Longrightarrow> NUL \<notin> set (text_of x) \<Longrightarrow>
    fmt m off len x = Some (n, m') \<Longrightarrow>
    cstr m' off = take (len - 1) (text_of x) \<and> (n < len \<longleftrightarrow> length (text_of x) < len)"
proof -
  assume a: "ok x" "off + len \<le> length m" "0 < len" "NUL \<notin> set (text_of x)" "fmt m off len x = Some (n, m')"
  then have m': "m' = stamp m off len (text_of x)" and n: "fmt_count len (text_of x) n"
    using fmt_formats [of x off len m] by (auto simp: formats_def)
  have "drop off m' = take (len - 1) (text_of x) @ NUL # drop (off + length (take (len - 1) (text_of x)) + 1) m"
    using a by (simp add: m' stamp_def Let_def)
  moreover have "\<forall>c \<in> set (take (len - 1) (text_of x)). c \<noteq> NUL"
    using a(4) by (metis in_set_takeD)
  ultimately have "cstr m' off = take (len - 1) (text_of x)"
    by (simp add: cstr_def)
  then show ?thesis using n by (auto simp: fmt_count_def split: if_splits)
qed

end

end
