(* ===== verification/Exprfmt.thy ===== *)
theory Exprfmt
  imports Parseexpr Cbuf
begin

text \<open>
  The printer of filter expressions (\<open>value_fmt\<close>, \<open>valtest_fmt\<close>, \<open>expr_fmt\<close> of
  \<open>src/commondb/parseexpr.c\<close>), which the daemon uses to report the current filter and to save it at
  exit. Each function writes into the rest of the caller's array; the reference texts \<open>value_text\<close>,
  \<open>valtest_text\<close> and \<open>expr_text\<close> say what is written, and the three functions are proved to keep the
  contract \<open>bounded_formatter\<close> for them.
\<close>

section \<open>The functions of the source\<close>

fun value_fmt :: "mem \<Rightarrow> nat \<Rightarrow> nat \<Rightarrow> cvalue \<Rightarrow> (nat \<times> mem) option"
  and vallist_fmt :: "mem \<Rightarrow> nat \<Rightarrow> nat \<Rightarrow> nat \<Rightarrow> bool \<Rightarrow> cvalue list \<Rightarrow> (nat \<times> mem) option" where
  "value_fmt m off len (V_num n) = finished 0 (snprintf m off (szsub len 0) (fmt_d n))"
| "value_fmt m off len (V_string s) =
     finished 0 (snprintf m off (szsub len 0) (DQUOTE # s @ [DQUOTE]))"
| "value_fmt m off len (V_list l) = vallist_fmt m off len 0 True l"
| "vallist_fmt m off len used isfirst [] = Some (used, m)"
| "vallist_fmt m off len used isfirst (v # vs) =
     (if isfirst then
        guarded len used (value_fmt m (off + used) (szsub len used) v)
          (\<lambda>used m. vallist_fmt m off len used False vs)
      else
        guarded len used (snprintf m (off + used) (szsub len used) '', '') (\<lambda>used m.
        guarded len used (value_fmt m (off + used) (szsub len used) v) (\<lambda>used m.
        vallist_fmt m off len used False vs)))"

definition valtest_fmt :: "mem \<Rightarrow> nat \<Rightarrow> nat \<Rightarrow> valtest \<Rightarrow> (nat \<times> mem) option" where
  "valtest_fmt m off len vt =
     guarded len 0 (snprintf m off (szsub len 0)
       (valfield_name (vfield vt) @ '' '' @ valop_name (vop vt) @ '' '')) (\<lambda>used m.
     finished used (value_fmt m (off + used) (szsub len used) (vval vt)))"

fun expr_fmt :: "mem \<Rightarrow> nat \<Rightarrow> nat \<Rightarrow> expr \<Rightarrow> (nat \<times> mem) option" where
  "expr_fmt m off len (Op_self vt) = finished 0 (valtest_fmt m off (szsub len 0) vt)"
| "expr_fmt m off len (Op_not e) =
     guarded len 0 (snprintf m off (szsub len 0) ''!( '') (\<lambda>used m.
     guarded len used (expr_fmt m (off + used) (szsub len used) e) (\<lambda>used m.
     finished used (snprintf m (off + used) (szsub len used) '' )'')))"
| "expr_fmt m off len (Op_and a b) =
     guarded len 0 (snprintf m off (szsub len 0) ''( '') (\<lambda>used m.
     guarded len used (expr_fmt m (off + used) (szsub len used) a) (\<lambda>used m.
     guarded len used (snprintf m (off + used) (szsub len used) '' )&( '') (\<lambda>used m.
     guarded len used (expr_fmt m (off + used) (szsub len used) b) (\<lambda>used m.
     finished used (snprintf m (off + used) (szsub len used) '' )'')))))"
| "expr_fmt m off len (Op_or a b) =
     guarded len 0 (snprintf m off (szsub len 0) ''( '') (\<lambda>used m.
     guarded len used (expr_fmt m (off + used) (szsub len used) a) (\<lambda>used m.
     guarded len used (snprintf m (off + used) (szsub len used) '' )|( '') (\<lambda>used m.
     guarded len used (expr_fmt m (off + used) (szsub len used) b) (\<lambda>used m.
     finished used (snprintf m (off + used) (szsub len used) '' )'')))))"

section \<open>The texts\<close>

fun value_text :: "cvalue \<Rightarrow> string" and vallist_text :: "bool \<Rightarrow> cvalue list \<Rightarrow> string" where
  "value_text (V_num n) = fmt_d n"
| "value_text (V_string s) = DQUOTE # s @ [DQUOTE]"
| "value_text (V_list l) = vallist_text True l"
| "vallist_text isfirst [] = []"
| "vallist_text isfirst (v # vs) =
     (if isfirst then value_text v @ vallist_text False vs
      else '', '' @ value_text v @ vallist_text False vs)"

definition valtest_text :: "valtest \<Rightarrow> string" where
  "valtest_text vt = valfield_name (vfield vt) @ '' '' @ valop_name (vop vt) @ '' '' @ value_text (vval vt)"

fun expr_text :: "expr \<Rightarrow> string" where
  "expr_text (Op_self vt) = valtest_text vt"
| "expr_text (Op_not e) = ''!( '' @ expr_text e @ '' )''"
| "expr_text (Op_and a b) = ''( '' @ expr_text a @ '' )&( '' @ expr_text b @ '' )''"
| "expr_text (Op_or a b) = ''( '' @ expr_text a @ '' )|( '' @ expr_text b @ '' )''"

text \<open>No list of values is empty: the parser builds no other, and an empty list prints nothing.\<close>

fun full_value :: "cvalue \<Rightarrow> bool" where
  "full_value (V_num n) = True"
| "full_value (V_string s) = True"
| "full_value (V_list l) = (l \<noteq> [] \<and> (\<forall>v \<in> set l. full_value v))"

fun full_expr :: "expr \<Rightarrow> bool" where
  "full_expr (Op_self vt) = full_value (vval vt)"
| "full_expr (Op_not e) = full_expr e"
| "full_expr (Op_and a b) = (full_expr a \<and> full_expr b)"
| "full_expr (Op_or a b) = (full_expr a \<and> full_expr b)"

section \<open>The printers keep the contract\<close>

text \<open>The bodies as chains of pieces.\<close>

lemma value_fmt_pieces: "value_fmt m off len v = (case v of
     V_num n \<Rightarrow> pieces off len [\<lambda>m off len. snprintf m off len (fmt_d n)] 0 m
   | V_string s \<Rightarrow> pieces off len [\<lambda>m off len. snprintf m off len (DQUOTE # s @ [DQUOTE])] 0 m
   | V_list l \<Rightarrow> vallist_fmt m off len 0 True l)"
  by (simp split: cvalue.split)

lemma valtest_fmt_pieces: "valtest_fmt m off len vt =
    pieces off len [\<lambda>m off len. snprintf m off len (valfield_name (vfield vt) @ '' '' @ valop_name (vop vt) @ '' ''),
      \<lambda>m off len. value_fmt m off len (vval vt)] 0 m"
  by (simp add: valtest_fmt_def pieces_body)

abbreviation (input) print_s :: "string \<Rightarrow> piece" where
  "print_s s \<equiv> \<lambda>m off len. snprintf m off len s"

abbreviation (input) print_e :: "expr \<Rightarrow> piece" where
  "print_e e \<equiv> \<lambda>m off len. expr_fmt m off len e"

lemma expr_fmt_pieces: "expr_fmt m off len e = pieces off len (case e of
     Op_self vt \<Rightarrow> [\<lambda>m off len. valtest_fmt m off len vt]
   | Op_not e \<Rightarrow> [print_s ''!( '', print_e e, print_s '' )'']
   | Op_and a b \<Rightarrow> [print_s ''( '', print_e a, print_s '' )&( '', print_e b, print_s '' )'']
   | Op_or a b \<Rightarrow> [print_s ''( '', print_e a, print_s '' )|( '', print_e b, print_s '' )'']) 0 m"
  by (simp add: pieces_body split: expr.split)

lemma piece_okI: "list_all2 piece_ok ps ts \<Longrightarrow> ps \<noteq> [] \<Longrightarrow> t = concat ts \<Longrightarrow>
    piece_ok (\<lambda>m off len. pieces off len ps 0 m) t"
  using pieces_formats [OF _ _ _ written_start] by (simp add: piece_ok_def)

lemma vallist_fmt_rest:
  assumes "\<forall>v \<in> set vs. piece_ok (\<lambda>m off len. value_fmt m off len v) (value_text v)" "off + len \<le> length m0"
    and "written m0 off len a m" "m = stamp m0 off len a" "length a = used"
  shows "formats m0 off len (a @ vallist_text False vs) (vallist_fmt m off len used False vs)"
  using assms(1,3,4,5)
proof (induction vs arbitrary: a m used)
  case Nil
  then show ?case by (auto simp: formats_def fmt_count_def written_def)
next
  case (Cons v vs)
  have v: "piece_ok (\<lambda>m off len. value_fmt m off len v) (value_text v)"
    and vs: "\<forall>v \<in> set vs. piece_ok (\<lambda>m off len. value_fmt m off len v) (value_text v)"
    using Cons.prems by auto
  let ?b = "a @ '', ''"
  have "formats m0 off len (?b @ value_text v @ vallist_text False vs)
      (guarded len (length ?b) (value_fmt m1 (off + length ?b) (szsub len (length ?b)) v)
        (\<lambda>used m. vallist_fmt m off len used False vs))" if w: "written m0 off len ?b m1" for m1
  proof (rule guarded_formats [OF w assms(2)])
    show "formats m1 (off + length ?b) (szsub len (length ?b)) (value_text v)
        (value_fmt m1 (off + length ?b) (szsub len (length ?b)) v)"
      using v written_room [OF w assms(2)] by (simp add: piece_ok_def)
  qed (use Cons.IH [OF vs] in force)
  then have "formats m0 off len (a @ '', '' @ value_text v @ vallist_text False vs)
      (guarded len (length a) (snprintf m (off + length a) (szsub len (length a)) '', '') (\<lambda>used m.
        guarded len used (value_fmt m (off + used) (szsub len used) v) (\<lambda>used m.
        vallist_fmt m off len used False vs)))"
    using snprintf_formats [OF written_room [OF Cons.prems(2) assms(2)]]
    by (intro guarded_formats [OF Cons.prems(2) assms(2)]) simp_all
  then show ?case using Cons.prems(4) by simp
qed

lemma value_fmt_ok: "full_value v \<Longrightarrow> piece_ok (\<lambda>m off len. value_fmt m off len v) (value_text v)"
proof (induction v)
  case (V_num n)
  show ?case unfolding value_fmt_pieces cvalue.case value_text.simps
    by (rule piece_okI [where ts = "[_]"]) auto
next
  case (V_string s)
  show ?case unfolding value_fmt_pieces cvalue.case value_text.simps
    by (rule piece_okI [where ts = "[_]"]) auto
next
  case (V_list l)
  then obtain v vs where l: "l = v # vs" by (cases l) auto
  with V_list have v: "piece_ok (\<lambda>m off len. value_fmt m off len v) (value_text v)"
    and vs: "\<forall>v \<in> set vs. piece_ok (\<lambda>m off len. value_fmt m off len v) (value_text v)" by auto
  show ?case unfolding piece_ok_def
  proof (intro allI impI)
    fix m :: mem and off len assume r: "off + len \<le> length m"
    let ?e = "[] :: string"
    have "formats m off len (?e @ value_text v @ vallist_text False vs)
        (guarded len (length ?e) (value_fmt m (off + length ?e) (szsub len (length ?e)) v)
          (\<lambda>used m. vallist_fmt m off len used False vs))"
    proof (rule guarded_formats [OF written_start r])
      show "formats m (off + length ?e) (szsub len (length ?e)) (value_text v)
          (value_fmt m (off + length ?e) (szsub len (length ?e)) v)"
        using v r by (simp add: piece_ok_def szsub_def)
    qed (use vallist_fmt_rest [OF vs r] in force)
    then show "formats m off len (value_text (V_list l)) (value_fmt m off len (V_list l))"
      by (simp add: l)
  qed
qed

lemma valtest_fmt_ok: "full_value (vval vt) \<Longrightarrow> piece_ok (\<lambda>m off len. valtest_fmt m off len vt) (valtest_text vt)"
  unfolding valtest_fmt_pieces valtest_text_def 
  by (rule piece_okI [where ts = "[valfield_name (vfield vt) @ '' '' @ valop_name (vop vt) @ '' '', value_text (vval vt)]"])
     (auto simp: value_fmt_ok)

lemma expr_fmt_ok: "full_expr e \<Longrightarrow> piece_ok (\<lambda>m off len. expr_fmt m off len e) (expr_text e)"
proof (induction e)
  case (Op_self vt)
  then have "list_all2 piece_ok [\<lambda>m off len. valtest_fmt m off len vt] [valtest_text vt]"
    by (simp add: valtest_fmt_ok)
  then show ?case by (subst expr_fmt_pieces) (simp only: expr.case, erule piece_okI, auto)
next
  case (Op_not e)
  then have "list_all2 piece_ok [print_s ''!( '', print_e e, print_s '' )''] [''!( '', expr_text e, '' )'']"
    by simp
  then show ?case by (subst expr_fmt_pieces) (simp only: expr.case, erule piece_okI, auto)
next
  case (Op_and a b)
  then have "list_all2 piece_ok [print_s ''( '', print_e a, print_s '' )&( '', print_e b, print_s '' )'']
      [''( '', expr_text a, '' )&( '', expr_text b, '' )'']"
    by simp
  then show ?case by (subst expr_fmt_pieces) (simp only: expr.case, erule piece_okI, auto)
next
  case (Op_or a b)
  then have "list_all2 piece_ok [print_s ''( '', print_e a, print_s '' )|( '', print_e b, print_s '' )'']
      [''( '', expr_text a, '' )|( '', expr_text b, '' )'']"
    by simp
  then show ?case by (subst expr_fmt_pieces) (simp only: expr.case, erule piece_okI, auto)
qed

interpretation vf: bounded_formatter value_fmt value_text full_value
  using value_fmt_ok by unfold_locales (simp add: piece_ok_def)

interpretation tf: bounded_formatter valtest_fmt valtest_text "\<lambda>vt. full_value (vval vt)"
  using valtest_fmt_ok by unfold_locales (simp add: piece_ok_def)

interpretation ef: bounded_formatter expr_fmt expr_text full_expr
  using expr_fmt_ok by unfold_locales (simp add: piece_ok_def)

section \<open>Property\<close>

text \<open>
  C10: \<open>expr_fmt\<close> never writes outside the \<open>len\<close> bytes it is given, whatever the expression; it
  leaves the longest prefix of the expression's text that fits, terminated, and its result is
  smaller than \<open>len\<close> exactly when the whole text fitted. No \<open>len-used\<close> on the way wraps around.
\<close>

theorem expr_fmt_bounded:
  assumes "full_expr e" "off + len \<le> length m" "0 < len" "NUL \<notin> set (expr_text e)"
  shows "\<exists>n m'. expr_fmt m off len e = Some (n, m') \<and> length m' = length m \<and>
    take off m' = take off m \<and> drop (off + len) m' = drop (off + len) m \<and>
    cstr m' off = take (len - 1) (expr_text e) \<and> (n < len \<longleftrightarrow> length (expr_text e) < len)"
  using ef.in_bounds [OF assms(1,2)] ef.result [OF assms] by blast

theorem expr_fmt_bounded_witness:
  "let e = Op_not (Op_self \<lparr>vfield = vf_tag, vop = vo_in, vval = V_list [V_num 4, V_num 17]\<rparr>)
   in (\<exists>n m'. expr_fmt (replicate 20 (CHR ''x'')) 3 12 e = Some (n, m') \<and> length m' = 20 \<and>
         take 3 m' = ''xxx'' \<and> drop 15 m' = ''xxxxx'' \<and> cstr m' 3 = ''!( tag IN 4'' \<and> \<not> n < 12)"
proof -
  let ?e = "Op_not (Op_self \<lparr>vfield = vf_tag, vop = vo_in, vval = V_list [V_num 4, V_num 17]\<rparr>)"
  have t: "expr_text ?e = ''!( tag IN 4, 17 )''" by code_simp
  have h: "full_expr ?e" "3 + 12 \<le> length (replicate 20 (CHR ''x''))" "0 < (12::nat)"
    "NUL \<notin> set (expr_text ?e)"
    by (simp_all only: t) simp_all
  show ?thesis using expr_fmt_bounded [OF h, unfolded t] by (simp add: numeral_eq_Suc del: expr_fmt.simps)
qed

end
