(* ===== verification/Parseexpr_Safe.thy ===== *)
theory Parseexpr_Safe
  imports Parseexpr
begin

text \<open>
  What the filter parser guarantees on every input: it returns (\<open>expr_parse_total\<close>), what it accepts
  is well typed (\<open>expr_parse_typed\<close>), its error report is consistent, and exactly when
  \<open>_parse_alloc\<close> writes behind its block (\<open>parse_alloc_oob\<close>).
\<close>

section \<open>Progress of the readers\<close>

lemma parse_alloc_left: "left (ps_undo i) \<le> left i \<Longrightarrow> parse_alloc f i = (s, i') \<Longrightarrow> left i' \<le> left i"
  using parse_alloc_loop_left [of i f 5 5 0 "[]"] by (simp add: parse_alloc_def)

lemma left_undo_undo [simp]: "left (ps_undo (ps_undo i)) = left (ps_undo i)"
  by (simp add: ps_undo_def pi_str_undo_def left_def)

lemma parse_name_left: "parse_name i = (s, i') \<Longrightarrow> left i' \<le> left i"
proof -
  assume s: "parse_name i = (s, i')"
  obtain c i1 where c: "parse_nonspace i = (c, i1)" by (cases "parse_nonspace i")
  have "left i' \<le> left (ps_undo i1)"
    using s c parse_alloc_left [of "ps_undo i1" Filter_name s i'] by (simp add: parse_name_def)
  with parse_nonspace_left [OF c] show ?thesis by simp
qed

lemma parse_valop_left: "parse_valop i = (p, i') \<Longrightarrow> left i' \<le> left i"
proof -
  assume p: "parse_valop i = (p, i')"
  obtain c i1 where c: "parse_nonspace i = (c, i1)" by (cases "parse_nonspace i")
  obtain n i2 where n: "ps_next (ps_done i1) = (n, i2)" by (cases "ps_next (ps_done i1)")
  obtain m i3 where m: "ps_next i1 = (m, i3)" by (cases "ps_next i1")
  from p c n m parse_nonspace_left [OF c] ps_next_left_le [OF n] ps_next_left_le [OF m]
    left_undo_next [OF n]
  show ?thesis by (auto simp: parse_valop_def split: if_splits)
qed

lemma parse_vallist_loop_left: "parse_vallist_loop acc i = (r, i') \<Longrightarrow> left i' \<le> left i"
proof (induction acc i arbitrary: r i' rule: parse_vallist_loop.induct)
  case (1 acc i)
  obtain v i1 where v: "parse_value i = (v, i1)" by (cases "parse_value i")
  note le = parse_value_left [OF v]
  show ?case
  proof (cases v)
    case None
    with 1(2) v le show ?thesis by (auto simp: parse_vallist_loop.simps [of acc i])
  next
    case (Some w)
    obtain c i2 where c: "parse_nonspace i1 = (c, i2)" by (cases "parse_nonspace i1")
    have "left i' \<le> left i2 \<or> i' = ps_undo i2"
      using 1(1) [OF v [symmetric] Some c [symmetric]] 1(2) v Some c
      by (auto simp: parse_vallist_loop.simps [of acc i] split: if_splits)
    with parse_nonspace_left [OF c] le show ?thesis by auto
  qed
qed

lemma parse_valtest_left: "parse_valtest i = (r, i') \<Longrightarrow> left i' \<le> left i"
proof -
  assume r: "parse_valtest i = (r, i')"
  obtain name i1 where n: "parse_name i = (name, i1)" by (cases "parse_name i")
  obtain oper i2 where p: "parse_valop i1 = (oper, i2)" by (cases "parse_valop i1")
  obtain v i3 where v: "(if oper = vo_in then parse_vallist i2 else parse_value i2) = (v, i3)"
    by fastforce
  have "left i3 \<le> left i2"
    using v parse_value_left [of i2 v i3] parse_vallist_loop_left [of "[]" i2 v i3]
    by (simp add: parse_vallist_def split: if_splits)
  moreover have "left i' \<in> {left i1, left i2, left i3}"
    using r n p v by (auto simp: parse_valtest_def Let_def split: if_splits option.splits)
  ultimately show ?thesis using parse_name_left [OF n] parse_valop_left [OF p] by auto
qed

lemma parse_expr_val_left: "parse_expr_val i = (r, i') \<Longrightarrow> left i' \<le> left i"
  by (cases "parse_valtest i")
     (auto simp: parse_expr_val_def split: option.splits dest: parse_valtest_left)

lemma parse_operator_left: "parse_operator i = (r, i') \<Longrightarrow> left i' \<le> left i"
proof -
  assume r: "parse_operator i = (r, i')"
  obtain c i1 where c: "parse_nonspace i = (c, i1)" by (cases "parse_nonspace i")
  from r c parse_nonspace_left [OF c] show ?thesis
    by (auto simp: parse_operator_def split: if_splits)
qed

text \<open>A budget above the length of what is left is never used up.\<close>

definition returns :: "parse_stat \<Rightarrow> (expr option \<times> parse_stat) option \<Rightarrow> bool" where
  "returns i r \<longleftrightarrow> (\<exists>e i'. r = Some (e, i') \<and> left i' \<le> left i)"

lemma returnsI: "r = Some (e, i') \<Longrightarrow> left i' \<le> left i \<Longrightarrow> returns i r"
  by (auto simp: returns_def)

lemma returnsE: "returns i r \<Longrightarrow> (\<And>e i'. r = Some (e, i') \<Longrightarrow> left i' \<le> left i \<Longrightarrow> P) \<Longrightarrow> P"
  by (auto simp: returns_def)

lemma parse_one_expr_returns_step:
  assumes "\<And>i. left i < n \<Longrightarrow> returns i (parse_expr n i)"
    and "\<And>i. left i < n \<Longrightarrow> returns i (parse_expr_not n i)"
    and "left i < Suc n"
  shows "returns i (parse_one_expr (Suc n) i)"
proof -
  obtain c i1 where c: "parse_nonspace i = (c, i1)" by (cases "parse_nonspace i")
  note nl = parse_nonspace_left [OF c]
  consider (brace) "c = schar (CHR ''('')" | (close) "c = schar (CHR '')'')"
    | (neg) "c = schar (CHR ''!'')"
    | (val) "c \<noteq> schar (CHR ''('')" "c \<noteq> schar (CHR '')'')" "c \<noteq> schar (CHR ''!'')" by blast
  then show ?thesis
  proof cases
    case brace
    then have "c \<noteq> EOF" by (simp add: schar_def)
    with nl have less: "left i1 < left i" by simp
    with assms(3) have "left (ps_done i1) < n" by simp
    then obtain e i2 where e: "parse_expr n (ps_done i1) = Some (e, i2)" "left i2 \<le> left i1"
      using assms(1) by (fastforce elim: returnsE)
    obtain c2 i3 where c2: "parse_nonspace i2 = (c2, i3)" by (cases "parse_nonspace i2")
    from brace c e c2 parse_nonspace_left [OF c2] less show ?thesis
      by (cases e) (auto simp: parse_one_expr.simps(2) intro!: returnsI)
  next
    case close
    with c nl show ?thesis by (auto simp: parse_one_expr.simps(2) schar_def intro!: returnsI)
  next
    case neg
    then have "c \<noteq> EOF" by (simp add: schar_def)
    with nl have less: "left i1 < left i" by simp
    with assms(3) have "left (ps_done i1) < n" by simp
    then obtain e i2 where e: "parse_expr_not n (ps_done i1) = Some (e, i2)" "left i2 \<le> left i1"
      using assms(2) by (fastforce elim: returnsE)
    with neg c less show ?thesis
      by (auto simp: parse_one_expr.simps(2) schar_def intro!: returnsI)
  next
    case val
    obtain r i2 where r: "parse_expr_val (ps_undo i1) = (r, i2)" by (cases "parse_expr_val (ps_undo i1)")
    with val c nl parse_expr_val_left [OF r] show ?thesis
      by (auto simp: parse_one_expr.simps(2) intro!: returnsI)
  qed
qed

lemma parse_expr_not_returns_step:
  assumes "returns i (parse_one_expr n i)"
  shows "returns i (parse_expr_not n i)"
proof -
  from assms obtain e i1 where e: "parse_one_expr n i = Some (e, i1)" "left i1 \<le> left i"
    by (rule returnsE)
  then show ?thesis by (cases e) (auto simp: parse_expr_not.simps intro!: returnsI)
qed

lemma parse_expr_returns_step:
  assumes "\<And>i. left i < n \<Longrightarrow> returns i (parse_one_expr n i)" and "left i < n"
  shows "returns i (parse_expr n i)"
proof -
  from assms obtain a i1 where a: "parse_one_expr n i = Some (a, i1)" "left i1 \<le> left i"
    by (blast elim: returnsE)
  obtain c i2 where c: "parse_nonspace i1 = (c, i2)" by (cases "parse_nonspace i1")
  obtain oper i3 where p: "parse_operator (ps_undo i2) = (oper, i3)" by (cases "parse_operator (ps_undo i2)")
  have i3: "left i3 \<le> left i1"
    using parse_operator_left [OF p] parse_nonspace_left [OF c] by simp
  with a assms have "returns i3 (parse_one_expr n i3)" by simp
  then obtain b i4 where b: "parse_one_expr n i3 = Some (b, i4)" "left i4 \<le> left i3"
    by (rule returnsE)
  show ?thesis
    using a c p b i3 parse_nonspace_left [OF c]
    by (cases a; cases b) (auto simp: parse_expr.simps intro!: returnsI)
qed

lemma parse_expr_returns: "left i < n \<Longrightarrow> returns i (parse_expr n i)"
proof -
  have "\<forall>i. left i < n \<longrightarrow> returns i (parse_one_expr n i)"
  proof (induction n)
    case 0
    then show ?case by simp
  next
    case (Suc n)
    then show ?case
      using parse_one_expr_returns_step parse_expr_not_returns_step parse_expr_returns_step by blast
  qed
  then show "left i < n \<Longrightarrow> returns i (parse_expr n i)" by (blast intro: parse_expr_returns_step)
qed

lemma parse_expr_budget: "\<exists>e st. parse_expr (Suc (length (str i))) \<lparr>inp = i, msg = m, oob = b\<rparr> = Some (e, st)"
  by (rule returnsE [OF parse_expr_returns [where i = "\<lparr>inp = i, msg = m, oob = b\<rparr>"
          and n = "Suc (length (str i))"]]) (auto simp: left_def)

section \<open>The block of \<open>_parse_alloc\<close>\<close>

text \<open>
  The first block has five bytes and \<open>avail\<close> counts all five, so the terminating NUL of a token of
  exactly five characters falls behind it; every later block has one byte more than \<open>avail\<close>.
\<close>

lemma run_filter_oob: "run_filter f i = (c, i') \<Longrightarrow> oob i' = oob i"
  by (cases f) (auto simp: filter_name_def filter_string_def ps_next_def ps_done_def ps_undo_def
      parse_error_def split: prod.splits if_splits option.splits)

lemma parse_alloc_loop_oob:
  assumes "parse_alloc_loop f cap avail used acc i = (s, i')"
    and "used = length acc" "used \<le> avail" "5 \<le> avail" "cap = (if avail = 5 then 5 else avail + 1)"
    and "\<not> (avail \<noteq> 5 \<and> used \<le> 5)"
  shows "oob i' \<longleftrightarrow> oob i \<or> length s = 5"
  using assms
proof (induction f cap avail used acc i arbitrary: s i' rule: parse_alloc_loop.induct)
  case (1 f cap avail used acc i)
  obtain c i1 where c: "run_filter f i = (c, i1)" by (cases "run_filter f i")
  show ?case
  proof (cases "c = EOF")
    case True
    with "1.prems"(1) c have "s = acc" "i' = i1\<lparr>oob := oob i1 \<or> cap \<le> used\<rparr>"
      by (simp_all add: parse_alloc_loop.simps [of f cap avail used acc i])
    with "1.prems"(2-) run_filter_oob [OF c] show ?thesis by auto
  next
    case False
    define avail' where "avail' = (if avail \<le> used then avail + 100 else avail)"
    define cap' where "cap' = (if avail \<le> used then avail' + 1 else cap)"
    define i2 where "i2 = i1\<lparr>oob := oob i1 \<or> cap' \<le> used\<rparr>"
    have "parse_alloc_loop f cap' avail' (used + 1) (acc @ [to_char (tolower c)]) i2 = (s, i')"
      using "1.prems"(1) c False
      by (cases "avail \<le> used")
         (simp_all add: parse_alloc_loop.simps [of f cap avail used acc i] avail'_def cap'_def i2_def)
    moreover have "used + 1 \<le> avail'" "5 \<le> avail'" "\<not> (avail' \<noteq> 5 \<and> used + 1 \<le> 5)"
      "cap' = (if avail' = 5 then 5 else avail' + 1)" "\<not> cap' \<le> used"
      using "1.prems"(2-) by (auto simp: avail'_def cap'_def split: if_splits)
    ultimately have "oob i' \<longleftrightarrow> oob i2 \<or> length s = 5"
      using 1(1) [OF c [symmetric] False avail'_def cap'_def] "1.prems"(2) by (simp add: i2_def)
    with \<open>\<not> cap' \<le> used\<close> run_filter_oob [OF c] show ?thesis by (simp add: i2_def)
  qed
qed

lemma parse_alloc_oob_iff: "parse_alloc f i = (s, i') \<Longrightarrow> oob i' \<longleftrightarrow> oob i \<or> length s = 5"
  unfolding parse_alloc_def by (erule parse_alloc_loop_oob) auto

section \<open>Typing of what the parser accepts\<close>

text \<open>
  The values and tests the parser can build: a number is an \<open>int\<close>, list elements are numbers or
  strings and a list is not empty, and field, operator and value type form a row of \<open>vttypes\<close>.
\<close>

fun wt_atom :: "cvalue \<Rightarrow> bool" where
  "wt_atom (V_num n) \<longleftrightarrow> INT_MIN \<le> n \<and> n \<le> INT_MAX"
| "wt_atom (V_string s) \<longleftrightarrow> True"
| "wt_atom (V_list l) \<longleftrightarrow> False"

fun wt_value :: "cvalue \<Rightarrow> bool" where
  "wt_value (V_list l) \<longleftrightarrow> l \<noteq> [] \<and> list_all wt_atom l"
| "wt_value v \<longleftrightarrow> wt_atom v"

definition wt_valtest :: "valtest \<Rightarrow> bool" where
  "wt_valtest vt \<longleftrightarrow> wt_value (vval vt) \<and> vttypes_has vttypes (vfield vt) (vop vt) (value_type (vval vt))"

fun wt_expr :: "expr \<Rightarrow> bool" where
  "wt_expr (Op_self vt) \<longleftrightarrow> wt_valtest vt"
| "wt_expr (Op_not e) \<longleftrightarrow> wt_expr e"
| "wt_expr (Op_and a b) \<longleftrightarrow> wt_expr a \<and> wt_expr b"
| "wt_expr (Op_or a b) \<longleftrightarrow> wt_expr a \<and> wt_expr b"

lemma parse_num_loop_range:
  "INT_MIN \<le> n \<Longrightarrow> n \<le> INT_MAX \<Longrightarrow>
     INT_MIN \<le> fst (parse_num_loop n i) \<and> fst (parse_num_loop n i) \<le> INT_MAX"
proof (induction n i rule: parse_num_loop.induct)
  case (1 n i)
  obtain c i1 where c: "parse_nonspace i = (c, i1)" by (cases "parse_nonspace i")
  with 1(1) [OF c [symmetric]] 1(2,3) c_int_bounds show ?case
    by (simp add: parse_num_loop.simps [of n i])
qed

lemma parse_value_wt: "parse_value i = (Some v, i') \<Longrightarrow> wt_atom v"
  using parse_num_loop_range [of 0 "ps_undo (snd (parse_nonspace i))"]
  by (auto simp: parse_value_def parse_num_def Let_def split: prod.splits if_splits option.splits)

lemma parse_vallist_loop_wt:
  "parse_vallist_loop acc i = (Some v, i') \<Longrightarrow> list_all wt_atom acc \<Longrightarrow> wt_value v \<and> value_type v = vt_list"
proof (induction acc i rule: parse_vallist_loop.induct)
  case (1 acc i)
  obtain r i1 where r: "parse_value i = (r, i1)" by (cases "parse_value i")
  then obtain w where w: "r = Some w"
    using "1.prems"(1) by (cases r) (auto simp: parse_vallist_loop.simps [of acc i])
  obtain c i2 where c: "parse_nonspace i1 = (c, i2)" by (cases "parse_nonspace i1")
  have "wt_atom w" using parse_value_wt r w by blast
  with 1(1) [OF r [symmetric] w c [symmetric]] "1.prems" r w c show ?case
    by (auto simp: parse_vallist_loop.simps [of acc i] split: if_splits)
qed

lemma wt_atom_value: "wt_atom v \<Longrightarrow> wt_value v"
  by (cases v) auto

lemma parse_valtest_wt: "parse_valtest i = (Some vt, i') \<Longrightarrow> wt_valtest vt"
proof -
  assume vt: "parse_valtest i = (Some vt, i')"
  obtain name i1 where n: "parse_name i = (name, i1)" by (cases "parse_name i")
  obtain oper i2 where p: "parse_valop i1 = (oper, i2)" by (cases "parse_valop i1")
  from vt n p obtain v where v: "(if oper = vo_in then parse_vallist i2 else parse_value i2) = (Some v, i')"
    and r: "vt = \<lparr>vfield = find_field name, vop = oper, vval = v\<rparr>"
      "vttypes_has vttypes (find_field name) oper (value_type v)"
    by (auto simp: parse_valtest_def Let_def split: prod.splits if_splits option.splits)
  from v have "wt_value v"
    using parse_value_wt [of i2 v i'] parse_vallist_loop_wt [of "[]" i2 v i'] wt_atom_value
    by (simp add: parse_vallist_def split: if_splits)
  with r show ?thesis by (simp add: wt_valtest_def)
qed

text \<open>Where an accepted expression comes from, one lemma per function.\<close>

lemma parse_one_expr_cases:
  assumes "parse_one_expr (Suc n) i = Some (Some e, i')"
  obtains (brace) j k where "parse_expr n j = Some (Some e, k)"
    | (neg) j where "parse_expr_not n j = Some (Some e, i')"
    | (val) j where "parse_expr_val j = (Some e, i')"
proof -
  obtain c i1 where c: "parse_nonspace i = (c, i1)" by (cases "parse_nonspace i")
  have "(\<exists>k. parse_expr n (ps_done i1) = Some (Some e, k)) \<or>
      parse_expr_not n (ps_done i1) = Some (Some e, i') \<or> parse_expr_val (ps_undo i1) = (Some e, i')"
    using assms c by (auto simp: parse_one_expr.simps(2) split: if_splits option.splits prod.splits)
  then show thesis using brace neg val by blast
qed

lemma parse_expr_not_cases:
  assumes "parse_expr_not n i = Some (Some e, i')"
  obtains a where "parse_one_expr n i = Some (Some a, i')" "e = Op_not a"
  using assms by (auto simp: parse_expr_not.simps split: option.splits)

lemma parse_expr_cases:
  assumes "parse_expr n i = Some (Some e, i')"
  obtains (one) k where "parse_one_expr n i = Some (Some e, k)"
    | (two) a b k j oper where "parse_one_expr n i = Some (Some a, k)"
        "parse_one_expr n j = Some (Some b, i')" "e = mk_binary oper a b"
proof -
  from assms obtain a i1 where a: "parse_one_expr n i = Some (Some a, i1)"
    by (auto simp: parse_expr.simps split: option.splits)
  obtain c i2 where c: "parse_nonspace i1 = (c, i2)" by (cases "parse_nonspace i1")
  obtain oper i3 where p: "parse_operator (ps_undo i2) = (oper, i3)"
    by (cases "parse_operator (ps_undo i2)")
  show thesis
  proof (cases "c = schar (CHR '')'') \<or> oper = op_none")
    case True
    with assms a c p one show ?thesis by (auto simp: parse_expr.simps split: if_splits)
  next
    case False
    with assms a c p obtain b where "parse_one_expr n i3 = Some (Some b, i')" "e = mk_binary oper a b"
      by (auto simp: parse_expr.simps split: option.splits)
    with a two show ?thesis by blast
  qed
qed

text \<open>A property of tests that the connectives preserve holds of every accepted expression.\<close>

lemma parse_expr_ind:
  assumes val: "\<And>i e i'. parse_expr_val i = (Some e, i') \<Longrightarrow> P e"
    and neg: "\<And>a. P a \<Longrightarrow> P (Op_not a)"
    and bin: "\<And>oper a b. P a \<Longrightarrow> P b \<Longrightarrow> P (mk_binary oper a b)"
    and e: "parse_expr n i = Some (Some e, i')"
  shows "P e"
proof -
  have "\<forall>i e i'. parse_one_expr n i = Some (Some e, i') \<longrightarrow> P e"
  proof (induction n)
    case 0
    then show ?case by simp
  next
    case (Suc n)
    show ?case
    proof (intro allI impI)
      fix i e i' assume "parse_one_expr (Suc n) i = Some (Some e, i')"
      then show "P e"
      proof (cases rule: parse_one_expr_cases)
        case (brace j k)
        then show ?thesis by (cases rule: parse_expr_cases) (use Suc bin in blast)+
      next
        case (neg j)
        then show ?thesis by (cases rule: parse_expr_not_cases) (use Suc assms(2) in blast)
      next
        case (val j)
        then show ?thesis by (rule assms(1))
      qed
    qed
  qed
  with e bin show ?thesis by (cases rule: parse_expr_cases) blast+
qed

lemma parse_expr_val_wt: "parse_expr_val i = (Some e, i') \<Longrightarrow> wt_expr e"
  by (auto simp: parse_expr_val_def split: prod.splits option.splits dest: parse_valtest_wt)

lemma parse_expr_wt: "parse_expr n i = Some (Some e, i') \<Longrightarrow> wt_expr e"
  by (erule parse_expr_ind [rotated 3]) (auto simp: mk_binary_def dest: parse_expr_val_wt)

section \<open>The error report\<close>

text \<open>A reader that gives up has stored a message.\<close>

lemma msg_parse_error [simp]: "\<exists>y. msg (parse_error i m) = Some y"
  by (simp add: parse_error_def split: option.split)

lemma msg_ps_done [simp]: "msg (ps_done i) = msg i" and msg_ps_undo [simp]: "msg (ps_undo i) = msg i"
  by (simp_all add: ps_done_def ps_undo_def)

lemma parse_valtest_None_msg: "parse_valtest i = (None, i') \<Longrightarrow> msg i' \<noteq> None"
  by (auto simp: parse_valtest_def Let_def split: prod.splits if_splits option.splits)

lemma parse_expr_val_None_msg: "parse_expr_val i = (None, i') \<Longrightarrow> msg i' \<noteq> None"
  by (auto simp: parse_expr_val_def split: prod.splits option.splits dest: parse_valtest_None_msg)

lemma parse_one_expr_None_msg:
  assumes "\<And>i i'. parse_expr n i = Some (None, i') \<Longrightarrow> msg i' \<noteq> None"
    and "parse_one_expr (Suc n) i = Some (None, i')"
  shows "msg i' \<noteq> None"
proof -
  obtain c i1 where c: "parse_nonspace i = (c, i1)" by (cases "parse_nonspace i")
  have not_msg: "parse_expr_not n j = Some (None, k) \<Longrightarrow> msg k \<noteq> None" for j k
    by (auto simp: parse_expr_not.simps split: option.splits)
  consider "c = schar (CHR ''('')" | "c = schar (CHR '')'')" | "c = schar (CHR ''!'')"
    | "c \<noteq> schar (CHR ''('')" "c \<noteq> schar (CHR '')'')" "c \<noteq> schar (CHR ''!'')" by blast
  then show ?thesis
  proof cases
    case 1
    with assms(2) c show ?thesis
      by (auto simp: parse_one_expr.simps(2) split: option.splits prod.splits if_splits)
  next
    case 2
    with assms(2) c show ?thesis by (auto simp: parse_one_expr.simps(2) schar_def)
  next
    case 3
    then have "parse_one_expr (Suc n) i = parse_expr_not n (ps_done i1)"
      using c by (simp add: parse_one_expr.simps(2) schar_def)
    with assms(2) not_msg show ?thesis by simp
  next
    case 4
    with assms(2) c show ?thesis
      by (auto simp: parse_one_expr.simps(2) dest: parse_expr_val_None_msg)
  qed
qed

lemma parse_expr_None_msg_step:
  assumes "\<And>i i'. parse_one_expr n i = Some (None, i') \<Longrightarrow> msg i' \<noteq> None"
    and "parse_expr n i = Some (None, i')"
  shows "msg i' \<noteq> None"
proof (cases "\<exists>i1. parse_one_expr n i = Some (None, i1)")
  case True
  with assms show ?thesis by (auto simp: parse_expr.simps)
next
  case False
  with assms(2) obtain a i1 where a: "parse_one_expr n i = Some (Some a, i1)"
    by (auto simp: parse_expr.simps split: option.splits)
  obtain c i2 where c: "parse_nonspace i1 = (c, i2)" by (cases "parse_nonspace i1")
  obtain oper i3 where p: "parse_operator (ps_undo i2) = (oper, i3)"
    by (cases "parse_operator (ps_undo i2)")
  from assms(2) a c p show ?thesis
    by (auto simp: parse_expr.simps split: if_splits option.splits)
qed

lemma parse_expr_None_msg: "parse_expr n i = Some (None, i') \<Longrightarrow> msg i' \<noteq> None"
proof -
  have "\<forall>i i'. parse_one_expr n i = Some (None, i') \<longrightarrow> msg i' \<noteq> None"
  proof (induction n)
    case 0
    then show ?case by simp
  next
    case (Suc n)
    then show ?case using parse_one_expr_None_msg parse_expr_None_msg_step by blast
  qed
  then show "parse_expr n i = Some (None, i') \<Longrightarrow> msg i' \<noteq> None"
    using parse_expr_None_msg_step by blast
qed

section \<open>Properties\<close>

text \<open>
  C6: \<open>expr_parse\<close> returns on every input buffer: neither a lexer loop nor the mutual recursion of
  \<open>parse_expr\<close>, \<open>parse_one_expr\<close> and \<open>parse_expr_not\<close> runs forever, and the recursion is never
  deeper than the input is long (the budget the model gives it is never used up).
\<close>

theorem expr_parse_total: "\<exists>r. expr_parse i = Some r"
proof -
  obtain e st where p: "parse_expr (Suc (length (str i))) \<lparr>inp = i, msg = None, oob = False\<rparr> = Some (e, st)"
    using parse_expr_budget by blast
  then show ?thesis by (cases e) (auto simp: expr_parse_def split: prod.splits)
qed

text \<open>
  C20: Whatever text a client sends, a filter the parser accepts is well typed: every comparison is a
  row of the table \<open>vttypes\<close>, its numbers fit an \<open>int\<close>, and a value list is not empty and holds
  only numbers and strings.
\<close>

theorem expr_parse_typed: "expr_parse_str s = Some (Some e, col, m) \<Longrightarrow> wt_expr e"
  by (auto simp: expr_parse_str_def expr_parse_def split: option.splits prod.splits if_splits
      dest: parse_expr_wt)

theorem expr_parse_typed_witness:
  "expr_parse_str ''!(tag in 4,7) & year >= 1990'' =
     Some (Some (Op_and (Op_not (Op_self \<lparr>vfield = vf_tag, vop = vo_in, vval = V_list [V_num 4, V_num 7]\<rparr>))
                        (Op_self \<lparr>vfield = vf_year, vop = vo_ge, vval = V_num 1990\<rparr>)), - 1, None) \<and>
   wt_expr (Op_and (Op_not (Op_self \<lparr>vfield = vf_tag, vop = vo_in, vval = V_list [V_num 4, V_num 7]\<rparr>))
                   (Op_self \<lparr>vfield = vf_year, vop = vo_ge, vval = V_num 1990\<rparr>))"
proof -
  have p: "expr_parse_str ''!(tag in 4,7) & year >= 1990'' =
     Some (Some (Op_and (Op_not (Op_self \<lparr>vfield = vf_tag, vop = vo_in, vval = V_list [V_num 4, V_num 7]\<rparr>))
                        (Op_self \<lparr>vfield = vf_year, vop = vo_ge, vval = V_num 1990\<rparr>)), - 1, None)"
    by code_simp
  show ?thesis using p expr_parse_typed [OF p] by simp
qed

text \<open>
  The out parameters of \<open>expr_parse\<close> agree with its result: a returned expression comes with
  column -1 and no message, a \<open>NULL\<close> result always with a message and the column the reader
  stopped at.
\<close>

lemma expr_parse_report:
  "case expr_parse_str s of
     None \<Rightarrow> False
   | Some (Some e, col, m) \<Rightarrow> col = - 1 \<and> m = None
   | Some (None, col, m) \<Rightarrow> 0 \<le> col \<and> m \<noteq> None"
proof -
  obtain e st where p: "parse_expr (Suc (length s)) \<lparr>inp = pi_str_new s, msg = None, oob = False\<rparr> = Some (e, st)"
    using parse_expr_budget [of "pi_str_new s" None False] by (auto simp: pi_str_new_def)
  obtain c st1 where c: "parse_nonspace st = (c, st1)" by (cases "parse_nonspace st")
  have len: "length (str (pi_str_new s)) = length s" by (simp add: pi_str_new_def)
  show ?thesis
    using p c parse_expr_None_msg [of "Suc (length s)" _ st]
    by (cases e) (auto simp: expr_parse_str_def expr_parse_def len)
qed

text \<open>
  C31: \<open>_parse_alloc\<close> writes outside the block it allocated exactly for tokens of five characters
  (the terminating NUL of the first, five byte block); for every other length it stays inside.
\<close>

theorem parse_alloc_oob: "oob (snd (parse_alloc f i)) \<longleftrightarrow> oob i \<or> length (fst (parse_alloc f i)) = 5"
  using parse_alloc_oob_iff [of f i] by (metis prod.collapse)

end
