(* ===== verification/Sqlfilter.thy ===== *)
theory Sqlfilter
  imports User Exprfmt Parseexpr_Safe
begin

text \<open>
  Filters as SQL conditions (\<open>src/pgdb/filter.c\<close>). The functions write into the rest of the caller's
  array like \<open>expr_fmt\<close>, and look tag names up in the database on the way, so they also pass a state
  on. The ghost component \<open>freed\<close> of that state collects the numbers of the filter expression itself
  that a function has freed.
\<close>

section \<open>Tag lists\<close>

definition SQL_LEN :: nat where "SQL_LEN = 1024"

text \<open>
  An element of the list \<open>sql_tags2id\<close> builds: a number node of the expression (\<open>add_val\<close> stores the
  caller's pointer), or a node allocated for a row of the result.
\<close>

datatype idval = Shared int | Fresh int

fun idval_num :: "idval \<Rightarrow> int" where
  "idval_num (Shared n) = n"
| "idval_num (Fresh n) = n"

definition add_val :: "idval list \<Rightarrow> idval \<Rightarrow> idval list" where
  "add_val l v = l @ [v]"

text \<open>
  The loop of \<open>sql_tags2id\<close>; the inner \<open>None\<close> is its \<open>goto clean1\<close>, with the list collected so far.
\<close>

fun tags2id_loop :: "cvalue list \<Rightarrow> idval list \<Rightarrow> nat \<Rightarrow> mem \<Rightarrow> (idval list \<times> (nat \<times> mem) option) option" where
  "tags2id_loop [] ids used sql = Some (ids, Some (used, sql))"
| "tags2id_loop (V_num n # vs) ids used sql = tags2id_loop vs (add_val ids (Shared n)) used sql"
| "tags2id_loop (V_list l # vs) ids used sql = tags2id_loop vs ids used sql"
| "tags2id_loop (V_string s # vs) ids used sql =
     do { (used1, sql1) \<leftarrow> (if used \<noteq> 0 then finished used (snprintf sql used (szsub SQL_LEN used) '','')
                             else Some (used, sql));
          if used \<noteq> 0 \<and> used1 > SQL_LEN then Some (ids, None)
          else do {
            (used2, sql2) \<leftarrow> finished used1 (snprintf sql1 used1 (szsub SQL_LEN used1) (quoted (db_escape s)));
            if used2 > SQL_LEN then Some (ids, None) else tags2id_loop vs ids used2 sql2 } }"

text \<open>The rows of the result, from \<open>tup\<close> on.\<close>

fun tags2id_rows :: "pgres \<Rightarrow> nat \<Rightarrow> int \<Rightarrow> idval list \<Rightarrow> idval list option" where
  "tags2id_rows res 0 tup ids = Some ids"
| "tags2id_rows res (Suc k) tup ids =
     do { n \<leftarrow> pgint res tup 0; tags2id_rows res k (tup + 1) (add_val ids (Fresh n)) }"

text \<open>
  At \<open>clean1\<close> the list has no terminating \<open>NULL\<close> yet, and \<open>vallist_free\<close> reads past its end unless it
  is still empty. The array \<open>sql\<close> starts as the empty string.
\<close>

definition tags2id_fail :: "idval list \<Rightarrow> 'w \<Rightarrow> (idval list option \<times> 'w) option" where
  "tags2id_fail ids w = (if ids = [] then Some (None, w) else None)"

definition sql_tags2id :: "'w query \<Rightarrow> cvalue list \<Rightarrow> 'w \<Rightarrow> (idval list option \<times> 'w) option" where
  "sql_tags2id query inval w =
     do { (ids, r) \<leftarrow> tags2id_loop inval [] 0 (replicate SQL_LEN NUL);
          (case r of
             None \<Rightarrow> tags2id_fail ids w
           | Some (used, sql) \<Rightarrow>
               if used = 0 then Some (Some ids, w)
               else do {
                 (res, w) \<leftarrow> query (''SELECT id FROM mserv_tag WHERE name IN ('' @ cstr sql 0 @ '')'') w;
                 (case tuples_ok res of
                    None \<Rightarrow> tags2id_fail ids w
                  | Some r \<Rightarrow> do { l \<leftarrow> tags2id_rows r (nat (PQntuples r)) 0 ids; Some (Some l, w) }) }) }"

text \<open>\<open>sql_idlist\<close> into its static array: the text, or \<open>None\<close> when it does not fit.\<close>

fun idlist_loop :: "bool \<Rightarrow> idval list \<Rightarrow> nat \<Rightarrow> mem \<Rightarrow> mem option option" where
  "idlist_loop isfirst [] sused sbuf = Some (Some sbuf)"
| "idlist_loop isfirst (v # vs) sused sbuf =
     do { (sused1, sbuf1) \<leftarrow> (if isfirst then Some (sused, sbuf)
                               else finished sused (snprintf sbuf sused (szsub SQL_LEN sused) '',''));
          if sused1 > SQL_LEN then Some None
          else do {
            (sused2, sbuf2) \<leftarrow> finished sused1 (snprintf sbuf1 sused1 (szsub SQL_LEN sused1) (fmt_d (idval_num v)));
            if sused2 > SQL_LEN then Some None else idlist_loop False vs sused2 sbuf2 } }"

definition sql_idlist :: "idval list \<Rightarrow> string option option" where
  "sql_idlist vlist = map_option (map_option (\<lambda>sbuf. cstr sbuf 0)) (idlist_loop True vlist 0 (replicate SQL_LEN NUL))"

text \<open>What a formatter returns: the count, the array, the freed numbers, the state.\<close>

type_synonym 'w sqlout = "nat \<times> mem \<times> int list \<times> 'w"

definition with_state :: "int list \<Rightarrow> 'w \<Rightarrow> (nat \<times> mem) option \<Rightarrow> 'w sqlout option" where
  "with_state freed w r = map_option (\<lambda>(n, m). (n, m, freed, w)) r"

fun shared_nums :: "idval list \<Rightarrow> int list" where
  "shared_nums [] = []"
| "shared_nums (Shared n # l) = n # shared_nums l"
| "shared_nums (Fresh n # l) = shared_nums l"

definition sql_taglist :: "'w query \<Rightarrow> mem \<Rightarrow> nat \<Rightarrow> nat \<Rightarrow> cvalue list \<Rightarrow> int list \<Rightarrow> 'w \<Rightarrow> 'w sqlout option" where
  "sql_taglist query m off len vlist freed w =
     do { (idlist, w) \<leftarrow> sql_tags2id query vlist w;
          (case idlist of
             None \<Rightarrow> Some (0, m, freed, w)
           | Some ids \<Rightarrow> do {
               lst \<leftarrow> sql_idlist ids;
               (let freed' = freed @ shared_nums ids in
                case lst of
                  None \<Rightarrow> Some (0, m, freed', w)
                | Some l \<Rightarrow>
                    if l = [] then Some (0, m, freed', w)
                    else with_state freed' w (snprintf m off len
                      (''EXISTS( SELECT file_id FROM mserv_filetag ft WHERE t.id = ft.file_id AND ft.tag_id IN ('' @
                       l @ ''))''))) }) }"

section \<open>Tests\<close>

fun oper_names :: "valop \<Rightarrow> string" where
  "oper_names vo_eq = ''=''"
| "oper_names vo_lt = ''<''"
| "oper_names vo_le = ''<=''"
| "oper_names vo_gt = ''>''"
| "oper_names vo_ge = ''>=''"
| "oper_names vo_in = ''IN''"
| "oper_names vo_re = ''~*''"
| "oper_names vo_none = []"
| "oper_names vo_max = []"

datatype fmt_func = FF_num | FF_year | FF_tag | FF_taglist | FF_tagre | FF_string

definition sql_valtestfmt :: "(valfield \<times> valop \<times> valtype \<times> fmt_func \<times> string option) list" where
  "sql_valtestfmt =
   [(vf_dur, vo_eq, vt_num, FF_num, Some ''dur''), (vf_dur, vo_lt, vt_num, FF_num, Some ''dur''),
    (vf_dur, vo_le, vt_num, FF_num, Some ''dur''), (vf_dur, vo_gt, vt_num, FF_num, Some ''dur''),
    (vf_dur, vo_ge, vt_num, FF_num, Some ''dur''),
    (vf_lplay, vo_eq, vt_num, FF_num, Some ''lplay''), (vf_lplay, vo_lt, vt_num, FF_num, Some ''lplay''),
    (vf_lplay, vo_le, vt_num, FF_num, Some ''lplay''), (vf_lplay, vo_gt, vt_num, FF_num, Some ''lplay''),
    (vf_lplay, vo_ge, vt_num, FF_num, Some ''lplay''),
    (vf_year, vo_eq, vt_num, FF_year, Some ''album_publish_year''),
    (vf_year, vo_lt, vt_num, FF_year, Some ''album_publish_year''),
    (vf_year, vo_le, vt_num, FF_year, Some ''album_publish_year''),
    (vf_year, vo_gt, vt_num, FF_year, Some ''album_publish_year''),
    (vf_year, vo_ge, vt_num, FF_year, Some ''album_publish_year''),
    (vf_tag, vo_eq, vt_num, FF_num, None), (vf_tag, vo_eq, vt_string, FF_tag, None),
    (vf_tag, vo_re, vt_string, FF_tagre, None), (vf_tag, vo_in, vt_list, FF_taglist, None),
    (vf_title, vo_eq, vt_string, FF_string, Some ''lower(title)''),
    (vf_title, vo_re, vt_string, FF_string, Some ''title''),
    (vf_artist, vo_eq, vt_string, FF_string, Some ''lower(artist_name)''),
    (vf_artist, vo_eq, vt_num, FF_num, Some ''artist_id''),
    (vf_artist, vo_re, vt_string, FF_string, Some ''artist_name''),
    (vf_album, vo_eq, vt_string, FF_string, Some ''lower(album_name)''),
    (vf_album, vo_eq, vt_num, FF_num, Some ''album_id''),
    (vf_album, vo_re, vt_string, FF_string, Some ''album_name''),
    (vf_pos, vo_eq, vt_num, FF_num, Some ''album_pos''), (vf_pos, vo_lt, vt_num, FF_num, Some ''album_pos''),
    (vf_pos, vo_le, vt_num, FF_num, Some ''album_pos''), (vf_pos, vo_gt, vt_num, FF_num, Some ''album_pos''),
    (vf_pos, vo_ge, vt_num, FF_num, Some ''album_pos'')]"

text \<open>
  The formatters read the member of the value's union their table row says; the others are not
  represented here (the table is only reached with matching types).
\<close>

fun val_num :: "cvalue \<Rightarrow> int option" where
  "val_num (V_num n) = Some n"
| "val_num _ = None"

fun val_str :: "cvalue \<Rightarrow> string option" where
  "val_str (V_string s) = Some s"
| "val_str _ = None"

fun val_lst :: "cvalue \<Rightarrow> cvalue list option" where
  "val_lst (V_list l) = Some l"
| "val_lst _ = None"

definition sql_vt_num :: "mem \<Rightarrow> nat \<Rightarrow> nat \<Rightarrow> valtest \<Rightarrow> string option \<Rightarrow> int list \<Rightarrow> 'w \<Rightarrow> 'w sqlout option" where
  "sql_vt_num m off len vt row freed w =
     do { n \<leftarrow> val_num (vval vt);
          with_state freed w (snprintf m off len (fmt_s row @ '' '' @ oper_names (vop vt) @ '' '' @ fmt_d n)) }"

definition sql_vt_year :: "mem \<Rightarrow> nat \<Rightarrow> nat \<Rightarrow> valtest \<Rightarrow> string option \<Rightarrow> int list \<Rightarrow> 'w \<Rightarrow> 'w sqlout option" where
  "sql_vt_year m off len vt row freed w =
     do { n \<leftarrow> val_num (vval vt);
          with_state freed w (snprintf m off len (fmt_s row @ '' '' @ oper_names (vop vt) @ '' '' @ quoted (fmt_04d n))) }"

definition sql_vt_tag :: "'w query \<Rightarrow> mem \<Rightarrow> nat \<Rightarrow> nat \<Rightarrow> valtest \<Rightarrow> int list \<Rightarrow> 'w \<Rightarrow> 'w sqlout option" where
  "sql_vt_tag query m off len vt freed w = sql_taglist query m off len [vval vt] freed w"

definition sql_vt_taglist :: "'w query \<Rightarrow> mem \<Rightarrow> nat \<Rightarrow> nat \<Rightarrow> valtest \<Rightarrow> int list \<Rightarrow> 'w \<Rightarrow> 'w sqlout option" where
  "sql_vt_taglist query m off len vt freed w =
     do { l \<leftarrow> val_lst (vval vt); sql_taglist query m off len l freed w }"

definition sql_vt_tagre :: "mem \<Rightarrow> nat \<Rightarrow> nat \<Rightarrow> valtest \<Rightarrow> int list \<Rightarrow> 'w \<Rightarrow> 'w sqlout option" where
  "sql_vt_tagre m off len vt freed w =
     do { s \<leftarrow> val_str (vval vt);
          with_state freed w (snprintf m off len
            (''EXISTS( SELECT file_id FROM mserv_filetag ft INNER JOIN mserv_tag tag ON ft.tag_id = tag.id '' @
             ''WHERE t.id = ft.file_id AND tag.name '' @ oper_names (vop vt) @ '' '' @ quoted (db_escape s) @ '')'')) }"

definition sql_vt_string :: "mem \<Rightarrow> nat \<Rightarrow> nat \<Rightarrow> valtest \<Rightarrow> string option \<Rightarrow> int list \<Rightarrow> 'w \<Rightarrow> 'w sqlout option" where
  "sql_vt_string m off len vt row freed w =
     do { s \<leftarrow> val_str (vval vt);
          with_state freed w (snprintf m off len (fmt_s row @ '' '' @ oper_names (vop vt) @ '' '' @ quoted (db_escape s))) }"

text \<open>The call through the function pointer of the table row.\<close>

definition run_fmt :: "'w query \<Rightarrow> fmt_func \<Rightarrow> mem \<Rightarrow> nat \<Rightarrow> nat \<Rightarrow> valtest \<Rightarrow> string option \<Rightarrow> int list \<Rightarrow> 'w
    \<Rightarrow> 'w sqlout option" where
  "run_fmt query f m off len vt row freed w =
     (case f of
        FF_num \<Rightarrow> sql_vt_num m off len vt row freed w
      | FF_year \<Rightarrow> sql_vt_year m off len vt row freed w
      | FF_tag \<Rightarrow> sql_vt_tag query m off len vt freed w
      | FF_taglist \<Rightarrow> sql_vt_taglist query m off len vt freed w
      | FF_tagre \<Rightarrow> sql_vt_tagre m off len vt freed w
      | FF_string \<Rightarrow> sql_vt_string m off len vt row freed w)"

definition find_fmt :: "valtest \<Rightarrow> (fmt_func \<times> string option) option" where
  "find_fmt vt =
     map_option (\<lambda>(f, p, t, fn, row). (fn, row))
       (find (\<lambda>(f, p, t, fn, row). f = vfield vt \<and> p = vop vt \<and> t = value_type (vval vt)) sql_valtestfmt)"

definition sql_valtest :: "'w query \<Rightarrow> mem \<Rightarrow> nat \<Rightarrow> nat \<Rightarrow> valtest \<Rightarrow> int list \<Rightarrow> 'w \<Rightarrow> 'w sqlout option" where
  "sql_valtest query m off len vt freed w =
     (case find_fmt vt of
        None \<Rightarrow> Some (0, m, freed, w)
      | Some (fn, row) \<Rightarrow> run_fmt query fn m off len vt row freed w)"

section \<open>Expressions\<close>

text \<open>As \<open>guarded\<close> and \<open>finished\<close>, with the state passed on.\<close>

definition sguard :: "nat \<Rightarrow> nat \<Rightarrow> 'w sqlout option \<Rightarrow> (nat \<Rightarrow> mem \<Rightarrow> int list \<Rightarrow> 'w \<Rightarrow> 'w sqlout option)
    \<Rightarrow> 'w sqlout option" where
  "sguard len used r k =
     (case r of None \<Rightarrow> None
      | Some (n, m, freed, w) \<Rightarrow> if used + n > len then Some (used + n, m, freed, w) else k (used + n) m freed w)"

definition sfinish :: "nat \<Rightarrow> 'w sqlout option \<Rightarrow> 'w sqlout option" where
  "sfinish used r = map_option (\<lambda>(n, m, freed, w). (used + n, m, freed, w)) r"

fun sql_expr :: "'w query \<Rightarrow> mem \<Rightarrow> nat \<Rightarrow> nat \<Rightarrow> expr \<Rightarrow> int list \<Rightarrow> 'w \<Rightarrow> 'w sqlout option" where
  "sql_expr query m off len (Op_self vt) freed w = sfinish 0 (sql_valtest query m off (szsub len 0) vt freed w)"
| "sql_expr query m off len (Op_not e) freed w =
     sguard len 0 (with_state freed w (snprintf m off (szsub len 0) ''NOT ( '')) (\<lambda>used m freed w.
     sguard len used (sql_expr query m (off + used) (szsub len used) e freed w) (\<lambda>used m freed w.
     sfinish used (with_state freed w (snprintf m (off + used) (szsub len used) '' )''))))"
| "sql_expr query m off len (Op_and a b) freed w =
     sguard len 0 (with_state freed w (snprintf m off (szsub len 0) ''( '')) (\<lambda>used m freed w.
     sguard len used (sql_expr query m (off + used) (szsub len used) a freed w) (\<lambda>used m freed w.
     sguard len used (with_state freed w (snprintf m (off + used) (szsub len used) '' )AND( '')) (\<lambda>used m freed w.
     sguard len used (sql_expr query m (off + used) (szsub len used) b freed w) (\<lambda>used m freed w.
     sfinish used (with_state freed w (snprintf m (off + used) (szsub len used) '' )''))))))"
| "sql_expr query m off len (Op_or a b) freed w =
     sguard len 0 (with_state freed w (snprintf m off (szsub len 0) ''( '')) (\<lambda>used m freed w.
     sguard len used (sql_expr query m (off + used) (szsub len used) a freed w) (\<lambda>used m freed w.
     sguard len used (with_state freed w (snprintf m (off + used) (szsub len used) '' )OR( '')) (\<lambda>used m freed w.
     sguard len used (sql_expr query m (off + used) (szsub len used) b freed w) (\<lambda>used m freed w.
     sfinish used (with_state freed w (snprintf m (off + used) (szsub len used) '' )''))))))"

section \<open>Writes stay inside the array\<close>

text \<open>
  A server that answers every statement and whose results can be read, and filters whose tag lists
  hold names only: where a list also holds numbers, \<open>sql_tags2id\<close> may run into undefined behaviour when
  a lookup fails.
\<close>

definition benign :: "'w query \<Rightarrow> bool" where
  "benign query \<longleftrightarrow> (\<forall>q w. \<exists>res w'. query q w = Some (res, w') \<and>
     (\<forall>r. res = Some r \<longrightarrow> (\<forall>t. 0 \<le> t \<and> t < PQntuples r \<longrightarrow> PQgetvalue r t 0 \<noteq> None)))"

lemma benignD: "benign query \<Longrightarrow> \<exists>res w'. query q w = Some (res, w') \<and>
    (\<forall>r. res = Some r \<longrightarrow> (\<forall>t. 0 \<le> t \<and> t < PQntuples r \<longrightarrow> PQgetvalue r t 0 \<noteq> None))"
  by (simp add: benign_def)

fun names_only :: "expr \<Rightarrow> bool" where
  "names_only (Op_self vt) = (case vval vt of V_list l \<Rightarrow> (\<forall>v \<in> set l. val_num v = None) | _ \<Rightarrow> True)"
| "names_only (Op_not e) = names_only e"
| "names_only (Op_and a b) = (names_only a \<and> names_only b)"
| "names_only (Op_or a b) = (names_only a \<and> names_only b)"

definition swithin :: "mem \<Rightarrow> nat \<Rightarrow> nat \<Rightarrow> int list \<Rightarrow> 'w sqlout option \<Rightarrow> bool" where
  "swithin m off len freed r \<longleftrightarrow> (\<exists>n m' w'. r = Some (n, m', freed, w') \<and> within m off len m')"

lemma swithin_snprintf: "off + len \<le> length m \<Longrightarrow> swithin m off len freed (with_state freed w (snprintf m off len s))"
  using snprintf_within [of off len m s] by (auto simp: swithin_def with_state_def)

lemma swithin_skip: "swithin m off len freed (Some (0, m, freed, w))"
  by (simp add: swithin_def)

lemma swithin_finish: "swithin m off len freed r \<Longrightarrow> swithin m off len freed (sfinish used r)"
  by (auto simp: swithin_def sfinish_def)

lemma swithin_sub: "swithin m (off + used) (szsub len used) freed r \<Longrightarrow> used \<le> len \<Longrightarrow> within m0 off len m \<Longrightarrow>
    swithin m0 off len freed r"
  by (auto simp: swithin_def szsub_def dest: within_part intro: within_trans)

lemma swithin_guard:
  assumes "used \<le> len" "within m0 off len m" "swithin m (off + used) (szsub len used) freed r"
    and "\<And>used' m' w'. used' \<le> len \<Longrightarrow> within m0 off len m' \<Longrightarrow> swithin m0 off len freed (k used' m' freed w')"
  shows "swithin m0 off len freed (sguard len used r k)"
proof -
  obtain n m' w' where r: "r = Some (n, m', freed, w')" "within m0 off len m'"
    using swithin_sub [OF assms(3,1,2)] by (auto simp: swithin_def)
  with assms(4) [of "used + n" m' w'] show ?thesis by (auto simp: sguard_def swithin_def)
qed

text \<open>The two arrays of \<open>SQL_LEN\<close> bytes.\<close>

lemma piece_1024: "used \<le> SQL_LEN \<Longrightarrow> length b = SQL_LEN \<Longrightarrow>
    \<exists>b'. finished used (snprintf b used (szsub SQL_LEN used) s) = Some (used + length s, b') \<and> length b' = SQL_LEN"
  using snprintf_within [of used "szsub SQL_LEN used" b s]
  by (auto simp: finished_def szsub_def dest: within_length)

lemma tags2id_loop_names:
  "\<forall>v \<in> set vs. val_num v = None \<Longrightarrow> used \<le> SQL_LEN \<Longrightarrow> length b = SQL_LEN \<Longrightarrow>
    \<exists>r. tags2id_loop vs ids used b = Some (ids, r)"
proof (induction vs ids used b rule: tags2id_loop.induct)
  case (4 s vs ids used b)
  obtain b1 where 1: "finished used (snprintf b used (szsub SQL_LEN used) '','') = Some (used + 1, b1)" "length b1 = SQL_LEN"
    using piece_1024 [OF 4(3,4), of "'',''"] by auto
  define u c where "u = (if used \<noteq> 0 then used + 1 else used)" and "c = (if used \<noteq> 0 then b1 else b)"
  have c: "(if used \<noteq> 0 then finished used (snprintf b used (szsub SQL_LEN used) '','') else Some (used, b)) = Some (u, c)"
    "length c = SQL_LEN"
    using 1 4(4) by (simp_all add: u_def c_def)
  show ?case
  proof (cases "used \<noteq> 0 \<and> u > SQL_LEN")
    case True
    with c show ?thesis by simp
  next
    case False
    then have u: "u \<le> SQL_LEN" using 4(3) by (auto simp: u_def split: if_splits)
    obtain b2 where 2: "finished u (snprintf c u (szsub SQL_LEN u) (quoted (db_escape s))) =
        Some (u + length (quoted (db_escape s)), b2)" "length b2 = SQL_LEN"
      using piece_1024 [OF u c(2)] by blast
    show ?thesis
    proof (cases "u + length (quoted (db_escape s)) > SQL_LEN")
      case True
      with False c 2 show ?thesis by simp
    next
      case small: False
      from 4(1) [OF c(1) refl False 2(1) refl small] 4(2) small 2(2)
      have "\<exists>r. tags2id_loop vs ids (u + length (quoted (db_escape s))) b2 = Some (ids, r)" by simp
      with False c 2 small show ?thesis by simp
    qed
  qed
qed auto

lemma tags2id_rows_ok:
  "\<forall>t. 0 \<le> t \<and> t < PQntuples r \<longrightarrow> PQgetvalue r t 0 \<noteq> None \<Longrightarrow> 0 \<le> tup \<Longrightarrow> tup + int k \<le> PQntuples r \<Longrightarrow>
    shared_nums ids = [] \<Longrightarrow> \<exists>l. tags2id_rows r k tup ids = Some l \<and> shared_nums l = []"
proof (induction r k tup ids rule: tags2id_rows.induct)
  case (2 res k tup ids)
  then obtain s where "PQgetvalue res tup 0 = Some s" by fastforce
  then have "\<exists>n. pgint res tup 0 = Some n" by (simp add: pgint_def)
  moreover have "shared_nums (ids @ [Fresh n]) = []" for n
    using "2.prems"(4) by (induction ids rule: shared_nums.induct) auto
  ultimately show ?case using 2 by (auto simp: add_val_def)
qed simp

lemma sql_tags2id_names:
  assumes "benign query" "\<forall>v \<in> set vs. val_num v = None"
  shows "\<exists>l w'. sql_tags2id query vs w = Some (l, w') \<and> (\<forall>ids. l = Some ids \<longrightarrow> shared_nums ids = [])"
proof -
  obtain r where r: "tags2id_loop vs [] 0 (replicate SQL_LEN NUL) = Some ([], r)"
    using tags2id_loop_names [OF assms(2)] by fastforce
  show ?thesis
  proof (cases r)
    case None
    with r show ?thesis by (simp add: sql_tags2id_def tags2id_fail_def)
  next
    case (Some p)
    then obtain used sql where p: "r = Some (used, sql)" by (cases p) auto
    let ?q = "''SELECT id FROM mserv_tag WHERE name IN ('' @ cstr sql 0 @ '')''"
    obtain res w1 where q: "query ?q w = Some (res, w1)"
      "\<forall>r. res = Some r \<longrightarrow> (\<forall>t. 0 \<le> t \<and> t < PQntuples r \<longrightarrow> PQgetvalue r t 0 \<noteq> None)"
      using benignD [OF assms(1), of ?q w] by blast
    have rows: "\<exists>l. tags2id_rows x (nat (PQntuples x)) 0 [] = Some l \<and> shared_nums l = []" if "tuples_ok res = Some x" for x
    proof -
      have x: "res = Some x" using that by (auto simp: tuples_ok_def split: option.splits if_splits)
      show ?thesis
      proof (cases "PQntuples x \<le> 0")
        case True
        then show ?thesis by simp
      next
        case False
        then show ?thesis using q(2) x by (intro tags2id_rows_ok) auto
      qed
    qed
    show ?thesis
      using r p q(1) rows by (auto simp: sql_tags2id_def tags2id_fail_def split: option.split)
  qed
qed

lemma idlist_loop_ok: "sused \<le> SQL_LEN \<Longrightarrow> length b = SQL_LEN \<Longrightarrow> \<exists>r. idlist_loop isfirst l sused b = Some r"
proof (induction isfirst l sused b rule: idlist_loop.induct)
  case (2 isfirst v vs sused b)
  obtain b1 where 1: "finished sused (snprintf b sused (szsub SQL_LEN sused) '','') = Some (sused + 1, b1)" "length b1 = SQL_LEN"
    using piece_1024 [OF 2(2,3), of "'',''"] by auto
  define u c where "u = (if isfirst then sused else sused + 1)" and "c = (if isfirst then b else b1)"
  have c: "(if isfirst then Some (sused, b) else finished sused (snprintf b sused (szsub SQL_LEN sused) '','')) = Some (u, c)"
    "length c = SQL_LEN"
    using 1 2(3) by (simp_all add: u_def c_def)
  show ?case
  proof (cases "u > SQL_LEN")
    case True
    with c show ?thesis by simp
  next
    case False
    obtain b2 where f: "finished u (snprintf c u (szsub SQL_LEN u) (fmt_d (idval_num v))) =
        Some (u + length (fmt_d (idval_num v)), b2)" "length b2 = SQL_LEN"
      using piece_1024 [of u c] False c(2) by fastforce
    from 2(1) [OF c(1) refl False f(1) refl] f c False show ?thesis by auto
  qed
qed simp

lemma sql_taglist_names:
  assumes "benign query" "\<forall>v \<in> set vs. val_num v = None" "off + len \<le> length m"
  shows "swithin m off len freed (sql_taglist query m off len vs freed w)"
proof -
  obtain l w1 where l: "sql_tags2id query vs w = Some (l, w1)" "\<forall>ids. l = Some ids \<longrightarrow> shared_nums ids = []"
    using sql_tags2id_names [OF assms(1,2)] by blast
  show ?thesis
  proof (cases l)
    case None
    with l show ?thesis by (simp add: sql_taglist_def swithin_skip)
  next
    case (Some ids)
    obtain r where "idlist_loop True ids 0 (replicate SQL_LEN NUL) = Some r"
      using idlist_loop_ok [of 0 "replicate SQL_LEN NUL" True ids] by auto
    then have "sql_idlist ids = Some (map_option (\<lambda>sbuf. cstr sbuf 0) r)" by (simp add: sql_idlist_def)
    with l Some show ?thesis
      by (cases r) (auto simp: sql_taglist_def Let_def swithin_skip swithin_snprintf [OF assms(3)])
  qed
qed

section \<open>The table of formatters\<close>

definition func_type :: "fmt_func \<Rightarrow> valtype" where
  "func_type f = (case f of FF_num \<Rightarrow> vt_num | FF_year \<Rightarrow> vt_num | FF_tag \<Rightarrow> vt_string
     | FF_taglist \<Rightarrow> vt_list | FF_tagre \<Rightarrow> vt_string | FF_string \<Rightarrow> vt_string)"

lemma table_rows: "list_all (\<lambda>(f, p, t, fn, row). vttypes_has vttypes f p t \<and> t = func_type fn) sql_valtestfmt"
  by code_simp

lemma vttypes_has_row: "vttypes_has rows f p t \<Longrightarrow> (f, p, t) \<in> set rows \<and> f \<noteq> vf_none"
  by (induction rows f p t rule: vttypes_has.induct) (auto split: if_splits)

lemma table_covers: "list_all (\<lambda>(f, p, t). f = vf_none \<or>
    find (\<lambda>(f', p', t', fn, row). f' = f \<and> p' = p \<and> t' = t) sql_valtestfmt \<noteq> None) vttypes"
  by code_simp

lemma table_find: "vttypes_has vttypes f p t \<Longrightarrow>
    find (\<lambda>(f', p', t', fn, row). f' = f \<and> p' = p \<and> t' = t) sql_valtestfmt \<noteq> None"
  using vttypes_has_row [of vttypes f p t] table_covers by (fastforce simp: list_all_iff)

lemma find_fmt_type: "find_fmt vt = Some (fn, row) \<Longrightarrow>
    vttypes_has vttypes (vfield vt) (vop vt) (value_type (vval vt)) \<and> value_type (vval vt) = func_type fn"
proof -
  assume "find_fmt vt = Some (fn, row)"
  then obtain f p t where "find (\<lambda>(f, p, t, fn, row). f = vfield vt \<and> p = vop vt \<and> t = value_type (vval vt)) sql_valtestfmt
      = Some (f, p, t, fn, row)"
    by (auto simp: find_fmt_def)
  then have "(f, p, t, fn, row) \<in> set sql_valtestfmt" "f = vfield vt \<and> p = vop vt \<and> t = value_type (vval vt)"
    by (auto simp: find_Some_iff in_set_conv_nth)
  with table_rows show ?thesis by (auto simp: list_all_iff)
qed

lemma run_fmt_within:
  assumes "benign query" "value_type (vval vt) = func_type fn" "names_only (Op_self vt)" "off + len \<le> length m"
  shows "swithin m off len freed (run_fmt query fn m off len vt row freed w)"
  using assms(2,3) sql_taglist_names [OF assms(1) _ assms(4), of _ freed w] swithin_snprintf [OF assms(4)]
  by (cases "vval vt"; cases fn)
     (auto simp: func_type_def run_fmt_def sql_vt_num_def sql_vt_year_def sql_vt_tag_def sql_vt_taglist_def
        sql_vt_tagre_def sql_vt_string_def)

lemma sql_valtest_within:
  assumes "benign query" "names_only (Op_self vt)" "off + len \<le> length m"
  shows "swithin m off len freed (sql_valtest query m off len vt freed w)"
  using run_fmt_within [OF assms(1) _ assms(2,3)] find_fmt_type [of vt] swithin_skip
  by (auto simp: sql_valtest_def split: option.split)

lemma sub_room: "within m0 off len m \<Longrightarrow> off + len \<le> length m0 \<Longrightarrow> used \<le> len \<Longrightarrow>
    off + used + szsub len used \<le> length m"
  by (simp add: szsub_def within_length)

text \<open>A body as a chain of pieces, each of which stays inside the part it is called for.\<close>

type_synonym 'w spiece = "mem \<Rightarrow> nat \<Rightarrow> nat \<Rightarrow> int list \<Rightarrow> 'w \<Rightarrow> 'w sqlout option"

definition spiece_ok :: "int list \<Rightarrow> 'w spiece \<Rightarrow> bool" where
  "spiece_ok freed p \<longleftrightarrow> (\<forall>m off len w. off + len \<le> length m \<longrightarrow> swithin m off len freed (p m off len freed w))"

fun spieces :: "nat \<Rightarrow> nat \<Rightarrow> 'w spiece list \<Rightarrow> nat \<Rightarrow> mem \<Rightarrow> int list \<Rightarrow> 'w \<Rightarrow> 'w sqlout option" where
  "spieces off len [] used m freed w = Some (used, m, freed, w)"
| "spieces off len [p] used m freed w = sfinish used (p m (off + used) (szsub len used) freed w)"
| "spieces off len (p # ps) used m freed w =
     sguard len used (p m (off + used) (szsub len used) freed w) (spieces off len ps)"

lemma spieces_body:
  "spieces off len [p] = (\<lambda>used m freed w. sfinish used (p m (off + used) (szsub len used) freed w))"
  "spieces off len (p # q # ps) = (\<lambda>used m freed w.
     sguard len used (p m (off + used) (szsub len used) freed w) (spieces off len (q # ps)))"
  by (simp_all add: fun_eq_iff)

lemma spieces_within:
  assumes "list_all (spiece_ok freed) ps" "off + len \<le> length m0" "within m0 off len m" "used \<le> len"
  shows "swithin m0 off len freed (spieces off len ps used m freed w)"
  using assms
proof (induction ps arbitrary: used m w)
  case Nil
  then show ?case by (auto simp: swithin_def)
next
  case (Cons p ps)
  have p: "swithin m (off + used) (szsub len used) freed (p m (off + used) (szsub len used) freed w)"
    using Cons.prems sub_room [OF Cons.prems(3,2,4)] by (simp add: spiece_ok_def)
  show ?case
  proof (cases ps)
    case Nil
    with swithin_sub [OF swithin_finish [OF p] Cons.prems(4,3)] show ?thesis by simp
  next
    case (Cons q qs)
    have "swithin m0 off len freed
        (sguard len used (p m (off + used) (szsub len used) freed w) (spieces off len ps))"
      using Cons.IH Cons.prems by (intro swithin_guard [OF Cons.prems(4,3) p]) auto
    with Cons show ?thesis by simp
  qed
qed

abbreviation (input) sql_s :: "string \<Rightarrow> 'w spiece" where
  "sql_s s \<equiv> \<lambda>m off len freed w. with_state freed w (snprintf m off len s)"

abbreviation (input) sql_e :: "'w query \<Rightarrow> expr \<Rightarrow> 'w spiece" where
  "sql_e query e \<equiv> \<lambda>m off len freed w. sql_expr query m off len e freed w"

lemma spiece_ok_s: "spiece_ok freed (sql_s s)"
  by (simp add: spiece_ok_def swithin_snprintf)

lemma sql_expr_spieces: "sql_expr query m off len e freed w = spieces off len (case e of
     Op_self vt \<Rightarrow> [\<lambda>m off len freed w. sql_valtest query m off len vt freed w]
   | Op_not e \<Rightarrow> [sql_s ''NOT ( '', sql_e query e, sql_s '' )'']
   | Op_and a b \<Rightarrow> [sql_s ''( '', sql_e query a, sql_s '' )AND( '', sql_e query b, sql_s '' )'']
   | Op_or a b \<Rightarrow> [sql_s ''( '', sql_e query a, sql_s '' )OR( '', sql_e query b, sql_s '' )'']) 0 m freed w"
  by (simp add: spieces_body split: expr.split)

lemma spiece_okI: "list_all (spiece_ok freed) ps \<Longrightarrow> spiece_ok freed (\<lambda>m off len freed w. spieces off len ps 0 m freed w)"
  by (simp add: spiece_ok_def spieces_within)

lemma sql_expr_within: "benign query \<Longrightarrow> names_only e \<Longrightarrow> spiece_ok freed (sql_e query e)"
proof (induction e)
  case (Op_self vt)
  then have "spiece_ok freed (\<lambda>m off len freed w. sql_valtest query m off len vt freed w)"
    by (simp add: spiece_ok_def sql_valtest_within)
  then show ?case by (subst sql_expr_spieces) (simp only: expr.case, rule spiece_okI, simp)
next
  case (Op_not e)
  then show ?case by (subst sql_expr_spieces) (simp only: expr.case, rule spiece_okI, simp add: spiece_ok_s)
next
  case (Op_and a b)
  then show ?case by (subst sql_expr_spieces) (simp only: expr.case, rule spiece_okI, simp add: spiece_ok_s)
next
  case (Op_or a b)
  then show ?case by (subst sql_expr_spieces) (simp only: expr.case, rule spiece_okI, simp add: spiece_ok_s)
qed

section \<open>What a query keeps, the formatters keep\<close>

definition keeps :: "('w \<Rightarrow> bool) \<Rightarrow> 'w query \<Rightarrow> bool" where
  "keeps I query \<longleftrightarrow> (\<forall>q w r w'. query q w = Some (r, w') \<longrightarrow> I w \<longrightarrow> I w')"

definition skeeps :: "('w \<Rightarrow> bool) \<Rightarrow> 'w sqlout option \<Rightarrow> bool" where
  "skeeps I r \<longleftrightarrow> (\<forall>n m fr w'. r = Some (n, m, fr, w') \<longrightarrow> I w')"

lemma skeeps_state: "I w \<Longrightarrow> skeeps I (with_state fr w r)"
  by (auto simp: skeeps_def with_state_def)

lemma skeeps_finish: "skeeps I r \<Longrightarrow> skeeps I (sfinish used r)"
  by (auto simp: skeeps_def sfinish_def)

lemma skeeps_guard:
  assumes "skeeps I r" "\<And>u m fr w'. I w' \<Longrightarrow> skeeps I (k u m fr w')"
  shows "skeeps I (sguard len used r k)"
proof (cases r)
  case None
  then show ?thesis by (simp add: skeeps_def sguard_def)
next
  case (Some y)
  then obtain n m fr w' where r: "r = Some (n, m, fr, w')" by (cases y) auto
  then have "I w'" using assms(1) by (simp add: skeeps_def)
  with r assms(2) show ?thesis by (simp add: sguard_def skeeps_def)
qed

lemma tags2id_fail_keeps: "tags2id_fail ids w = Some (l, w') \<Longrightarrow> w' = w"
  by (simp add: tags2id_fail_def split: if_splits)

lemma sql_tags2id_keeps: "keeps I query \<Longrightarrow> sql_tags2id query vs w = Some (l, w') \<Longrightarrow> I w \<Longrightarrow> I w'"
proof -
  assume k: "keeps I query" and s: "sql_tags2id query vs w = Some (l, w')" and i: "I w"
  obtain ids r where 1: "tags2id_loop vs [] 0 (replicate SQL_LEN NUL) = Some (ids, r)"
    using s by (auto simp: sql_tags2id_def bind_eq_Some_conv)
  show ?thesis
  proof (cases "r = None \<or> fst (the r) = 0")
    case True
    with 1 s i show ?thesis
      by (cases r) (auto simp: sql_tags2id_def dest: tags2id_fail_keeps)
  next
    case False
    then obtain used sql where r: "r = Some (used, sql)" "used \<noteq> 0" by (cases r) auto
    let ?q = "''SELECT id FROM mserv_tag WHERE name IN ('' @ cstr sql 0 @ '')''"
    obtain res w1 where q: "query ?q w = Some (res, w1)"
      and rest: "(case tuples_ok res of None \<Rightarrow> tags2id_fail ids w1
        | Some r \<Rightarrow> do { l \<leftarrow> tags2id_rows r (nat (PQntuples r)) 0 ids; Some (Some l, w1) }) = Some (l, w')"
      using s 1 r by (auto simp: sql_tags2id_def bind_eq_Some_conv)
    have "w' = w1" using rest by (auto simp: bind_eq_Some_conv split: option.splits dest: tags2id_fail_keeps)
    then show ?thesis using k q i by (auto simp: keeps_def)
  qed
qed

lemma sql_taglist_keeps: "keeps I query \<Longrightarrow> I w \<Longrightarrow> skeeps I (sql_taglist query m off len vs fr w)"
  by (auto simp: skeeps_def sql_taglist_def with_state_def Let_def bind_eq_Some_conv
      split: option.splits if_splits dest: sql_tags2id_keeps)

lemma skeeps_value: "I w \<Longrightarrow> skeeps I (v \<bind> (\<lambda>x. with_state fr w (g x)))"
  by (cases v) (auto simp: skeeps_def with_state_def)

lemma run_fmt_keeps: "keeps I query \<Longrightarrow> I w \<Longrightarrow> skeeps I (run_fmt query fn m off len vt row fr w)"
proof -
  assume k: "keeps I query" and i: "I w"
  have l: "skeeps I (v \<bind> (\<lambda>x. sql_taglist query m off len x fr w))" for v
    using sql_taglist_keeps [OF k i] by (cases v) (simp_all add: skeeps_def)
  show ?thesis
    unfolding run_fmt_def sql_vt_num_def sql_vt_year_def sql_vt_tag_def sql_vt_taglist_def sql_vt_tagre_def
      sql_vt_string_def
    by (cases fn) (simp_all only: fmt_func.case, (rule skeeps_value [of I w, OF i] sql_taglist_keeps [OF k i] l)+)
qed

lemma sql_valtest_keeps: "keeps I query \<Longrightarrow> I w \<Longrightarrow> skeeps I (sql_valtest query m off len vt fr w)"
proof -
  assume k: "keeps I query" and i: "I w"
  show ?thesis
  proof (cases "find_fmt vt")
    case None
    then show ?thesis using i by (simp add: sql_valtest_def skeeps_def)
  next
    case (Some p)
    then show ?thesis using run_fmt_keeps [OF k i] by (cases p) (simp add: sql_valtest_def)
  qed
qed

lemma sql_expr_keeps: "keeps I query \<Longrightarrow> I w \<Longrightarrow> skeeps I (sql_expr query m off len e fr w)"
proof (induction e arbitrary: m off len fr w)
  case (Op_self vt)
  then show ?case
    using sql_valtest_keeps [OF Op_self(1)] by (auto intro!: skeeps_finish)
next
  case (Op_not e)
  then show ?case unfolding sql_expr.simps by (intro skeeps_guard skeeps_finish skeeps_state Op_not.IH)
next
  case (Op_and a b)
  then show ?case unfolding sql_expr.simps by (intro skeeps_guard skeeps_finish skeeps_state Op_and.IH)
next
  case (Op_or a b)
  then show ?case unfolding sql_expr.simps by (intro skeeps_guard skeeps_finish skeeps_state Op_or.IH)
qed

section \<open>Properties\<close>


text \<open>
  C21: Turning a filter into SQL never writes outside the array it is given and touches no value of the
  filter, with every server whose results can be read, for filters whose tag lists hold names only.
\<close>

theorem sql_expr_bounded:
  assumes "benign query" "names_only e" "off + len \<le> length m"
  shows "\<exists>n m' w'. sql_expr query m off len e freed w = Some (n, m', freed, w') \<and> within m off len m'"
  using sql_expr_within [OF assms(1,2)] assms(3) by (auto simp: spiece_ok_def swithin_def)

theorem sql_expr_bounded_witness:
  "let e = Op_not (Op_self \<lparr>vfield = vf_tag, vop = vo_in, vval = V_list [V_string ''rock'']\<rparr>);
       query = (\<lambda>q w. Some (Some \<lparr>PQresultStatus = PGRES_TUPLES_OK, PQntuples = 1, PQfnumber = \<lambda>n. 0,
                  PQgetvalue = \<lambda>t f. Some ''12'', PQcmdTuples = []\<rparr>, w + (1::nat)));
       m = replicate 200 (CHR ''x'')
   in (\<exists>n m' w'. sql_expr query m 1 150 e [] 0 = Some (n, m', [], w') \<and> within m 1 150 m')"
proof -
  let ?query = "\<lambda>q w. Some (Some \<lparr>PQresultStatus = PGRES_TUPLES_OK, PQntuples = 1, PQfnumber = \<lambda>n. 0,
                  PQgetvalue = \<lambda>t f. Some ''12'', PQcmdTuples = []\<rparr>, w + (1::nat))"
  have "benign ?query" by (simp add: benign_def)
  from sql_expr_bounded [OF this, of "Op_not (Op_self \<lparr>vfield = vf_tag, vop = vo_in, vval = V_list [V_string ''rock'']\<rparr>)"
      1 150 "replicate 200 (CHR ''x'')" "[]" 0]
  show ?thesis by (simp add: Let_def del: sql_expr.simps)
qed

text \<open>
  C32: Looking up a tag list frees the numbers of the filter itself: \<open>sql_tags2id\<close> puts the caller's nodes
  into its list and \<open>sql_taglist\<close> frees every node of that list. After a filter such as \<open>tag in 4,7\<close> was
  turned into SQL its numbers are freed memory, which \<open>expr_fmt\<close> reads when the filter is reported.
\<close>

theorem sql_taglist_frees:
  assumes "off + len \<le> length m"
  shows "\<exists>n m'. sql_taglist query m off len (map V_num ns) freed w = Some (n, m', freed @ ns, w)"
proof -
  have l: "tags2id_loop (map V_num ns) ids used b = Some (ids @ map Shared ns, Some (used, b))" for ids used b
    by (induction ns arbitrary: ids) (simp_all add: add_val_def)
  have s: "shared_nums (map Shared ns) = ns" by (induction ns) simp_all
  obtain r where "idlist_loop True (map Shared ns) 0 (replicate SQL_LEN NUL) = Some r"
    using idlist_loop_ok [of 0 "replicate SQL_LEN NUL" True "map Shared ns"] by auto
  then have "sql_idlist (map Shared ns) = Some (map_option (\<lambda>sbuf. cstr sbuf 0) r)" by (simp add: sql_idlist_def)
  moreover have "\<exists>n m'. snprintf m off len t = Some (n, m')" for t
    using snprintf_within [OF assms] by blast
  ultimately show ?thesis
    using l s by (cases r) (auto simp: sql_taglist_def sql_tags2id_def with_state_def Let_def)
qed

theorem sql_taglist_frees_witness:
  "\<exists>n m'. sql_taglist (\<lambda>q w. None) (replicate 100 NUL) 0 100 [V_num 4, V_num 7] [] () = Some (n, m', [4, 7], ())"
  using sql_taglist_frees [of 0 100 "replicate 100 NUL" "\<lambda>q w. None" "[4, 7]" "[]" "()"] by simp

text \<open>
  The table row for a tag compared with a number has no column: the condition it prints starts with
  the text of a \<open>NULL\<close> pointer, so a filter such as \<open>tag = 4\<close>, which the parser accepts, never becomes a
  condition on tags.
\<close>

theorem sql_tag_number:
  "sql_valtest query m off len \<lparr>vfield = vf_tag, vop = vo_eq, vval = V_num n\<rparr> freed w =
     with_state freed w (snprintf m off len (''(null) = '' @ fmt_d n))"
  by (simp add: sql_valtest_def find_fmt_def sql_valtestfmt_def run_fmt_def sql_vt_num_def fmt_s_def null_text_def)

end
