(* ===== verification/Queue.thy ===== *)
theory Queue
  imports User
begin

text \<open>
  The play queue and the play history (\<open>src/pgdb/queue.c\<close>, \<open>history.c\<close>). The converters look up the
  user and the track by further queries. The hooks \<open>queue_func_*\<close> are arguments.
\<close>

section \<open>The queue\<close>

record queue =
  qu_id :: int
  qu_track :: track
  qu_user :: user
  qu_queued :: int

text \<open>A column read in the middle of a converter that sends queries.\<close>

definition getfield_w :: "pgres \<Rightarrow> string \<Rightarrow> 'w \<Rightarrow> (int \<Rightarrow> ('a option \<times> 'w) option) \<Rightarrow> ('a option \<times> 'w) option" where
  "getfield_w res n w k = (if PQfnumber res n = - 1 then Some (None, w) else k (PQfnumber res n))"

definition queue_convert :: "'w query \<Rightarrow> ('w, queue) db_convert" where
  "queue_convert query res tup w =
     (if tup \<ge> PQntuples res then Some (None, w)
      else getfield_w res ''qid'' w (\<lambda>f. do {
        i \<leftarrow> pgint res tup f;
        getfield_w res ''user_id'' w (\<lambda>f. do {
        uid \<leftarrow> pgint res tup f;
        getfield_w res ''queued'' w (\<lambda>f. do {
        qd \<leftarrow> pgint res tup f;
        (u, w) \<leftarrow> user_get query uid w;
        (case u of None \<Rightarrow> Some (None, w)
         | Some u \<Rightarrow> do {
             (t, w) \<leftarrow> (if PQfnumber res ''file_id'' \<noteq> - 1
                        then do { tid \<leftarrow> pgint res tup (PQfnumber res ''file_id''); track_get query tid w }
                        else map_option (\<lambda>t. (t, w)) (track_convert res tup));
             Some (case t of None \<Rightarrow> None
               | Some t \<Rightarrow> Some \<lparr>qu_id = i, qu_track = t, qu_user = u, qu_queued = qd\<rparr>, w) }) }) }) }))"

definition queue_select :: string where
  "queue_select = ''SELECT id AS qid,file_id,time2unix(added) as queued,user_id FROM mserv_queue ''"

definition queue_get :: "'w query \<Rightarrow> int \<Rightarrow> 'w \<Rightarrow> (queue option \<times> 'w) option" where
  "queue_get query i w =
     do { (res, w) \<leftarrow> query (queue_select @ ''WHERE id = '' @ fmt_d i) w;
          (case tuples_ok res of None \<Rightarrow> Some (None, w) | Some r \<Rightarrow> queue_convert query r 0 w) }"

definition queue_fetch :: "'w query \<Rightarrow> ('w, queue) hook \<Rightarrow> 'w \<Rightarrow> (queue option \<times> 'w) option" where
  "queue_fetch query queue_func_fetch w =
     do { (res, w) \<leftarrow> query (queue_select @ ''ORDER BY id LIMIT 1'') w;
          (case tuples_ok res of None \<Rightarrow> Some (None, w)
           | Some r \<Rightarrow> do {
               (q, w) \<leftarrow> queue_convert query r 0 w;
               (case q of None \<Rightarrow> Some (None, w)
                | Some q \<Rightarrow> do {
                    (res, w) \<leftarrow> query (''DELETE FROM mserv_queue WHERE id ='' @ fmt_d (qu_id q)) w;
                    w \<leftarrow> call_hook queue_func_fetch q w;
                    Some (Some q, w) }) }) }"

definition queue_list :: "'w query \<Rightarrow> 'w \<Rightarrow> (('w, queue) it_db option \<times> 'w) option" where
  "queue_list query w = db_iterate query (queue_convert query)
     (''SELECT q.id AS qid,time2unix(q.added) as queued,q.user_id, t.* FROM mserv_queue q '' @
      ''INNER JOIN mserv_track t ON t.id = q.file_id ORDER BY q.id'') w"

definition queue_add :: "'w query \<Rightarrow> ('w, queue) hook \<Rightarrow> int \<Rightarrow> int \<Rightarrow> 'w \<Rightarrow> (int \<times> 'w) option" where
  "queue_add query queue_func_add trackid uid w =
     do { (qid, w) \<leftarrow> db_nextval query ''mserv_queue_id_seq'' w;
          if qid < 0 then Some (- 1, w) else do {
          (res, w) \<leftarrow> query (''INSERT INTO mserv_queue(id, file_id, user_id) VALUES( '' @ fmt_d qid @ '', '' @
            fmt_d trackid @ '', '' @ fmt_d uid @ '' )'') w;
          if \<not> command_ok res then Some (- 1, w) else
          (case queue_func_add of
             None \<Rightarrow> Some (qid, w)
           | Some f \<Rightarrow> do {
               (q, w) \<leftarrow> queue_get query qid w;
               w \<leftarrow> (case q of None \<Rightarrow> Some w | Some q \<Rightarrow> f q w);
               Some (qid, w) }) } }"

text \<open>
  The result of \<open>queue_del\<close> and \<open>queue_clear\<close> is 0 for success and 1 for failure. The test
  \<open>if( ! PQcmdTuples(res))\<close> of \<open>queue_del\<close> is one of a pointer that is never \<open>NULL\<close>.
\<close>

definition queue_del :: "'w query \<Rightarrow> ('w, queue) hook \<Rightarrow> int \<Rightarrow> int \<Rightarrow> 'w \<Rightarrow> (int \<times> 'w) option" where
  "queue_del query queue_func_del queueid uid w =
     do { (q, w) \<leftarrow> (case queue_func_del of None \<Rightarrow> Some (None, w) | Some _ \<Rightarrow> queue_get query queueid w);
          (res, w) \<leftarrow> query (if uid \<noteq> 0
              then ''DELETE FROM mserv_queue WHERE id = '' @ fmt_d queueid @ '' and user_id = '' @ fmt_d uid
              else ''DELETE FROM mserv_queue WHERE id = '' @ fmt_d queueid) w;
          if \<not> command_ok res then Some (1, w) else do {
          w \<leftarrow> (case (queue_func_del, q) of (Some f, Some q) \<Rightarrow> f q w | _ \<Rightarrow> Some w);
          Some (0, w) } }"

definition queue_clear :: "'w query \<Rightarrow> ('w \<Rightarrow> 'w option) option \<Rightarrow> 'w \<Rightarrow> (int \<times> 'w) option" where
  "queue_clear query queue_func_clear w =
     do { (res, w) \<leftarrow> query ''DELETE FROM mserv_queue'' w;
          if \<not> command_ok res then Some (1, w) else do {
          w \<leftarrow> (case queue_func_clear of None \<Rightarrow> Some w | Some f \<Rightarrow> f w);
          Some (0, w) } }"

definition queue_sum :: "'w query \<Rightarrow> 'w \<Rightarrow> (int \<times> 'w) option" where
  "queue_sum query w =
     do { (res, w) \<leftarrow> query (''SELECT SUM(time2unix(f.duration)) FROM mserv_queue q '' @
            ''INNER JOIN stor_file f ON q.file_id = f.id'') w;
          (case tuples_ok res of
             None \<Rightarrow> Some (- 1, w)
           | Some r \<Rightarrow> if PQntuples r = 1 then do { s \<leftarrow> pgint r 0 0; Some (s, w) } else Some (0, w)) }"

section \<open>The history\<close>

record history =
  hi_played :: int
  hi_user :: user
  hi_track :: track

definition random_cache_update :: "'w query \<Rightarrow> int \<Rightarrow> int \<Rightarrow> 'w \<Rightarrow> (int \<times> 'w) option" where
  "random_cache_update query i lplay w =
     db_command query (''UPDATE juke_cache SET lplay = '' @ fmt_d lplay @ '' WHERE id = '' @ fmt_d i) w"

text \<open>\<open>now\<close> is a \<open>time_t\<close> passed for \<open>%d\<close>: the low 32 bits are printed.\<close>

definition history_add :: "'w query \<Rightarrow> 'w libc \<Rightarrow> track \<Rightarrow> int \<Rightarrow> bool \<Rightarrow> 'w \<Rightarrow> (int \<times> 'w) option" where
  "history_add query C t uid completed w =
     (case c_time C w of (now, w) \<Rightarrow>
        do { (res, w) \<leftarrow> query (''INSERT INTO mserv_hist(file_id, user_id, added, completed) VALUES( '' @
               fmt_d (tr_id t) @ '', '' @ fmt_d uid @ '', unix2time('' @ fmt_d (c_int now) @ ''), '' @
               (if completed then ''true'' else ''false'') @ '' )'') w;
             if \<not> command_ok res then Some (1, w) else do {
             (r, w) \<leftarrow> random_cache_update query (tr_id t) (c_int now) w;
             Some (0, w) } })"

definition history_convert :: "'w query \<Rightarrow> ('w, history) db_convert" where
  "history_convert query res tup w =
     (if tup \<ge> PQntuples res then Some (None, w)
      else getfield_w res ''played'' w (\<lambda>f. do {
        p \<leftarrow> pgint res tup f;
        getfield_w res ''user_id'' w (\<lambda>f. do {
        uid \<leftarrow> pgint res tup f;
        (u, w) \<leftarrow> user_get query uid w;
        (case u of None \<Rightarrow> Some (None, w)
         | Some u \<Rightarrow> do {
             t \<leftarrow> track_convert res tup;
             Some (case t of None \<Rightarrow> None | Some t \<Rightarrow> Some \<lparr>hi_played = p, hi_user = u, hi_track = t\<rparr>, w) }) }) }))"

definition history_list :: "'w query \<Rightarrow> int \<Rightarrow> 'w \<Rightarrow> (('w, history) it_db option \<times> 'w) option" where
  "history_list query num w = db_iterate query (history_convert query)
     (''SELECT t.*,time2unix(h.added) AS played,h.user_id FROM ( SELECT * FROM mserv_hist '' @
      ''ORDER BY added DESC LIMIT '' @ fmt_d num @
      '' ) AS h INNER JOIN mserv_track t ON t.id = h.file_id ORDER BY h.added '') w"

definition history_tracklist :: "'w query \<Rightarrow> int \<Rightarrow> int \<Rightarrow> 'w \<Rightarrow> (('w, history) it_db option \<times> 'w) option" where
  "history_tracklist query trackid num w = db_iterate query (history_convert query)
     (''SELECT t.*,time2unix(h.added) AS played,h.user_id FROM ( SELECT * FROM mserv_hist WHERE file_id = '' @
      fmt_d trackid @ '' ORDER BY added DESC LIMIT '' @ fmt_d num @
      '' ) AS h INNER JOIN mserv_track t ON t.id = h.file_id ORDER BY h.added DESC '') w"

end
