(* ===== verification/Randomplay.thy ===== *)
theory Randomplay
  imports Sqlfilter Queue
begin

text \<open>
  The random play list (\<open>src/pgdb/random.c\<close>) and the filtered search (\<open>tracks_searchf\<close> of
  \<open>src/pgdb/track.c\<close>). The static \<open>filter\<close> is a field of the state, which extends the one of the
  database core.
\<close>

record 'd rndst = "'d dbst" +
  rfilter :: "expr option"

definition WHERE_LEN :: nat where "WHERE_LEN = 4096"

text \<open>
  The condition in the array \<open>where\<close>, which starts as the empty string: the C string it holds after
  \<open>sql_expr\<close>, whose result is ignored.
\<close>

definition sql_where :: "'w query \<Rightarrow> expr \<Rightarrow> 'w \<Rightarrow> (string \<times> 'w) option" where
  "sql_where query filt w =
     do { (n, m, freed, w) \<leftarrow> sql_expr query (replicate WHERE_LEN NUL) 0 WHERE_LEN filt [] w;
          Some (cstr m 0, w) }"

definition fill_cache :: "'w query \<Rightarrow> expr option \<Rightarrow> 'w \<Rightarrow> (int \<times> 'w) option" where
  "fill_cache query filt w =
     do { (cond, w) \<leftarrow> (case filt of None \<Rightarrow> Some ([], w) | Some e \<Rightarrow> sql_where query e w);
          db_command query (''INSERT INTO juke_cache SELECT id, lplay, filename FROM mserv_track t '' @
            (if cond \<noteq> [] then ''WHERE '' @ cond else [])) w }"

definition create_cache :: "'w query \<Rightarrow> 'w \<Rightarrow> (int \<times> 'w) option" where
  "create_cache query w =
     do { (res, w) \<leftarrow> query ''CREATE TEMP TABLE juke_cache (id INTEGER,lplay INTEGER,filename VARCHAR)'' w;
          Some (if command_ok res then 0 else 1, w) }"

definition random_init :: "'w query \<Rightarrow> 'w \<Rightarrow> (int \<times> 'w) option" where
  "random_init query w = create_cache query w"

type_synonym 'w notify = "('w \<Rightarrow> 'w option) option"

definition notify :: "'w notify \<Rightarrow> 'w \<Rightarrow> 'w option" where
  "notify h w = (case h of None \<Rightarrow> Some w | Some f \<Rightarrow> f w)"

text \<open>The second half of \<open>random_setfilter\<close>, once a cache was filled.\<close>

definition setfilter_done :: "('d, 'z) rndst_scheme query \<Rightarrow> ('d, 'z) rndst_scheme notify \<Rightarrow> ('d, 'z) rndst_scheme
    \<Rightarrow> (int \<times> ('d, 'z) rndst_scheme) option" where
  "setfilter_done query random_func_filter w =
     do { w \<leftarrow> notify random_func_filter w;
          (res, w) \<leftarrow> query ''CREATE INDEX juke_cache_idx ON juke_cache(id)'' w;
          Some (0, w) }"

definition random_setfilter :: "('d, 'z) rndst_scheme query \<Rightarrow> ('d, 'z) rndst_scheme notify \<Rightarrow> expr option
    \<Rightarrow> ('d, 'z) rndst_scheme \<Rightarrow> (int \<times> ('d, 'z) rndst_scheme) option" where
  "random_setfilter query random_func_filter filt w =
     do { (res, w) \<leftarrow> query ''DROP TABLE juke_cache'' w;
          let w = w\<lparr>rfilter := None\<rparr>;
          (rc, w) \<leftarrow> create_cache query w;
          if rc \<noteq> 0 then Some (1, w) else do {
          (rc, w) \<leftarrow> fill_cache query filt w;
          if rc \<noteq> 0 then
            (if filt = None then Some (1, w)
             else do {
               (rc, w) \<leftarrow> fill_cache query None (w\<lparr>rfilter := None\<rparr>);
               if rc \<noteq> 0 then Some (1, w) else setfilter_done query random_func_filter w })
          else setfilter_done query random_func_filter (w\<lparr>rfilter := filt\<rparr>) } }"

definition random_filterstat :: "'w query \<Rightarrow> 'w \<Rightarrow> (int \<times> 'w) option" where
  "random_filterstat query w =
     do { (res, w) \<leftarrow> query ''SELECT count(*) FROM juke_cache'' w;
          (case tuples_ok res of
             None \<Rightarrow> Some (- 1, w)
           | Some r \<Rightarrow> do { n \<leftarrow> pgint r 0 0; Some (n, w) }) }"

definition random_filter :: "('d, 'z) rndst_scheme \<Rightarrow> expr option" where
  "random_filter w = rfilter w"

definition random_top :: "'w query \<Rightarrow> int \<Rightarrow> 'w \<Rightarrow> (('w, track) it_db option \<times> 'w) option" where
  "random_top query num w = db_iterate query (pure_conv track_convert)
     (''SELECT t.*, c.lplay FROM ( SELECT * FROM juke_cache ORDER by lplay LIMIT '' @ fmt_d num @
      '' ) AS c INNER JOIN mserv_track t ON t.id = c.id '' @
      ''ORDER BY c.lplay, LOWER(album_artist_name), LOWER(album_name), album_pos'') w"

text \<open>
  The row \<open>random_fetch\<close> picks from \<open>n\<close>: \<open>(double)abs( (double)random() + random() - RAND_MAX ) / RAND_MAX * n\<close>.
\<close>

definition random_pick :: "int \<Rightarrow> int \<Rightarrow> int \<Rightarrow> int" where
  "random_pick r1 r2 n = rand_scale \<bar>r1 + r2 - RAND_MAX\<bar> n"

text \<open>C division truncates towards zero.\<close>

definition c_div :: "int \<Rightarrow> int \<Rightarrow> int" where
  "c_div a b = (if (a < 0) = (b < 0) then \<bar>a\<bar> div \<bar>b\<bar> else - (\<bar>a\<bar> div \<bar>b\<bar>))"

definition random_fetch :: "'w query \<Rightarrow> 'w libc \<Rightarrow> 'w \<Rightarrow> (track option \<times> 'w) option" where
  "random_fetch query C w =
     do { (st, w) \<leftarrow> random_filterstat query w;
          let num = (let k = c_div st 3 in if k < 1 then 1 else k);
          (res, w) \<leftarrow> query (''SELECT id FROM juke_cache ORDER BY lplay LIMIT '' @ fmt_d num) w;
          (case tuples_ok res of
             None \<Rightarrow> Some (None, w)
           | Some r \<Rightarrow>
               (case c_random C w of (r1, w) \<Rightarrow> case c_random C w of (r2, w) \<Rightarrow>
                do { i \<leftarrow> pgint r (random_pick r1 r2 (PQntuples r)) 0; track_get query i w })) }"

definition tracks_searchf :: "'w query \<Rightarrow> expr \<Rightarrow> 'w \<Rightarrow> (('w, track) it_db option \<times> 'w) option" where
  "tracks_searchf query filt w =
     do { (cond, w) \<leftarrow> sql_where query filt w;
          if cond = [] then Some (None, w)
          else db_iterate query (pure_conv track_convert)
            (''SELECT * FROM mserv_track t WHERE '' @ cond @
             '' ORDER BY LOWER(album_artist_name), LOWER(album_name), album_pos'') w }"

section \<open>The pick\<close>

lemma rand_scale_range: "0 \<le> r \<Longrightarrow> r \<le> RAND_MAX \<Longrightarrow> 0 \<le> n \<Longrightarrow> 0 \<le> rand_scale r n \<and> rand_scale r n \<le> n"
proof -
  assume a: "0 \<le> r" "r \<le> RAND_MAX" "0 \<le> n"
  then have "r * n \<le> n * RAND_MAX" using mult_right_mono [of r RAND_MAX n] by (simp add: mult.commute)
  then have "r * n div RAND_MAX \<le> n * RAND_MAX div RAND_MAX" by (intro zdiv_mono1) simp_all
  then show ?thesis using a by (simp add: rand_scale_def pos_imp_zdiv_nonneg_iff)
qed

text \<open>
  C30: The row \<open>random_fetch\<close> picks from \<open>n\<close> rows is never negative and never behind the last row, except
  that it is row \<open>n\<close>, one too far, when both random numbers are 0 or both are \<open>RAND_MAX\<close>.
\<close>

theorem random_pick_range:
  assumes "0 \<le> r1" "r1 \<le> RAND_MAX" "0 \<le> r2" "r2 \<le> RAND_MAX" "0 < n"
  shows "0 \<le> random_pick r1 r2 n \<and> random_pick r1 r2 n \<le> n \<and>
    (random_pick r1 r2 n = n \<longleftrightarrow> r1 = 0 \<and> r2 = 0 \<or> r1 = RAND_MAX \<and> r2 = RAND_MAX)"
proof -
  let ?k = "\<bar>r1 + r2 - RAND_MAX\<bar>"
  have k: "0 \<le> ?k" "?k \<le> RAND_MAX" using assms by auto
  have "rand_scale ?k n = n \<longleftrightarrow> ?k = RAND_MAX"
  proof
    assume "rand_scale ?k n = n"
    then have "RAND_MAX * n \<le> ?k * n"
      using div_mult_mod_eq [of "?k * n" RAND_MAX] pos_mod_sign [of RAND_MAX "?k * n"]
      by (simp add: rand_scale_def)
    then show "?k = RAND_MAX" using k assms(5) by simp
  next
    assume "?k = RAND_MAX"
    then show "rand_scale ?k n = n" by (simp add: rand_scale_def)
  qed
  moreover have "?k = RAND_MAX \<longleftrightarrow> r1 = 0 \<and> r2 = 0 \<or> r1 = RAND_MAX \<and> r2 = RAND_MAX"
    using assms by auto
  ultimately show ?thesis using rand_scale_range [OF k] assms(5) by (simp add: random_pick_def)
qed

theorem random_pick_range_witness:
  "random_pick 5 2147483640 10 = 0 \<and> random_pick 0 0 10 = 10 \<and> random_pick 2147483647 2147483647 7 = 7"
  using random_pick_range [of 0 0 10] random_pick_range [of 5 2147483640 10] random_pick_range [of RAND_MAX RAND_MAX 7]
  by (simp add: random_pick_def rand_scale_def)

section \<open>Setting the filter\<close>

lemma sql_where_keeps: "keeps I query \<Longrightarrow> I w \<Longrightarrow> sql_where query e w = Some (c, w') \<Longrightarrow> I w'"
  using sql_expr_keeps [of I query w] by (fastforce simp: sql_where_def skeeps_def bind_eq_Some_conv)

lemma db_command_keeps: "keeps I query \<Longrightarrow> I w \<Longrightarrow> db_command query q w = Some (rc, w') \<Longrightarrow> I w'"
  by (auto simp: db_command_def keeps_def bind_eq_Some_conv)

lemma fill_cache_keeps: "keeps I query \<Longrightarrow> I w \<Longrightarrow> fill_cache query filt w = Some (rc, w') \<Longrightarrow> I w'"
proof -
  assume k: "keeps I query" and i: "I w" and c: "fill_cache query filt w = Some (rc, w')"
  obtain cond w1 where 1: "(case filt of None \<Rightarrow> Some ([], w) | Some e \<Rightarrow> sql_where query e w) = Some (cond, w1)"
    and 2: "db_command query (''INSERT INTO juke_cache SELECT id, lplay, filename FROM mserv_track t '' @
            (if cond \<noteq> [] then ''WHERE '' @ cond else [])) w1 = Some (rc, w')"
    using c by (auto simp: fill_cache_def bind_eq_Some_conv)
  have "I w1" using 1 i sql_where_keeps [OF k i] by (auto split: option.splits)
  from db_command_keeps [OF k this 2] show ?thesis .
qed

lemma create_cache_keeps: "keeps I query \<Longrightarrow> I w \<Longrightarrow> create_cache query w = Some (rc, w') \<Longrightarrow> I w'"
  by (auto simp: create_cache_def keeps_def bind_eq_Some_conv)

lemma setfilter_done_keeps:
  assumes "keeps I query" "I w" "\<And>g w w'. hook = Some g \<Longrightarrow> g w = Some w' \<Longrightarrow> I w \<Longrightarrow> I w'"
    and "setfilter_done query hook w = Some (rc, w')"
  shows "I w' \<and> rc = 0"
proof -
  obtain w1 res where "notify hook w = Some w1" "query ''CREATE INDEX juke_cache_idx ON juke_cache(id)'' w1 = Some (res, w')" "rc = 0"
    using assms(4) by (auto simp: setfilter_done_def bind_eq_Some_conv)
  moreover then have "I w1" using assms(2,3) by (auto simp: notify_def split: option.splits)
  ultimately show ?thesis using assms(1) by (auto simp: keeps_def)
qed



end
