(* ===== verification/Sqlsafe.thy ===== *)
theory Sqlsafe
  imports Randomplay
begin

text \<open>
  What the statements of \<open>src/pgdb/*.c\<close> look like to the server: every operation that takes a text
  from a client sends statements in which an SQL reader finds that text, whole, as a literal, and no
  literal the program did not intend. The statements an operation sends are collected by running it on
  a query function that keeps them (\<open>log_query\<close>).
\<close>

section \<open>The literals of a statement\<close>

lemma sql_literal_shorter: "sql_literal s = Some (t, r) \<Longrightarrow> length r < length s"
  by (induction s arbitrary: t r rule: sql_literal.induct) (auto split: if_splits)

function sql_lits :: "string \<Rightarrow> string list option" where
  "sql_lits [] = Some []"
| "sql_lits (c # s) =
     (if c = SQUOTE then
        (case sql_literal s of None \<Rightarrow> None | Some (t, r) \<Rightarrow> map_option ((#) t) (sql_lits r))
      else sql_lits s)"
  by pat_completeness auto
termination
  by (relation "measure length") (auto dest: sql_literal_shorter)

lemma sql_lits_text: "SQUOTE \<notin> set p \<Longrightarrow> sql_lits (p @ r) = sql_lits r"
  by (induction p) auto

lemma sql_lits_quoted: "r = [] \<or> hd r \<noteq> SQUOTE \<Longrightarrow>
    sql_lits (quoted (db_escape s) @ r) = map_option ((#) s) (sql_lits r)"
  using sql_literal_esc [of r s] by (simp add: quoted_def db_escape_esc)

lemma esc_id: "SQUOTE \<notin> set s \<Longrightarrow> db_escape s = s"
  by (simp add: db_escape_def)

lemma sql_lits_plain: "SQUOTE \<notin> set s \<Longrightarrow> r = [] \<or> hd r \<noteq> SQUOTE \<Longrightarrow>
    sql_lits (quoted s @ r) = map_option ((#) s) (sql_lits r)"
  using sql_lits_quoted [of r s] by (simp add: esc_id)

lemma fmt_d_no_quote [simp]: "SQUOTE \<notin> set (fmt_d i)"
proof -
  have "\<not> digit SQUOTE" by (simp add: isdigit_def schar_def)
  then have "SQUOTE \<notin> set (dec n)" for n using dec_digits [of n] by blast
  then show ?thesis by (simp add: fmt_d_def)
qed

lemma quoted_end: "quoted s = quoted s @ []"
  by simp

section \<open>The statements an operation sends\<close>

definition log_query :: "'w query \<Rightarrow> ('w \<times> string list) query" where
  "log_query query q wl =
     (case query q (fst wl) of None \<Rightarrow> None | Some (r, w) \<Rightarrow> Some (r, (w, snd wl @ [q])))"

definition lits_in :: "string set \<Rightarrow> string \<Rightarrow> bool" where
  "lits_in A t \<longleftrightarrow> (\<exists>ls. sql_lits t = Some ls \<and> set ls \<subseteq> A)"

definition sends :: "(string \<Rightarrow> bool) \<Rightarrow> (('w \<times> string list) query \<Rightarrow> 'w \<times> string list \<Rightarrow> ('a \<times> 'w \<times> string list) option) \<Rightarrow> bool" where
  "sends P f \<longleftrightarrow> (\<forall>query w l r w' l'. f (log_query query) (w, l) = Some (r, w', l') \<longrightarrow>
     (\<exists>k. l' = l @ k \<and> list_all P k))"

lemma sends_query: "P t \<Longrightarrow> sends P (\<lambda>q. q t)"
  by (auto simp: sends_def log_query_def split: option.splits)

lemma sends_bind:
  assumes "sends P f" "\<And>x. sends P (\<lambda>q. g x q)"
  shows "sends P (\<lambda>q w. f q w \<bind> (\<lambda>(x, w). g x q w))"
  unfolding sends_def
proof (intro allI impI)
  fix query w l r w' l'
  assume "f (log_query query) (w, l) \<bind> (\<lambda>(x, w). g x (log_query query) w) = Some (r, w', l')"
  then obtain x w1 l1 where 1: "f (log_query query) (w, l) = Some (x, w1, l1)"
      "g x (log_query query) (w1, l1) = Some (r, w', l')"
    by (auto simp: bind_eq_Some_conv)
  obtain k1 where k1: "l1 = l @ k1" "list_all P k1"
    using assms(1) 1(1) by (fastforce simp: sends_def)
  obtain k2 where k2: "l' = l1 @ k2" "list_all P k2"
    using assms(2) [of x] 1(2) by (fastforce simp: sends_def)
  from k1 k2 show "\<exists>k. l' = l @ k \<and> list_all P k"
    by (intro exI [of _ "k1 @ k2"]) simp
qed

lemma sends_return: "sends P (\<lambda>q w. Some (x, w))"
  by (auto simp: sends_def)

lemma sends_map: "sends P (\<lambda>q w. map_option (\<lambda>x. (x, w)) v)"
  by (auto simp: sends_def)

lemma sends_value: "(\<And>x. sends P (\<lambda>q w. g x q w)) \<Longrightarrow> sends P (\<lambda>q w. v \<bind> (\<lambda>x. g x q w))"
  by (cases v) (auto simp: sends_def)

lemma sends_if: "sends P f \<Longrightarrow> sends P g \<Longrightarrow> sends P (\<lambda>q w. if b then f q w else g q w)"
  by (cases b) auto

lemma sends_case: "sends P f \<Longrightarrow> (\<And>x. sends P (\<lambda>q w. g x q w)) \<Longrightarrow>
    sends P (\<lambda>q w. case v of None \<Rightarrow> f q w | Some x \<Rightarrow> g x q w)"
  by (cases v) auto

lemmas sends_rules = sends_query sends_bind sends_return sends_map sends_value sends_if sends_case

lemma sends_command: "P t \<Longrightarrow> sends P (\<lambda>q. db_command q t)"
  unfolding db_command_def by (intro sends_rules)

lemma sends_iterate: "P t \<Longrightarrow> sends P (\<lambda>q. db_iterate q conv t)"
  unfolding db_iterate_def by (intro sends_rules)

lemma sends_get_one: "P t \<Longrightarrow> sends P (\<lambda>q. db_get_one q conv t)"
  unfolding db_get_one_def by (intro sends_rules)

lemma sends_get_id: "P t \<Longrightarrow> sends P (\<lambda>q. db_get_id q t)"
  unfolding db_get_id_def by (intro sends_rules)

lemma sends_nextval: "P (''SELECT nextval('' @ quoted sq @ '')'') \<Longrightarrow> sends P (\<lambda>q. db_nextval q sq)"
  unfolding db_nextval_def by (intro sends_rules)

lemma lits_seq: "SQUOTE \<notin> set sq \<Longrightarrow> sq \<in> A \<Longrightarrow> lits_in A (''SELECT nextval('' @ quoted sq @ '')'')"
  by (simp add: lits_in_def sql_lits_text sql_lits_plain)

text \<open>A statement with one literal, or with none.\<close>

lemma lits_one: "SQUOTE \<notin> set p \<Longrightarrow> SQUOTE \<notin> set r \<Longrightarrow> s \<in> A \<Longrightarrow> lits_in A (p @ quoted (db_escape s) @ r)"
  using sql_lits_text [of r "[]"] sql_lits_quoted [of r s]
  by (cases r) (auto simp: lits_in_def sql_lits_text)

lemma lits_last: "SQUOTE \<notin> set p \<Longrightarrow> s \<in> A \<Longrightarrow> lits_in A (p @ quoted (db_escape s))"
  using lits_one [of p "[]" s A] by simp

lemma escape_percent: "''%'' @ db_escape s @ ''%'' = db_escape (''%'' @ s @ ''%'')"
  by (simp add: db_escape_esc esc_def)

lemma lits_like: "SQUOTE \<notin> set p \<Longrightarrow> SQUOTE \<notin> set r \<Longrightarrow> ''%'' @ s @ ''%'' \<in> A \<Longrightarrow>
    lits_in A (p @ quoted (''%'' @ db_escape s @ ''%'') @ r)"
  unfolding escape_percent by (rule lits_one)

section \<open>Properties\<close>


text \<open>The statements of \<open>artist_merge\<close> behind \<open>BEGIN\<close>, and a run of them that stops at the first failure.\<close>

definition merge_steps :: "int \<Rightarrow> int \<Rightarrow> string list" where
  "merge_steps fromid toid =
     [''UPDATE stor_file SET artist_id = '' @ fmt_d toid @ '' WHERE artist_id = '' @ fmt_d fromid,
      ''UPDATE mus_album SET artist_id = '' @ fmt_d toid @ '' WHERE artist_id = '' @ fmt_d fromid,
      ''DELETE FROM mus_artist WHERE id = '' @ fmt_d fromid,
      ''COMMIT'']"

fun merge_run :: "'w query \<Rightarrow> string list \<Rightarrow> 'w \<Rightarrow> (int \<times> 'w) option" where
  "merge_run query [] w = Some (0, w)"
| "merge_run query (s # ss) w =
     do { (res, w) \<leftarrow> query s w; if \<not> command_ok res then merge_rollback query w else merge_run query ss w }"

lemma artist_merge_run: "artist_merge query fromid toid w =
    do { (res, w) \<leftarrow> query ''BEGIN'' w;
         if \<not> command_ok res then Some (- 1, w) else merge_run query (merge_steps fromid toid) w }"
  unfolding artist_merge_def merge_steps_def merge_run.simps by (rule refl)

lemma log_query_step: "log_query query q (w, l) = Some (r, w', l') \<Longrightarrow> l' = l @ [q]"
  by (auto simp: log_query_def split: option.splits)

lemma merge_rollback_log: "merge_rollback (log_query query) (w, l) = Some (rc, w', l') \<Longrightarrow>
    rc = 1 \<and> l' = l @ [''ROLLBACK'']"
  by (auto simp: merge_rollback_def bind_eq_Some_conv dest: log_query_step)

lemma merge_run_log: "merge_run (log_query query) ss (w, l) = Some (rc, w', l') \<Longrightarrow>
    rc = 0 \<and> l' = l @ ss \<or> rc = 1 \<and> (\<exists>k. 1 \<le> k \<and> k \<le> length ss \<and> l' = l @ take k ss @ [''ROLLBACK''])"
proof (induction ss arbitrary: w l)
  case (Cons s ss)
  then obtain r w1 where q: "log_query query s (w, l) = Some (r, w1, l @ [s])"
    and rest: "(if \<not> command_ok r then merge_rollback (log_query query) (w1, l @ [s])
      else merge_run (log_query query) ss (w1, l @ [s])) = Some (rc, w', l')"
    using log_query_step by (fastforce simp: bind_eq_Some_conv)
  show ?case
  proof (cases "command_ok r")
    case False
    with rest merge_rollback_log [of query w1 "l @ [s]" rc w' l'] have "rc = 1 \<and> l' = (l @ [s]) @ [''ROLLBACK'']" by simp
    then show ?thesis by (auto intro!: exI [of _ 1])
  next
    case True
    with rest have m: "merge_run (log_query query) ss (w1, l @ [s]) = Some (rc, w', l')" by simp
    consider "rc = 0 \<and> l' = (l @ [s]) @ ss"
      | k where "rc = 1" "k \<le> length ss" "l' = (l @ [s]) @ take k ss @ [''ROLLBACK'']"
      using Cons.IH [OF m] by blast
    then show ?thesis
    proof cases
      case 2
      then show ?thesis by (auto intro!: exI [of _ "Suc k"])
    qed simp
  qed
qed simp



definition is_select :: "string \<Rightarrow> bool" where
  "is_select t \<longleftrightarrow> take 7 t = ''SELECT ''"

lemma sends_get: "P t \<Longrightarrow> sends P (\<lambda>q. db_get q conv t)"
  unfolding db_get_def by (intro sends_rules)

lemma queue_convert_reads: "sends is_select (\<lambda>q. queue_convert q res tup)"
proof -
  have u: "sends is_select (\<lambda>q. user_get q uid)" for uid
    unfolding user_get_def by (intro sends_get_one) (simp add: is_select_def)
  have t: "sends is_select (\<lambda>q. track_get q tid)" for tid
    unfolding track_get_def by (intro sends_get) (simp add: is_select_def)
  show ?thesis
    unfolding queue_convert_def getfield_w_def by (intro sends_rules u t)
qed

text \<open>
  C24: \<open>queue_fetch\<close> removes exactly the entry it returns: with an entry, the last statement it sends deletes
  that entry's id, and all before it only read; without one, nothing is deleted. So an entry whose user or
  track cannot be read is never removed, and it stays at the head of the queue.
\<close>

theorem queue_fetch_deletes:
  assumes "queue_fetch (log_query query) None (w, []) = Some (r, w', l)"
  shows "case r of
      None \<Rightarrow> list_all is_select l
    | Some q \<Rightarrow> (\<exists>k. l = k @ [''DELETE FROM mserv_queue WHERE id ='' @ fmt_d (qu_id q)] \<and> list_all is_select k)"
proof -
  let ?s = "queue_select @ ''ORDER BY id LIMIT 1''"
  have s: "is_select ?s" by (simp add: is_select_def queue_select_def)
  obtain res w1 where 1: "log_query query ?s (w, []) = Some (res, w1, [?s])"
    and rest: "(case tuples_ok res of None \<Rightarrow> Some (None, w1, [?s])
      | Some x \<Rightarrow> queue_convert (log_query query) x 0 (w1, [?s]) \<bind> (\<lambda>(q, w).
          case q of None \<Rightarrow> Some (None, w)
          | Some q \<Rightarrow> log_query query (''DELETE FROM mserv_queue WHERE id ='' @ fmt_d (qu_id q)) w \<bind>
              (\<lambda>(res, w). call_hook None q w \<bind> (\<lambda>w. Some (Some q, w))))) = Some (r, w', l)"
    using assms log_query_step [of query ?s w "[]"] by (fastforce simp: queue_fetch_def bind_eq_Some_conv)
  show ?thesis
  proof (cases "tuples_ok res")
    case None
    with rest s show ?thesis by auto
  next
    case (Some x)
    then obtain q w2 l2 where 2: "queue_convert (log_query query) x 0 (w1, [?s]) = Some (q, w2, l2)"
      using rest by (auto simp: bind_eq_Some_conv)
    obtain k where k: "l2 = ?s # k" "list_all is_select k"
      using queue_convert_reads [of x 0] 2 by (fastforce simp: sends_def)
    from rest Some 2 k s show ?thesis
      by (cases q) (auto simp: bind_eq_Some_conv call_hook_def dest: log_query_step)
  qed
qed

text \<open>A server that answers every statement with one row of threes.\<close>

definition demo_threes :: "nat query" where
  "demo_threes q w = Some (Some \<lparr>PQresultStatus = PGRES_TUPLES_OK, PQntuples = 1, PQfnumber = \<lambda>n. 0,
     PQgetvalue = \<lambda>t f. Some ''3'', PQcmdTuples = []\<rparr>, w + 1)"

theorem queue_fetch_deletes_witness:
  "\<exists>q w' k. queue_fetch (log_query demo_threes) None (0, []) = Some (Some q, w', k @ [''DELETE FROM mserv_queue WHERE id =3'']) \<and>
     list_all is_select k"
proof -
  have e: "map_option (\<lambda>(r, w, l). (map_option qu_id r, w)) (queue_fetch (log_query demo_threes) None (0, [])) = Some (Some 3, 4)"
    by code_simp
  then obtain q l where q: "queue_fetch (log_query demo_threes) None (0, []) = Some (Some q, 4, l)" "qu_id q = 3"
    by auto
  have d: "fmt_d 3 = ''3''" by code_simp
  from queue_fetch_deletes [OF q(1)] q d show ?thesis by auto
qed

end
