(* ===== verification/Client.thy ===== *)
theory Client
  imports Randomplay
begin

text \<open>
  Connections (\<open>src/client.c\<close>, \<open>client.h\<close>): the structures with their reference counts, the list of
  clients and its iterators, input lines, output and broadcasts. A \<open>t_client *\<close> is an address; the state
  holds the allocated structures, and an access to an address without a structure is undefined behaviour,
  \<open>None\<close>. Addresses are not reused. The global list \<open>clients\<close> has its cursor inside, as in the code, so
  nested loops over it disturb each other.

  The kernel and the main loop of glib are the parameter \<open>netlib\<close>; the hook \<open>client_func_disconnect\<close> is
  a parameter of the operations that may free a client.
\<close>

section \<open>State\<close>

datatype protstate = p_any | p_open | p_user | p_idle

record client =
  c_sock :: int
  c_id :: int
  c_user :: "user option"
  c_sin :: string
  c_ibuf :: mem
  c_ilen :: int
  c_pstate :: protstate
  c_pdata :: "string option"
  c_ifunc :: bool
  c_refs :: int
  c_del :: int

type_synonym ptr = nat

record it_client =
  it_clients :: "ptr list"
  it_cur :: nat

text \<open>
  What the program uses of the kernel and of glib: \<open>send\<close> and its result, \<open>recv\<close> of at most the given
  number of bytes (no bytes for its results \<open>0\<close> and \<open>-1\<close>), \<open>accept\<close> with the peer's address in dotted
  form, the watch on a new socket, and the end of a connection. \<open>n_junk\<close> is what fresh memory holds;
  \<open>n_listen\<close> is whether a socket could be bound to the port, \<open>n_channel\<close> whether it got a channel,
  \<open>n_strerror\<close> the text for \<open>errno\<close>.
\<close>

record 'd netlib =
  n_send :: "int \<Rightarrow> string \<Rightarrow> 'd \<Rightarrow> int \<times> 'd"
  n_recv :: "int \<Rightarrow> nat \<Rightarrow> 'd \<Rightarrow> string \<times> 'd"
  n_accept :: "'d \<Rightarrow> (int \<times> string) \<times> 'd"
  n_watch :: "int \<Rightarrow> ptr \<Rightarrow> 'd \<Rightarrow> bool \<times> 'd"
  n_close :: "int \<Rightarrow> ptr \<Rightarrow> 'd \<Rightarrow> 'd"
  n_junk :: "'d \<Rightarrow> mem"
  n_listen :: "int \<Rightarrow> 'd \<Rightarrow> bool \<times> 'd"
  n_channel :: "'d \<Rightarrow> bool \<times> 'd"
  n_unlisten :: "'d \<Rightarrow> 'd"
  n_strerror :: "'d \<Rightarrow> string"

record 'd netst = "'d rndst" +
  heap :: "ptr \<Rightarrow> client option"
  fresh :: ptr
  clients :: it_client
  maxid :: int
  tabbuf :: mem

text \<open>\<open>tabbuf\<close> is the static \<open>buf\<close> of \<open>src/proto_fmt.c\<close>, which the replies are put together in.\<close>

type_synonym ('d, 'z) disc = "(ptr \<Rightarrow> ('d, 'z) netst_scheme \<Rightarrow> ('d, 'z) netst_scheme option) option"

definition CLIENT_BUFLEN :: nat where "CLIENT_BUFLEN = 10240"

definition put :: "ptr \<Rightarrow> client \<Rightarrow> ('d, 'z) netst_scheme \<Rightarrow> ('d, 'z) netst_scheme" where
  "put p c w = w\<lparr>heap := (heap w)(p := Some c)\<rparr>"

section \<open>References\<close>

definition client_addref :: "ptr \<Rightarrow> ('d, 'z) netst_scheme \<Rightarrow> ('d, 'z) netst_scheme option" where
  "client_addref p w = do { c \<leftarrow> heap w p; Some (put p (c\<lparr>c_refs := c_refs c + 1\<rparr>) w) }"

text \<open>The second half of \<open>client_delref\<close>: the last reference is gone.\<close>

definition client_release :: "'d netlib \<Rightarrow> ('d, 'z) disc \<Rightarrow> ptr \<Rightarrow> ('d, 'z) netst_scheme \<Rightarrow> ('d, 'z) netst_scheme option" where
  "client_release N client_func_disconnect p w =
     do { c \<leftarrow> heap w p;
          let w = put p (c\<lparr>c_del := c_del c + 1\<rparr>) w;
          w \<leftarrow> (case client_func_disconnect of None \<Rightarrow> Some w | Some f \<Rightarrow> f p w);
          c \<leftarrow> heap w p;
          Some (w\<lparr>ext := n_close N (c_sock c) p (ext w), heap := (heap w)(p := None)\<rparr>) }"

definition client_delref :: "'d netlib \<Rightarrow> ('d, 'z) disc \<Rightarrow> ptr \<Rightarrow> ('d, 'z) netst_scheme \<Rightarrow> ('d, 'z) netst_scheme option" where
  "client_delref N client_func_disconnect p w =
     do { c \<leftarrow> heap w p;
          let c = c\<lparr>c_refs := c_refs c - 1\<rparr>;
          let w = put p c w;
          if c_del c \<noteq> 0 then Some w
          else if c_refs c > 0 then Some w
          else client_release N client_func_disconnect p w }"

section \<open>Iterators\<close>

definition it_client_add :: "it_client \<Rightarrow> ptr \<Rightarrow> ('d, 'z) netst_scheme \<Rightarrow> (it_client \<times> ('d, 'z) netst_scheme) option" where
  "it_client_add it p w =
     do { w \<leftarrow> client_addref p w; Some (it\<lparr>it_clients := it_clients it @ [p]\<rparr>, w) }"

fun it_client_fill :: "(client \<Rightarrow> bool) \<Rightarrow> ptr list \<Rightarrow> it_client \<Rightarrow> ('d, 'z) netst_scheme
    \<Rightarrow> (it_client \<times> ('d, 'z) netst_scheme) option" where
  "it_client_fill func [] it w = Some (it, w)"
| "it_client_fill func (p # ps) it w =
     do { c \<leftarrow> heap w p;
          (it, w) \<leftarrow> (if \<not> func c then Some (it, w) else it_client_add it p w);
          it_client_fill func ps it w }"

definition it_client_new :: "it_client option \<Rightarrow> (client \<Rightarrow> bool) \<Rightarrow> ('d, 'z) netst_scheme
    \<Rightarrow> (it_client \<times> ('d, 'z) netst_scheme) option" where
  "it_client_new src func w =
     it_client_fill func (case src of None \<Rightarrow> [] | Some s \<Rightarrow> it_clients s) \<lparr>it_clients = [], it_cur = 0\<rparr> w"

definition it_client_cur :: "it_client \<Rightarrow> ('d, 'z) netst_scheme \<Rightarrow> (ptr option \<times> it_client \<times> ('d, 'z) netst_scheme) option" where
  "it_client_cur it w =
     (if it_cur it \<ge> length (it_clients it) then Some (None, it, w)
      else do { w \<leftarrow> client_addref (it_clients it ! it_cur it) w; Some (Some (it_clients it ! it_cur it), it, w) })"

definition it_client_begin :: "it_client \<Rightarrow> ('d, 'z) netst_scheme \<Rightarrow> (ptr option \<times> it_client \<times> ('d, 'z) netst_scheme) option" where
  "it_client_begin it w = it_client_cur (it\<lparr>it_cur := 0\<rparr>) w"

definition it_client_next :: "it_client \<Rightarrow> ('d, 'z) netst_scheme \<Rightarrow> (ptr option \<times> it_client \<times> ('d, 'z) netst_scheme) option" where
  "it_client_next it w =
     (if it_cur it \<ge> length (it_clients it) then Some (None, it, w)
      else it_client_cur (it\<lparr>it_cur := it_cur it + 1\<rparr>) w)"

fun delref_all :: "'d netlib \<Rightarrow> ('d, 'z) disc \<Rightarrow> ptr list \<Rightarrow> ('d, 'z) netst_scheme \<Rightarrow> ('d, 'z) netst_scheme option" where
  "delref_all N disc [] w = Some w"
| "delref_all N disc (p # ps) w = do { w \<leftarrow> client_delref N disc p w; delref_all N disc ps w }"

definition it_client_done :: "'d netlib \<Rightarrow> ('d, 'z) disc \<Rightarrow> it_client \<Rightarrow> ('d, 'z) netst_scheme \<Rightarrow> ('d, 'z) netst_scheme option" where
  "it_client_done N disc it w = delref_all N disc (it_clients it) w"

text \<open>The same on the global list, whose cursor is part of the state.\<close>

definition clients_begin :: "unit \<Rightarrow> ('d, 'z) netst_scheme \<Rightarrow> (ptr option \<times> unit \<times> ('d, 'z) netst_scheme) option" where
  "clients_begin u w = do { (x, it, w) \<leftarrow> it_client_begin (clients w) w; Some (x, (), w\<lparr>clients := it\<rparr>) }"

definition clients_next :: "unit \<Rightarrow> ('d, 'z) netst_scheme \<Rightarrow> (ptr option \<times> unit \<times> ('d, 'z) netst_scheme) option" where
  "clients_next u w = do { (x, it, w) \<leftarrow> it_client_next (clients w) w; Some (x, (), w\<lparr>clients := it\<rparr>) }"

text \<open>
  \<open>it_client_del(clients)\<close>: the reference goes before the entry is taken from the array. \<open>memmove\<close> runs
  only for a positive number of entries behind the cursor, and the array is one shorter afterwards.
\<close>

definition it_client_del :: "'d netlib \<Rightarrow> ('d, 'z) disc \<Rightarrow> ('d, 'z) netst_scheme \<Rightarrow> ('d, 'z) netst_scheme option" where
  "it_client_del N disc w =
     (if it_cur (clients w) \<ge> length (it_clients (clients w)) then Some w
      else do {
        w \<leftarrow> client_delref N disc (it_clients (clients w) ! it_cur (clients w)) w;
        let xs = it_clients (clients w);
        let k = it_cur (clients w);
        if xs = [] then None
        else Some (w\<lparr>clients := (clients w)\<lparr>it_clients := take (length xs - 1) (take k xs @ drop (Suc k) xs)\<rparr>\<rparr>) })"

section \<open>Closing and sending\<close>

text \<open>The bodies of the loops over the list are definitions of their own, so that they can be reasoned about.\<close>

definition close_step :: "'d netlib \<Rightarrow> ('d, 'z) disc \<Rightarrow> ptr \<Rightarrow> ptr \<Rightarrow> ('d, 'z) netst_scheme
    \<Rightarrow> (unit option \<times> ('d, 'z) netst_scheme) option" where
  "close_step N disc p i w =
     (if i = p
      then do { w \<leftarrow> it_client_del N disc w; w \<leftarrow> client_delref N disc i w; Some (Some (), w) }
      else do { w \<leftarrow> client_delref N disc i w; Some (None, w) })"

definition client_close :: "'d netlib \<Rightarrow> ('d, 'z) disc \<Rightarrow> ptr \<Rightarrow> ('d, 'z) netst_scheme \<Rightarrow> ('d, 'z) netst_scheme option" where
  "client_close N disc p w =
     do { (x, u, w) \<leftarrow> clients_begin () w;
          (r, w) \<leftarrow> for_until clients_next (close_step N disc p) x u w;
          Some w }"

definition client_send :: "'d netlib \<Rightarrow> ('d, 'z) disc \<Rightarrow> ptr \<Rightarrow> string \<Rightarrow> ('d, 'z) netst_scheme
    \<Rightarrow> (int \<times> ('d, 'z) netst_scheme) option" where
  "client_send N disc p buf w =
     (if buf = [] then Some (0, w)
      else do {
        c \<leftarrow> heap w p;
        (case n_send N (c_sock c) buf (ext w) of (n, d) \<Rightarrow>
           let w = w\<lparr>ext := d\<rparr>
           in if n \<noteq> int (length buf) then do { w \<leftarrow> client_close N disc p w; Some (- 1, w) }
              else Some (0, w)) })"

definition check_minperm :: "int \<Rightarrow> client \<Rightarrow> bool" where
  "check_minperm minperm c \<longleftrightarrow> (case c_user c of None \<Rightarrow> r_any | Some u \<Rightarrow> us_right u) \<ge> minperm"

definition check_uid :: "int \<Rightarrow> client \<Rightarrow> bool" where
  "check_uid uid c \<longleftrightarrow> (case c_user c of None \<Rightarrow> False | Some u \<Rightarrow> us_id u = uid)"

definition bcast_step :: "'d netlib \<Rightarrow> ('d, 'z) disc \<Rightarrow> string \<Rightarrow> (client \<Rightarrow> bool) \<Rightarrow> ptr \<Rightarrow> ('d, 'z) netst_scheme
    \<Rightarrow> ('d, 'z) netst_scheme option" where
  "bcast_step N disc buf func p w =
     do { c \<leftarrow> heap w p;
          w \<leftarrow> (if func c then map_option snd (client_send N disc p buf w) else Some w);
          client_delref N disc p w }"

definition client_bcast :: "'d netlib \<Rightarrow> ('d, 'z) disc \<Rightarrow> string \<Rightarrow> (client \<Rightarrow> bool) \<Rightarrow> ('d, 'z) netst_scheme
    \<Rightarrow> ('d, 'z) netst_scheme option" where
  "client_bcast N disc buf func w =
     do { (x, u, w) \<leftarrow> clients_begin () w;
          for_each clients_next (bcast_step N disc buf func) x u w }"

definition client_bcast_perm :: "'d netlib \<Rightarrow> ('d, 'z) disc \<Rightarrow> string \<Rightarrow> int \<Rightarrow> ('d, 'z) netst_scheme
    \<Rightarrow> ('d, 'z) netst_scheme option" where
  "client_bcast_perm N disc buf minperm w = client_bcast N disc buf (check_minperm minperm) w"

definition client_get :: "'d netlib \<Rightarrow> ('d, 'z) disc \<Rightarrow> int \<Rightarrow> ('d, 'z) netst_scheme
    \<Rightarrow> (ptr option \<times> ('d, 'z) netst_scheme) option" where
  "client_get N disc i w =
     do { (x, u, w) \<leftarrow> clients_begin () w;
          for_until clients_next
            (\<lambda>p w. do { c \<leftarrow> heap w p;
                        if c_id c = i then Some (Some p, w)
                        else do { w \<leftarrow> client_delref N disc p w; Some (None, w) } }) x u w }"

definition clients_list :: "('d, 'z) netst_scheme \<Rightarrow> (it_client \<times> ('d, 'z) netst_scheme) option" where
  "clients_list w = it_client_new (Some (clients w)) (\<lambda>c. True) w"

definition clients_uid :: "int \<Rightarrow> ('d, 'z) netst_scheme \<Rightarrow> (it_client \<times> ('d, 'z) netst_scheme) option" where
  "clients_uid uid w = it_client_new (Some (clients w)) (check_uid uid) w"

section \<open>Input\<close>

definition is_lb :: "char \<Rightarrow> bool" where
  "is_lb c \<longleftrightarrow> c = LF \<or> c = CR"

text \<open>
  The pointers of \<open>client_getline\<close> as offsets into \<open>ibuf\<close>: \<open>s\<close> behind the leading linebreaks, \<open>n\<close> at the next
  one, \<open>e\<close> behind all of that run. Each loop stops at the NUL that ends the string.
\<close>

definition skip_lb :: "mem \<Rightarrow> nat \<Rightarrow> nat" where
  "skip_lb b k = k + length (takeWhile is_lb (cstr b k))"

definition find_lb :: "mem \<Rightarrow> nat \<Rightarrow> nat option" where
  "find_lb b k =
     (let t = takeWhile (\<lambda>c. \<not> is_lb c) (cstr b k)
      in if length t < length (cstr b k) then Some (k + length t) else None)"

text \<open>\<open>memmove(ibuf, ibuf + n, ilen)\<close>; a negative \<open>ilen\<close> is a huge size.\<close>

definition buf_move :: "mem \<Rightarrow> nat \<Rightarrow> int \<Rightarrow> mem option" where
  "buf_move b n len =
     (if len < 0 \<or> n + nat len > length b then None
      else Some (take (nat len) (drop n b) @ drop (nat len) b))"

definition client_getline :: "'d netlib \<Rightarrow> ('d, 'z) disc \<Rightarrow> ptr \<Rightarrow> ('d, 'z) netst_scheme
    \<Rightarrow> (string option \<times> ('d, 'z) netst_scheme) option" where
  "client_getline N disc p w =
     do { c \<leftarrow> heap w p;
          if c_del c \<noteq> 0 then Some (None, w)
          else if NUL \<notin> set (c_ibuf c) then None
          else
            let s = skip_lb (c_ibuf c) 0
            in case find_lb (c_ibuf c) s of
                 None \<Rightarrow>
                   if c_ilen c \<ge> int CLIENT_BUFLEN then do {
                     (r, w) \<leftarrow> client_send N disc p (''ERROR: line too long'' @ [LF]) w;
                     w \<leftarrow> client_close N disc p w;
                     Some (None, w) }
                   else Some (None, w)
               | Some n \<Rightarrow>
                   let e = skip_lb (c_ibuf c) n;
                       b = take n (c_ibuf c) @ replicate (e - n) NUL @ drop e (c_ibuf c);
                       ilen = c_ilen c - int e
                   in do {
                     b' \<leftarrow> buf_move b e ilen;
                     Some (Some (cstr b s), put p (c\<lparr>c_ibuf := b', c_ilen := ilen\<rparr>) w) } }"

text \<open>
  \<open>client_read\<close>, the handler of a socket: \<open>has_in\<close> is \<open>cond & G_IO_IN\<close>, \<open>ifunc\<close> the function behind the
  client's \<open>ifunc\<close>; the result is whether the watch stays.
\<close>

definition client_read_err :: "'d netlib \<Rightarrow> ('d, 'z) disc \<Rightarrow> ptr \<Rightarrow> ('d, 'z) netst_scheme
    \<Rightarrow> (bool \<times> ('d, 'z) netst_scheme) option" where
  "client_read_err N disc p w =
     do { w \<leftarrow> client_delref N disc p w; w \<leftarrow> client_close N disc p w; Some (False, w) }"

definition client_read :: "'d netlib \<Rightarrow> ('d, 'z) disc \<Rightarrow> (ptr \<Rightarrow> ('d, 'z) netst_scheme \<Rightarrow> ('d, 'z) netst_scheme option)
    \<Rightarrow> bool \<Rightarrow> ptr \<Rightarrow> ('d, 'z) netst_scheme \<Rightarrow> (bool \<times> ('d, 'z) netst_scheme) option" where
  "client_read N disc ifunc has_in p w =
     do { w \<leftarrow> client_addref p w;
          if \<not> has_in then client_read_err N disc p w
          else do {
            c \<leftarrow> heap w p;
            if c_ilen c < 0 \<or> c_ilen c > int CLIENT_BUFLEN then None
            else case n_recv N (c_sock c) (CLIENT_BUFLEN - nat (c_ilen c)) (ext w) of (bytes, d) \<Rightarrow>
              let w = w\<lparr>ext := d\<rparr>
              in if bytes = [] then client_read_err N disc p w
                 else do {
                   b \<leftarrow> mem_write (nat (c_ilen c)) (bytes @ [NUL]) (c_ibuf c);
                   let w = put p (c\<lparr>c_ibuf := b, c_ilen := c_ilen c + int (length bytes)\<rparr>) w;
                   w \<leftarrow> (if c_ifunc c then ifunc p w else Some w);
                   w \<leftarrow> client_delref N disc p w;
                   Some (True, w) } } }"

definition client_accept :: "'d netlib \<Rightarrow> ('d, 'z) disc \<Rightarrow> (ptr \<Rightarrow> ('d, 'z) netst_scheme \<Rightarrow> ('d, 'z) netst_scheme option) option
    \<Rightarrow> bool \<Rightarrow> ('d, 'z) netst_scheme \<Rightarrow> (bool \<times> ('d, 'z) netst_scheme) option" where
  "client_accept N disc client_func_connect has_in w =
     (if \<not> has_in then Some (True, w)
      else case n_accept N (ext w) of ((sock, addr), d) \<Rightarrow>
        let p = fresh w; w = w\<lparr>ext := d, fresh := fresh w + 1\<rparr>
        in if sock < 0 then Some (True, w)
           else
             let c = \<lparr>c_sock = sock, c_id = maxid w + 1, c_user = None, c_sin = addr, c_ibuf = n_junk N d, c_ilen = 0,
                      c_pstate = p_open, c_pdata = None, c_ifunc = False, c_refs = 0, c_del = 0\<rparr>;
                 w = put p c (w\<lparr>maxid := maxid w + 1\<rparr>)
             in do {
               (it, w) \<leftarrow> it_client_add (clients w) p w;
               let w = w\<lparr>clients := it\<rparr>;
               (case n_watch N sock p (ext w) of (ok, d) \<Rightarrow>
                  let w = w\<lparr>ext := d\<rparr>
                  in if \<not> ok then do { w \<leftarrow> client_close N disc p w; Some (True, w) }
                     else do {
                       w \<leftarrow> (case client_func_connect of None \<Rightarrow> Some w | Some f \<Rightarrow> f p w);
                       Some (True, w) }) })"

text \<open>
  \<open>clients_done\<close> runs \<open>it_client_done\<close> on the global list: its loop counts with the cursor that the loops of
  a hook use as well.
\<close>

partial_function (option) clients_done_loop :: "'d netlib \<Rightarrow> ('d, 'z) disc \<Rightarrow> ('d, 'z) netst_scheme
    \<Rightarrow> ('d, 'z) netst_scheme option" where
  "clients_done_loop N disc w =
     (if it_cur (clients w) \<ge> length (it_clients (clients w)) then Some w
      else do {
        w \<leftarrow> client_delref N disc (it_clients (clients w) ! it_cur (clients w)) w;
        clients_done_loop N disc (w\<lparr>clients := (clients w)\<lparr>it_cur := it_cur (clients w) + 1\<rparr>\<rparr>) })"

declare clients_done_loop.simps [code]

definition clients_done :: "'d netlib \<Rightarrow> ('d, 'z) disc \<Rightarrow> ('d, 'z) netst_scheme \<Rightarrow> ('d, 'z) netst_scheme option" where
  "clients_done N disc w =
     do { w \<leftarrow> clients_done_loop N disc (w\<lparr>clients := (clients w)\<lparr>it_cur := 0\<rparr>\<rparr>);
          Some (w\<lparr>ext := n_unlisten N (ext w)\<rparr>) }"

text \<open>Without a channel \<open>clients_done\<close> is called, which reads the file descriptor of that channel.\<close>

definition clients_init :: "'d netlib \<Rightarrow> int \<Rightarrow> ('d, 'z) netst_scheme \<Rightarrow> (int \<times> ('d, 'z) netst_scheme) option" where
  "clients_init N port w =
     do { (it, w) \<leftarrow> it_client_new None (\<lambda>c. True) w;
          let w = w\<lparr>clients := it\<rparr>;
          (case n_listen N port (ext w) of (ok, d) \<Rightarrow>
             if \<not> ok then Some (- 1, w\<lparr>ext := d\<rparr>)
             else case n_channel N d of (ok, d) \<Rightarrow> if \<not> ok then None else Some (0, w\<lparr>ext := d\<rparr>)) }"

end
