(* ===== verification/Protofmt.thy ===== *)
theory Protofmt
  imports Client
begin

text \<open>
  How replies are written: the tab separated records of \<open>src/proto_fmt.c\<close>, put together in one static
  array, and the reply lines of \<open>src/proto_helper.c\<close>. Pointers into an array are offsets; a store outside
  of it is \<open>None\<close>.
\<close>

section \<open>Records\<close>

definition BLEN :: int where "BLEN = 4096"

definition cell_write :: "mem \<Rightarrow> int \<Rightarrow> char \<Rightarrow> mem option" where
  "cell_write m i c = (if 0 \<le> i \<and> i < int (length m) then Some (m[nat i := c]) else None)"

text \<open>
  \<open>EADDC\<close> and \<open>EADD\<close> on the triple of \<open>used\<close>, \<open>buf\<close> and the array: \<open>used\<close> counts every character, \<open>buf\<close> moves only
  for the ones that are stored.
\<close>

type_synonym ebuf = "int \<times> int \<times> mem"

definition eaddc :: "int \<Rightarrow> char \<Rightarrow> ebuf \<Rightarrow> ebuf option" where
  "eaddc len c e = (case e of (used, b, m) \<Rightarrow>
     if len > used then do { m \<leftarrow> cell_write m b c; Some (used + 1, b + 1, m) } else Some (used + 1, b, m))"

definition eadd :: "int \<Rightarrow> char \<Rightarrow> ebuf \<Rightarrow> ebuf option" where
  "eadd len c e =
     (if c = TAB then do { e \<leftarrow> eaddc len BACKSLASH e; eaddc len (CHR ''t'') e }
      else if c = BACKSLASH then do { e \<leftarrow> eaddc len BACKSLASH e; eaddc len BACKSLASH e }
      else eaddc len c e)"

fun eadd_all :: "int \<Rightarrow> string \<Rightarrow> ebuf \<Rightarrow> ebuf option" where
  "eadd_all len [] e = Some e"
| "eadd_all len (c # cs) e = do { e \<leftarrow> eadd len c e; eadd_all len cs e }"

text \<open>\<open>ecpy(buf + b, len, in)\<close>: the number of characters counted, and the array.\<close>

definition ecpy :: "mem \<Rightarrow> int \<Rightarrow> int \<Rightarrow> string \<Rightarrow> (int \<times> mem) option" where
  "ecpy m b len src =
     do { let len = len - 1;
          m \<leftarrow> cell_write m (b + len) NUL;
          (used, b, m) \<leftarrow> eadd_all len src (0, b, m);
          m \<leftarrow> (if len > used then cell_write m b NUL else Some m);
          Some (used, m) }"

text \<open>The arguments of \<open>mkvtab\<close>, one for each character of its format.\<close>

datatype tfield = F_s string | F_t string | F_c char | F_d int | F_bad

definition mkvfield :: "tfield \<Rightarrow> ebuf \<Rightarrow> ebuf option" where
  "mkvfield f e = (case e of (used, b, m) \<Rightarrow>
     (case f of
        F_s s \<Rightarrow> do { (l, m) \<leftarrow> ecpy m b (BLEN - used) s; Some (used + l, b + l, m) }
      | F_t s \<Rightarrow>
          if int (length s) < BLEN - used
          then do { m \<leftarrow> (if b < 0 then None else mem_write (nat b) (s @ [NUL]) m);
                    Some (used + int (length s), b + int (length s), m) }
          else Some (used, b, m)
      | F_c c \<Rightarrow> eadd BLEN c (used, b, m)
      | F_d i \<Rightarrow>
          do { (l, m) \<leftarrow> (if b < 0 then None
                 else snprintf m (nat b) (if BLEN - used < 0 then nat (BLEN - used + int SIZE_MOD) else nat (BLEN - used)) (fmt_d i));
               Some (used + int l, b + int l, m) }
      | F_bad \<Rightarrow> eaddc BLEN (CHR ''?'') (used, b, m)))"

fun mkvfields :: "tfield list \<Rightarrow> ebuf \<Rightarrow> ebuf option" where
  "mkvfields [] e = Some e"
| "mkvfields (f # fs) e =
     do { e \<leftarrow> (if fst e \<noteq> 0 then eaddc BLEN TAB e else Some e); e \<leftarrow> mkvfield f e; mkvfields fs e }"

definition mkvtab :: "mem \<Rightarrow> tfield list \<Rightarrow> (string \<times> mem) option" where
  "mkvtab m fs =
     do { m \<leftarrow> cell_write m 0 NUL;
          (used, b, m) \<leftarrow> mkvfields fs (0, 0, m);
          m \<leftarrow> (if BLEN > used then cell_write m b NUL else Some m);
          if NUL \<in> set m then Some (cstr m 0, m) else None }"

definition mktab :: "tfield list \<Rightarrow> ('d, 'z) netst_scheme \<Rightarrow> (string \<times> ('d, 'z) netst_scheme) option" where
  "mktab fs w = do { (s, m) \<leftarrow> mkvtab (tabbuf w) fs; Some (s, w\<lparr>tabbuf := m\<rparr>) }"

definition mkuser :: "user option \<Rightarrow> ('d, 'z) netst_scheme \<Rightarrow> (string \<times> ('d, 'z) netst_scheme) option" where
  "mkuser u w = (case u of
     None \<Rightarrow> mktab [F_d 0, F_s ''UNKNOWN'', F_d 0] w
   | Some u \<Rightarrow> mktab [F_d (us_id u), F_s (us_name u), F_d (us_right u)] w)"

definition mkclient :: "client \<Rightarrow> ('d, 'z) netst_scheme \<Rightarrow> (string \<times> ('d, 'z) netst_scheme) option" where
  "mkclient c w = do { (sub, w) \<leftarrow> mkuser (c_user c) w; mktab [F_d (c_id c), F_s (c_sin c), F_t sub] w }"

definition mktag :: "tag \<Rightarrow> ('d, 'z) netst_scheme \<Rightarrow> (string \<times> ('d, 'z) netst_scheme) option" where
  "mktag t w = mktab [F_d (tg_id t), F_s (tg_name t), F_s (tg_desc t)] w"

definition mkartist :: "artist \<Rightarrow> ('d, 'z) netst_scheme \<Rightarrow> (string \<times> ('d, 'z) netst_scheme) option" where
  "mkartist a w = mktab [F_d (ar_id a), F_s (ar_name a)] w"

definition mkalbum :: "album \<Rightarrow> ('d, 'z) netst_scheme \<Rightarrow> (string \<times> ('d, 'z) netst_scheme) option" where
  "mkalbum a w =
     do { (sub, w) \<leftarrow> mkartist (al_artist a) w;
          mktab [F_d (al_id a), F_s (al_album a), F_d (al_year a), F_t sub] w }"

definition mktrack :: "track \<Rightarrow> ('d, 'z) netst_scheme \<Rightarrow> (string \<times> ('d, 'z) netst_scheme) option" where
  "mktrack t w =
     do { (sub1, w) \<leftarrow> mkartist (tr_artist t) w;
          (sub2, w) \<leftarrow> mkalbum (tr_album t) w;
          mktab [F_d (tr_id t), F_d (tr_albumnr t), F_s (tr_title t), F_d (tr_duration t), F_t sub1, F_t sub2] w }"

definition mkhistory :: "history \<Rightarrow> ('d, 'z) netst_scheme \<Rightarrow> (string \<times> ('d, 'z) netst_scheme) option" where
  "mkhistory h w =
     do { (sub1, w) \<leftarrow> mkuser (Some (hi_user h)) w;
          (sub2, w) \<leftarrow> mktrack (hi_track h) w;
          mktab [F_d (hi_played h), F_t sub1, F_t sub2] w }"

definition mkqueue :: "queue \<Rightarrow> ('d, 'z) netst_scheme \<Rightarrow> (string \<times> ('d, 'z) netst_scheme) option" where
  "mkqueue q w =
     do { (sub1, w) \<leftarrow> mkuser (Some (qu_user q)) w;
          (sub2, w) \<leftarrow> mktrack (qu_track q) w;
          mktab [F_d (qu_id q), F_d (qu_queued q), F_t sub1, F_t sub2] w }"

definition mksfilter :: "sfilter \<Rightarrow> ('d, 'z) netst_scheme \<Rightarrow> (string \<times> ('d, 'z) netst_scheme) option" where
  "mksfilter t w = mktab [F_d (sf_id t), F_s (sf_name t), F_s (sf_filter t)] w"

section \<open>Reply lines\<close>

definition BUFLENLINE :: nat where "BUFLENLINE = 4096"

text \<open>\<open>%3.3s\<close>: exactly three columns.\<close>

definition fmt_3s :: "string \<Rightarrow> string" where
  "fmt_3s s = (let t = take 3 s in replicate (3 - length t) (CHR '' '') @ t)"

text \<open>
  \<open>proto_fmtline\<close> for a format that expands to \<open>body\<close>; \<open>Some None\<close> is its result \<open>NULL\<close>. Every byte of the
  array that is read was written before.
\<close>

definition proto_fmtline :: "bool \<Rightarrow> string \<Rightarrow> string \<Rightarrow> string option option" where
  "proto_fmtline lst code body =
     do { m \<leftarrow> mem_write 0 (fmt_3s code @ [if lst then CHR '' '' else CHR ''-'', NUL]) (replicate BUFLENLINE NUL);
          (r, m) \<leftarrow> snprintf m 4 (BUFLENLINE - 5) body;
          if r > BUFLENLINE - 5 then Some None
          else do {
            m \<leftarrow> cell_write m (int (r + 4)) LF;
            m \<leftarrow> cell_write m (int (r + 5)) NUL;
            Some (Some (cstr m 0)) } }"

section \<open>What a record looks like\<close>

fun esc_tab :: "string \<Rightarrow> string" where
  "esc_tab [] = []"
| "esc_tab (c # cs) =
     (if c = TAB then BACKSLASH # CHR ''t'' # esc_tab cs
      else if c = BACKSLASH then BACKSLASH # BACKSLASH # esc_tab cs
      else c # esc_tab cs)"

fun field_text :: "tfield \<Rightarrow> string" where
  "field_text (F_s s) = esc_tab s"
| "field_text (F_t s) = s"
| "field_text (F_c c) = esc_tab [c]"
| "field_text (F_d i) = fmt_d i"
| "field_text F_bad = ''?''"

fun record_text :: "tfield list \<Rightarrow> string" where
  "record_text [] = []"
| "record_text [f] = field_text f"
| "record_text (f # fs) = field_text f @ TAB # record_text fs"

text \<open>The array after a text was stored at an offset.\<close>

definition poke :: "nat \<Rightarrow> string \<Rightarrow> mem \<Rightarrow> mem" where
  "poke k t m = take k m @ t @ drop (k + length t) m"

lemma length_poke [simp]: "k + length t \<le> length m \<Longrightarrow> length (poke k t m) = length m"
  by (simp add: poke_def)

lemma poke_Nil [simp]: "poke k [] m = m"
  by (simp add: poke_def)

lemma poke_poke: "k + length s + length t \<le> length m \<Longrightarrow> poke (k + length s) t (poke k s m) = poke k (s @ t) m"
  by (cases s) (auto simp: poke_def min_def ac_simps)

lemma cstr_terminated: "NUL \<notin> set t \<Longrightarrow> cstr (t @ NUL # r) 0 = t"
  by (induction t) (auto simp: cstr_def)

lemma cell_write_poke: "k < length m \<Longrightarrow> cell_write m (int k) c = Some (poke k [c] m)"
  by (simp add: cell_write_def poke_def upd_conv_take_nth_drop)

lemma mem_write_poke: "k + length t \<le> length m \<Longrightarrow> mem_write k t m = Some (poke k t m)"
  by (simp add: mem_write_def poke_def)

lemma take_poke: "k + length t \<le> length m \<Longrightarrow> take (k + length t) (poke k t m) = take k m @ t"
  by (cases t) (auto simp: poke_def min_def)

lemma take_poke_before: "j \<le> k \<Longrightarrow> k \<le> length m \<Longrightarrow> take j (poke k t m) = take j m"
  by (simp add: poke_def min_def)

lemma eaddc_text: "u < len \<Longrightarrow> k < length m \<Longrightarrow> eaddc len c (u, int k, m) = Some (u + 1, int (k + 1), poke k [c] m)"
  by (simp add: eaddc_def cell_write_poke)

lemma eadd_text:
  assumes "u + int (length (esc_tab [c])) \<le> len" "k + length (esc_tab [c]) \<le> length m"
  shows "eadd len c (u, int k, m) = Some (u + int (length (esc_tab [c])), int (k + length (esc_tab [c])), poke k (esc_tab [c]) m)"
proof -
  have two: "do { e \<leftarrow> eaddc len a (u, int k, m); eaddc len b e } = Some (u + 2, int (k + 2), poke k [a, b] m)"
    if "u + 2 \<le> len" "k + 2 \<le> length m" for a b
    using that eaddc_text [of u len k m a] eaddc_text [of "u + 1" len "k + 1" "poke k [a] m" b] poke_poke [of k "[a]" "[b]" m]
    by simp
  show ?thesis
  proof (cases "c = TAB \<or> c = BACKSLASH")
    case True
    with assms two show ?thesis by (auto simp: eadd_def)
  next
    case False
    with assms eaddc_text [of u len k m c] show ?thesis by (simp add: eadd_def)
  qed
qed

lemma esc_tab_Cons: "esc_tab (c # cs) = esc_tab [c] @ esc_tab cs"
  by simp

lemma eadd_all_text: "u + int (length (esc_tab s)) \<le> len \<Longrightarrow> k + length (esc_tab s) \<le> length m \<Longrightarrow>
    eadd_all len s (u, int k, m) = Some (u + int (length (esc_tab s)), int (k + length (esc_tab s)), poke k (esc_tab s) m)"
proof (induction s arbitrary: u k m)
  case Nil
  then show ?case by simp
next
  case (Cons c cs)
  let ?e = "esc_tab [c]"
  have l: "u + int (length ?e) + int (length (esc_tab cs)) \<le> len" "k + length ?e + length (esc_tab cs) \<le> length m"
    using Cons.prems by (simp_all only: esc_tab_Cons [of c cs] length_append of_nat_add)
  have "eadd_all len (c # cs) (u, int k, m) = eadd_all len cs (u + int (length ?e), int (k + length ?e), poke k ?e m)"
    using eadd_text [of u c len k m] l by (simp del: esc_tab.simps)
  also have "\<dots> = Some (u + int (length ?e) + int (length (esc_tab cs)), int (k + length ?e + length (esc_tab cs)),
      poke (k + length ?e) (esc_tab cs) (poke k ?e m))"
    using Cons.IH [of "u + int (length ?e)" "k + length ?e" "poke k ?e m"] l by (simp del: esc_tab.simps)
  finally show ?case
    using poke_poke [of k ?e "esc_tab cs" m] l by (simp only: esc_tab_Cons [of c cs] length_append of_nat_add add.assoc)
qed

lemma ecpy_text:
  assumes "k + length (esc_tab s) < 4096" "length m = 4096"
  shows "\<exists>m'. ecpy m (int k) (4096 - int k) s = Some (int (length (esc_tab s)), m') \<and> length m' = 4096 \<and>
    take (k + length (esc_tab s)) m' = take k m @ esc_tab s"
proof -
  let ?s = "esc_tab s" and ?m = "poke 4095 [NUL] m"
  let ?m1 = "poke k ?s ?m"
  have w: "cell_write m 4095 NUL = Some ?m" using cell_write_poke [of 4095 m NUL] assms(2) by simp
  have l: "length ?m = 4096" "length ?m1 = 4096" using assms by simp_all
  have all: "eadd_all (4095 - int k) s (0, int k, ?m) = Some (int (length ?s), int (k + length ?s), ?m1)"
    using eadd_all_text [of 0 s "4095 - int k" k ?m] assms l by simp
  have t: "take (k + length ?s) ?m1 = take k m @ ?s"
    using take_poke [of k ?s ?m] take_poke_before [of k 4095 m "[NUL]"] assms l by simp
  show ?thesis
  proof (cases "4095 - int k > int (length ?s)")
    case True
    let ?m2 = "poke (k + length ?s) [NUL] ?m1"
    have "cell_write ?m1 (int (k + length ?s)) NUL = Some ?m2" using cell_write_poke [of "k + length ?s" ?m1 NUL] assms(1) l by simp
    moreover have "take (k + length ?s) ?m2 = take k m @ ?s"
      using take_poke_before [of "k + length ?s" "k + length ?s" ?m1 "[NUL]"] t assms(1) l by simp
    ultimately show ?thesis using True w all l assms(1) by (simp add: ecpy_def Let_def)
  next
    case False
    then show ?thesis using w all l t by (simp add: ecpy_def Let_def)
  qed
qed

text \<open>The array holds the text \<open>t\<close>, and \<open>used\<close> and \<open>buf\<close> are behind it.\<close>

definition ebuf_has :: "string \<Rightarrow> ebuf \<Rightarrow> bool" where
  "ebuf_has t e \<longleftrightarrow> (case e of (used, b, m) \<Rightarrow>
     used = int (length t) \<and> b = int (length t) \<and> length m = 4096 \<and> length t < 4096 \<and> take (length t) m = t)"

lemma mkvfield_text:
  assumes "ebuf_has t e" "length t + length (field_text f) < 4096"
  shows "\<exists>e'. mkvfield f e = Some e' \<and> ebuf_has (t @ field_text f) e'"
proof -
  obtain m where e: "e = (int (length t), int (length t), m)" and m: "length m = 4096" "take (length t) m = t"
    using assms(1) by (auto simp: ebuf_has_def)
  let ?k = "length t"
  have has: "ebuf_has (t @ s) (int (?k + length s), int (?k + length s), m')"
    if "length m' = 4096" "take (?k + length s) m' = t @ s" "?k + length s < 4096" for s m'
    using that by (simp add: ebuf_has_def)
  show ?thesis
  proof (cases f)
    case (F_s s)
    let ?s = "esc_tab s"
    have k: "?k + length ?s < 4096" using assms(2) F_s by simp
    obtain m' where m': "ecpy m (int ?k) (4096 - int ?k) s = Some (int (length ?s), m')" "length m' = 4096"
        "take (?k + length ?s) m' = t @ ?s"
      using ecpy_text [of ?k s m] k m by auto
    then have "mkvfield f e = Some (int (?k + length ?s), int (?k + length ?s), m')"
      using F_s by (simp add: e mkvfield_def BLEN_def)
    with has [OF m'(2,3) k] F_s show ?thesis by simp
  next
    case (F_t s)
    have "mkvfield f e = Some (int (?k + length s), int (?k + length s), poke ?k (s @ [NUL]) m)"
      using F_t assms(2) m mem_write_poke [of ?k "s @ [NUL]" m] by (simp add: e mkvfield_def BLEN_def)
    moreover have "take (?k + length s) (poke ?k (s @ [NUL]) m) = t @ s"
      using m assms(2) F_t by (simp add: poke_def)
    ultimately show ?thesis using has [of "poke ?k (s @ [NUL]) m" s] F_t assms(2) m by simp
  next
    case (F_c c)
    have "mkvfield f e = Some (int (?k + length (esc_tab [c])), int (?k + length (esc_tab [c])), poke ?k (esc_tab [c]) m)"
      using F_c assms(2) m eadd_text [of "int ?k" c BLEN ?k m] by (simp add: e mkvfield_def BLEN_def del: esc_tab.simps)
    then show ?thesis
      using has [of "poke ?k (esc_tab [c]) m" "esc_tab [c]"] F_c assms(2) m take_poke [of ?k "esc_tab [c]" m]
      by (simp del: esc_tab.simps)
  next
    case (F_d i)
    let ?s = "fmt_d i"
    have k: "?k + length ?s < 4096" using assms(2) F_d by simp
    have "snprintf m ?k (nat (BLEN - int ?k)) ?s = Some (length ?s, poke ?k (?s @ [NUL]) m)"
      using k m mem_write_poke [of ?k "?s @ [NUL]" m] by (simp add: snprintf_def BLEN_def nat_diff_distrib')
    then have "mkvfield f e = Some (int (?k + length ?s), int (?k + length ?s), poke ?k (?s @ [NUL]) m)"
      using F_d k by (simp add: e mkvfield_def BLEN_def)
    moreover have "take (?k + length ?s) (poke ?k (?s @ [NUL]) m) = t @ ?s"
      using m k by (simp add: poke_def)
    ultimately show ?thesis using has [of "poke ?k (?s @ [NUL]) m" ?s] F_d k m by simp
  next
    case F_bad
    have "mkvfield f e = Some (int (?k + 1), int (?k + 1), poke ?k ''?'' m)"
      using F_bad assms(2) m eaddc_text [of "int ?k" BLEN ?k m "CHR ''?''"] by (simp add: e mkvfield_def BLEN_def)
    then show ?thesis
      using has [of "poke ?k ''?'' m" "''?''"] F_bad assms(2) m take_poke [of ?k "''?''" m] by simp
  qed
qed

lemma record_text_Cons: "fs \<noteq> [] \<Longrightarrow> record_text (f # fs) = field_text f @ TAB # record_text fs"
  by (cases fs) auto

lemma mkvfields_text:
  assumes "ebuf_has t e" "t \<noteq> []" "fs \<noteq> []" "length t + 1 + length (record_text fs) < 4096"
  shows "\<exists>e'. mkvfields fs e = Some e' \<and> ebuf_has (t @ TAB # record_text fs) e'"
  using assms
proof (induction fs arbitrary: t e)
  case Nil
  then show ?case by simp
next
  case (Cons f fs)
  obtain m where e: "e = (int (length t), int (length t), m)" and m: "length m = 4096" "take (length t) m = t"
    using Cons.prems(1) by (auto simp: ebuf_has_def)
  let ?e = "(int (length t + 1), int (length t + 1), poke (length t) [TAB] m)"
  have len: "length t + 1 + length (field_text f) < 4096"
    using Cons.prems(4) by (cases fs) auto
  have tab: "eaddc BLEN TAB e = Some ?e"
    using eaddc_text [of "int (length t)" BLEN "length t" m TAB] Cons.prems(4) m by (simp add: e BLEN_def)
  have h: "ebuf_has (t @ [TAB]) ?e"
    using Cons.prems(4) m take_poke [of "length t" "[TAB]" m] by (simp add: ebuf_has_def)
  obtain e1 where e1: "mkvfield f ?e = Some e1" "ebuf_has ((t @ [TAB]) @ field_text f) e1"
    using mkvfield_text [OF h, of f] len by auto
  have step: "mkvfields (f # fs) e = mkvfields fs e1"
    using tab e1(1) Cons.prems(2) by (simp add: e)
  show ?case
  proof (cases "fs = []")
    case True
    with step e1(2) show ?thesis by simp
  next
    case False
    then show ?thesis
      using Cons.IH [OF e1(2) _ False] Cons.prems(4) step by (simp add: record_text_Cons)
  qed
qed

lemma mkvtab_text:
  assumes "length m = 4096" "field_text f \<noteq> []" "length (record_text (f # fs)) < 4096" "NUL \<notin> set (record_text (f # fs))"
  shows "\<exists>m'. mkvtab m (f # fs) = Some (record_text (f # fs), m') \<and> length m' = 4096"
proof -
  let ?m = "poke 0 [NUL] m" and ?r = "record_text (f # fs)"
  have w: "cell_write m 0 NUL = Some ?m" using cell_write_poke [of 0 m NUL] assms(1) by simp
  have h0: "ebuf_has [] (0, 0, ?m)" using assms(1) by (simp add: ebuf_has_def)
  have len: "length (field_text f) < 4096" using assms(3) by (cases fs) auto
  obtain e1 where e1: "mkvfield f (0, 0, ?m) = Some e1" "ebuf_has (field_text f) e1"
    using mkvfield_text [OF h0, of f] len by auto
  obtain e2 where e2: "mkvfields (f # fs) (0, 0, ?m) = Some e2" "ebuf_has ?r e2"
  proof (cases "fs = []")
    case True
    with e1 that show ?thesis by simp
  next
    case False
    obtain e' where "mkvfields fs e1 = Some e'" "ebuf_has (field_text f @ TAB # record_text fs) e'"
      using mkvfields_text [OF e1(2) assms(2) False] assms(3) False by (auto simp: record_text_Cons)
    then show ?thesis using that e1 False by (simp add: record_text_Cons)
  qed
  obtain m2 where m2: "e2 = (int (length ?r), int (length ?r), m2)" "length m2 = 4096" "take (length ?r) m2 = ?r"
    using e2(2) by (auto simp: ebuf_has_def)
  let ?m3 = "poke (length ?r) [NUL] m2"
  have c: "cell_write m2 (int (length ?r)) NUL = Some ?m3" using cell_write_poke [of "length ?r" m2] assms(3) m2(2) by simp
  have m3: "?m3 = ?r @ NUL # drop (Suc (length ?r)) m2" using m2(3) by (simp add: poke_def)
  then have "cstr ?m3 0 = ?r" using assms(4) by (simp add: cstr_terminated)
  then have "mkvtab m (f # fs) = Some (?r, ?m3)"
    using w e2(1) m2(1) c assms(3) m3 by (simp add: mkvtab_def BLEN_def del: mkvfields.simps)
  with m2(2) assms(3) show ?thesis by simp
qed

section \<open>Reading a record back\<close>

text \<open>What a client of the protocol does: cut the line at tabs, and undo the escapes in each column.\<close>

fun unesc_tab :: "string \<Rightarrow> string" where
  "unesc_tab (c # d # cs) =
     (if c = BACKSLASH then (if d = CHR ''t'' then TAB else d) # unesc_tab cs else c # unesc_tab (d # cs))"
| "unesc_tab cs = cs"

fun tab_split :: "string \<Rightarrow> string list" where
  "tab_split [] = [[]]"
| "tab_split (c # cs) =
     (if c = TAB then [] # tab_split cs
      else case tab_split cs of [] \<Rightarrow> [[c]] | x # xs \<Rightarrow> (c # x) # xs)"

lemma unesc_tab_plain: "c \<noteq> BACKSLASH \<Longrightarrow> unesc_tab (c # cs) = c # unesc_tab cs"
  by (cases cs) simp_all

lemma unesc_esc_tab [simp]: "unesc_tab (esc_tab s) = s"
  by (induction s) (auto simp: unesc_tab_plain)

lemma esc_tab_no_tab: "TAB \<notin> set (esc_tab s)"
  by (induction s) auto

lemma esc_tab_NUL: "NUL \<in> set (esc_tab s) \<longleftrightarrow> NUL \<in> set s"
  by (induction s) auto

lemma tab_split_plain: "TAB \<notin> set s \<Longrightarrow> tab_split s = [s]"
  by (induction s) auto

lemma tab_split_append: "TAB \<notin> set s \<Longrightarrow> tab_split (s @ TAB # r) = s # tab_split r"
  by (induction s) auto

lemma fmt_d_plain: "c \<in> set (fmt_d i) \<Longrightarrow> c = CHR ''-'' \<or> digit c"
  using dec_digits by (auto simp: fmt_d_def split: if_splits)

lemma fmt_d_clean: "TAB \<notin> set (fmt_d i)" "NUL \<notin> set (fmt_d i)" "BACKSLASH \<notin> set (fmt_d i)"
  using fmt_d_plain [of TAB i] fmt_d_plain [of NUL i] fmt_d_plain [of BACKSLASH i]
  by (auto simp: isdigit_def schar_def)

lemma unesc_tab_id: "BACKSLASH \<notin> set s \<Longrightarrow> unesc_tab s = s"
  by (induction s) (auto simp: unesc_tab_plain)

text \<open>The columns of a record without nested records.\<close>

fun leaf :: "tfield \<Rightarrow> bool" where
  "leaf (F_s s) \<longleftrightarrow> True" | "leaf (F_d i) \<longleftrightarrow> True" | "leaf f \<longleftrightarrow> False"

fun leaf_value :: "tfield \<Rightarrow> string" where
  "leaf_value (F_s s) = s" | "leaf_value (F_d i) = fmt_d i" | "leaf_value f = []"

lemma leaf_no_tab: "leaf f \<Longrightarrow> TAB \<notin> set (field_text f)"
  by (cases f) (simp_all add: esc_tab_no_tab fmt_d_clean)

lemma leaf_unesc: "leaf f \<Longrightarrow> unesc_tab (field_text f) = leaf_value f"
  by (cases f) (simp_all add: unesc_tab_id fmt_d_clean)

lemma record_columns: "fs \<noteq> [] \<Longrightarrow> list_all leaf fs \<Longrightarrow> map unesc_tab (tab_split (record_text fs)) = map leaf_value fs"
proof (induction fs)
  case (Cons f fs)
  then show ?case
    by (cases "fs = []")
       (simp_all add: tab_split_plain tab_split_append leaf_no_tab leaf_unesc record_text_Cons)
qed simp

lemma record_nested: "b \<noteq> [] \<Longrightarrow> record_text (a @ F_t (record_text b) # c) = record_text (a @ b @ c)"
proof (induction a)
  case Nil
  then show ?case
  proof (induction b)
    case (Cons f b)
    then show ?case
      by (cases "b = []"; cases "c = []") (simp_all add: record_text_Cons)
  qed simp
next
  case (Cons f a)
  then show ?case by (simp add: record_text_Cons)
qed

definition artist_fields :: "artist \<Rightarrow> tfield list" where
  "artist_fields a = [F_d (ar_id a), F_s (ar_name a)]"

definition album_fields :: "album \<Rightarrow> tfield list" where
  "album_fields a = [F_d (al_id a), F_s (al_album a), F_d (al_year a)] @ artist_fields (al_artist a)"

definition track_fields :: "track \<Rightarrow> tfield list" where
  "track_fields t = [F_d (tr_id t), F_d (tr_albumnr t), F_s (tr_title t), F_d (tr_duration t)] @
     artist_fields (tr_artist t) @ album_fields (tr_album t)"

definition user_fields :: "user option \<Rightarrow> tfield list" where
  "user_fields u = (case u of None \<Rightarrow> [F_d 0, F_s ''UNKNOWN'', F_d 0]
     | Some u \<Rightarrow> [F_d (us_id u), F_s (us_name u), F_d (us_right u)])"

definition client_fields :: "client \<Rightarrow> tfield list" where
  "client_fields c = [F_d (c_id c), F_s (c_sin c)] @ user_fields (c_user c)"

definition queue_fields :: "queue \<Rightarrow> tfield list" where
  "queue_fields q = [F_d (qu_id q), F_d (qu_queued q)] @ user_fields (Some (qu_user q)) @ track_fields (qu_track q)"

lemmas fields_defs = artist_fields_def album_fields_def track_fields_def user_fields_def client_fields_def queue_fields_def

text \<open>A list of fields whose record fits into the array.\<close>

definition fits :: "tfield list \<Rightarrow> bool" where
  "fits fs \<longleftrightarrow> length (record_text fs) < 4096 \<and> NUL \<notin> set (record_text fs)"

definition vtab_ok :: "('d, 'z) netst_scheme \<Rightarrow> bool" where
  "vtab_ok w \<longleftrightarrow> length (tabbuf w) = 4096"

lemma mktab_text:
  assumes "vtab_ok w" "fs = F_d i # fs'" "fits fs"
  shows "\<exists>m. mktab fs w = Some (record_text fs, w\<lparr>tabbuf := m\<rparr>) \<and> vtab_ok (w\<lparr>tabbuf := m\<rparr>)"
  using mkvtab_text [of "tabbuf w" "F_d i" fs'] assms by (auto simp: mktab_def fits_def vtab_ok_def)

lemma record_text_append: "a \<noteq> [] \<Longrightarrow> b \<noteq> [] \<Longrightarrow> record_text (a @ b) = record_text a @ TAB # record_text b"
proof (induction a)
  case (Cons f a)
  then show ?case by (cases "a = []") (simp_all add: record_text_Cons)
qed simp

lemma fits_part: "fits (a @ b @ c) \<Longrightarrow> b \<noteq> [] \<Longrightarrow> fits b"
  by (cases "a = []"; cases "c = []") (auto simp: fits_def record_text_append)

definition writes :: "(('d, 'z) netst_scheme \<Rightarrow> (string \<times> ('d, 'z) netst_scheme) option) \<Rightarrow> tfield list \<Rightarrow> bool" where
  "writes mk fs \<longleftrightarrow> (\<forall>w. vtab_ok w \<longrightarrow> (\<exists>m. mk w = Some (record_text fs, w\<lparr>tabbuf := m\<rparr>) \<and> length m = 4096))"

lemma writes_tab: "fits fs \<Longrightarrow> (\<exists>i fs'. fs = F_d i # fs') \<Longrightarrow> writes (mktab fs) fs"
proof -
  assume f: "fits fs" and "\<exists>i fs'. fs = F_d i # fs'"
  then obtain i fs' where fs: "fs = F_d i # fs'" by blast
  show ?thesis unfolding writes_def using mktab_text [OF _ fs f] by (auto simp: vtab_ok_def)
qed

lemma writes_cong: "writes mk fs \<Longrightarrow> record_text fs = record_text gs \<Longrightarrow> writes mk gs"
  by (simp add: writes_def)

lemma writes_sub: "writes mk fs \<Longrightarrow> (\<And>s. s = record_text fs \<Longrightarrow> writes (mk' s) gs) \<Longrightarrow>
    writes (\<lambda>w. do { (s, w) \<leftarrow> mk w; mk' s w }) gs"
proof -
  assume a: "writes mk fs" and b: "\<And>s. s = record_text fs \<Longrightarrow> writes (mk' s) gs"
  show ?thesis unfolding writes_def
  proof (intro allI impI)
    fix w :: "('a, 'b) netst_scheme" assume w: "vtab_ok w"
    obtain m where m: "mk w = Some (record_text fs, w\<lparr>tabbuf := m\<rparr>)" "length m = 4096"
      using a w by (auto simp: writes_def)
    have "vtab_ok (w\<lparr>tabbuf := m\<rparr>)" using m(2) by (simp add: vtab_ok_def)
    then obtain m' where "mk' (record_text fs) (w\<lparr>tabbuf := m\<rparr>) = Some (record_text gs, w\<lparr>tabbuf := m'\<rparr>)" "length m' = 4096"
      using b [OF refl] by (auto simp: writes_def)
    with m(1) show "\<exists>m. (do { (s, w) \<leftarrow> mk w; mk' s w }) = Some (record_text gs, w\<lparr>tabbuf := m\<rparr>) \<and> length m = 4096"
      by (intro exI [of _ m']) simp
  qed
qed

lemma mkuser_writes: "fits (user_fields u) \<Longrightarrow> writes (mkuser u) (user_fields u)"
  by (auto simp: mkuser_def [abs_def] user_fields_def intro: writes_tab split: option.split)

lemma mkartist_writes: "fits (artist_fields a) \<Longrightarrow> writes (mkartist a) (artist_fields a)"
  by (auto simp: mkartist_def [abs_def] artist_fields_def intro: writes_tab)

lemma fits_nested: "fits (a @ b @ c) \<Longrightarrow> b \<noteq> [] \<Longrightarrow> fits (a @ F_t (record_text b) # c)"
  by (simp add: fits_def record_nested)

lemma writes_nested: "fits (F_d i # a @ b @ c) \<Longrightarrow> b \<noteq> [] \<Longrightarrow>
    writes (mktab (F_d i # a @ F_t (record_text b) # c)) (F_d i # a @ b @ c)"
  using fits_nested [of "F_d i # a" b c] record_nested [of b "F_d i # a" c]
  by (auto intro!: writes_cong [OF writes_tab])

lemma mkalbum_writes:
  assumes "fits (album_fields a)"
  shows "writes (mkalbum a) (album_fields a)"
proof -
  have "fits (artist_fields (al_artist a))"
    using fits_part [of "[F_d (al_id a), F_s (al_album a), F_d (al_year a)]" "artist_fields (al_artist a)" "[]"] assms
    by (simp add: album_fields_def artist_fields_def)
  moreover have "writes (mktab [F_d (al_id a), F_s (al_album a), F_d (al_year a), F_t (record_text (artist_fields (al_artist a)))])
      (album_fields a)"
    using writes_nested [of "al_id a" "[F_s (al_album a), F_d (al_year a)]" "artist_fields (al_artist a)" "[]"] assms
    by (simp add: album_fields_def artist_fields_def)
  ultimately show ?thesis unfolding mkalbum_def [abs_def] by (auto intro!: writes_sub [OF mkartist_writes])
qed

lemma writes_nested2: "fits (F_d i # a @ b @ c) \<Longrightarrow> b \<noteq> [] \<Longrightarrow> c \<noteq> [] \<Longrightarrow>
    writes (mktab (F_d i # a @ [F_t (record_text b), F_t (record_text c)])) (F_d i # a @ b @ c)"
  using fits_nested [of "F_d i # a @ b" c "[]"] fits_nested [of "F_d i # a" b "[F_t (record_text c)]"]
    record_nested [of b "F_d i # a" "[F_t (record_text c)]"] record_nested [of c "F_d i # a @ b" "[]"]
  by (auto intro!: writes_cong [OF writes_tab])

lemma mktrack_writes:
  assumes "fits (track_fields t)"
  shows "writes (mktrack t) (track_fields t)"
proof -
  let ?a = "[F_d (tr_albumnr t), F_s (tr_title t), F_d (tr_duration t)]"
  have ne: "artist_fields (tr_artist t) \<noteq> []" "album_fields (tr_album t) \<noteq> []" by (simp_all add: fields_defs)
  have f: "fits (artist_fields (tr_artist t))" "fits (album_fields (tr_album t))"
    using fits_part [of "F_d (tr_id t) # ?a" "artist_fields (tr_artist t)" "album_fields (tr_album t)"]
      fits_part [of "F_d (tr_id t) # ?a @ artist_fields (tr_artist t)" "album_fields (tr_album t)" "[]"] assms ne
    by (simp_all add: track_fields_def)
  have "writes (mktab [F_d (tr_id t), F_d (tr_albumnr t), F_s (tr_title t), F_d (tr_duration t),
      F_t (record_text (artist_fields (tr_artist t))), F_t (record_text (album_fields (tr_album t)))]) (track_fields t)"
    using writes_nested2 [of "tr_id t" ?a "artist_fields (tr_artist t)" "album_fields (tr_album t)"] assms ne
    by (simp add: track_fields_def)
  then show ?thesis unfolding mktrack_def [abs_def]
    by (auto intro!: writes_sub [OF mkartist_writes [OF f(1)]] writes_sub [OF mkalbum_writes [OF f(2)]])
qed

lemma mkqueue_writes:
  assumes "fits (queue_fields q)"
  shows "writes (mkqueue q) (queue_fields q)"
proof -
  let ?u = "user_fields (Some (qu_user q))" and ?t = "track_fields (qu_track q)"
  have ne: "?u \<noteq> []" "?t \<noteq> []" by (simp_all add: fields_defs)
  have f: "fits ?u" "fits ?t"
    using fits_part [of "[F_d (qu_id q), F_d (qu_queued q)]" ?u ?t] fits_part [of "[F_d (qu_id q), F_d (qu_queued q)] @ ?u" ?t "[]"] assms ne
    by (simp_all add: queue_fields_def)
  have "writes (mktab [F_d (qu_id q), F_d (qu_queued q), F_t (record_text ?u), F_t (record_text ?t)]) (queue_fields q)"
    using writes_nested2 [of "qu_id q" "[F_d (qu_queued q)]" ?u ?t] assms ne by (simp add: queue_fields_def)
  then show ?thesis unfolding mkqueue_def [abs_def]
    by (auto intro!: writes_sub [OF mkuser_writes [OF f(1)]] writes_sub [OF mktrack_writes [OF f(2)]])
qed

lemma mkclient_writes:
  assumes "fits (client_fields c)"
  shows "writes (mkclient c) (client_fields c)"
proof -
  let ?u = "user_fields (c_user c)"
  have ne: "?u \<noteq> []" by (simp add: user_fields_def split: option.split)
  have f: "fits ?u" using fits_part [of "[F_d (c_id c), F_s (c_sin c)]" ?u "[]"] assms ne by (simp add: client_fields_def)
  have "writes (mktab [F_d (c_id c), F_s (c_sin c), F_t (record_text ?u)]) (client_fields c)"
    using writes_nested [of "c_id c" "[F_s (c_sin c)]" ?u "[]"] assms ne by (simp add: client_fields_def)
  then show ?thesis unfolding mkclient_def [abs_def]
    by (auto intro!: writes_sub [OF mkuser_writes [OF f]])
qed

lemma mkqueue_leaves: "list_all leaf (queue_fields q)" "queue_fields q \<noteq> []"
  by (simp_all add: fields_defs)

section \<open>Properties\<close>

text \<open>
  C12: A queue entry reported to a client can be read back: cut at its tabs and with the escapes undone, the
  record \<open>mkqueue\<close> writes gives the id, the time, the user, the track, its artist, its album and the album's
  artist, whatever tabs and backslashes their names contain, whenever the record fits into the static array.
\<close>

theorem queue_record_columns:
  assumes "vtab_ok w" "fits (queue_fields q)"
  shows "\<exists>s m. mkqueue q w = Some (s, w\<lparr>tabbuf := m\<rparr>) \<and>
    map unesc_tab (tab_split s) =
      (let t = qu_track q; a = tr_album t in
       [fmt_d (qu_id q), fmt_d (qu_queued q), fmt_d (us_id (qu_user q)), us_name (qu_user q), fmt_d (us_right (qu_user q)),
        fmt_d (tr_id t), fmt_d (tr_albumnr t), tr_title t, fmt_d (tr_duration t), fmt_d (ar_id (tr_artist t)), ar_name (tr_artist t),
        fmt_d (al_id a), al_album a, fmt_d (al_year a), fmt_d (ar_id (al_artist a)), ar_name (al_artist a)])"
proof -
  obtain m where "mkqueue q w = Some (record_text (queue_fields q), w\<lparr>tabbuf := m\<rparr>)"
    using mkqueue_writes [OF assms(2)] assms(1) by (auto simp: writes_def)
  moreover have "map leaf_value (queue_fields q) = (let t = qu_track q; a = tr_album t in
       [fmt_d (qu_id q), fmt_d (qu_queued q), fmt_d (us_id (qu_user q)), us_name (qu_user q), fmt_d (us_right (qu_user q)),
        fmt_d (tr_id t), fmt_d (tr_albumnr t), tr_title t, fmt_d (tr_duration t), fmt_d (ar_id (tr_artist t)), ar_name (tr_artist t),
        fmt_d (al_id a), al_album a, fmt_d (al_year a), fmt_d (ar_id (al_artist a)), ar_name (al_artist a)])"
    by (simp add: fields_defs Let_def)
  ultimately show ?thesis using record_columns [OF mkqueue_leaves(2,1), of q] by metis
qed

definition demo_net :: "unit netst" where
  "demo_net = \<lparr>ext = (), dbcon = True, inprogress = 0, rfilter = None, heap = (\<lambda>p. None), fresh = 0,
     clients = \<lparr>it_clients = [], it_cur = 0\<rparr>, maxid = 0, tabbuf = replicate 4096 NUL\<rparr>"

definition demo_queue :: queue where
  "demo_queue = (let a = \<lparr>ar_id = 3, ar_name = [CHR ''A'', TAB, BACKSLASH]\<rparr> in
     \<lparr>qu_id = 7, qu_track = \<lparr>tr_id = 12, tr_album = \<lparr>al_id = 5, al_album = ''B'', al_year = 1999, al_artist = a,
        al_rgain = D_int 0, al_rgainpeak = D_int 0\<rparr>, tr_albumnr = 1, tr_title = [CHR ''T'', BACKSLASH, CHR ''t''],
        tr_artist = a, tr_duration = 200, tr_seg_from = 0, tr_seg_to = 0, tr_rgain = D_int 0, tr_rgainpeak = D_int 0,
        tr_fname = [], tr_lastplay = 0\<rparr>,
      qu_user = \<lparr>us_id = 2, us_right = 1, us_name = ''bob'', us_pass = []\<rparr>, qu_queued = 100\<rparr>)"

theorem queue_record_columns_witness:
  "\<exists>s m. mkqueue demo_queue demo_net = Some (s, demo_net\<lparr>tabbuf := m\<rparr>) \<and>
     map unesc_tab (tab_split s) =
       [''7'', ''100'', ''2'', ''bob'', ''1'', ''12'', ''1'', [CHR ''T'', BACKSLASH, CHR ''t''], ''200'', ''3'', [CHR ''A'', TAB, BACKSLASH],
        ''5'', ''B'', ''1999'', ''3'', [CHR ''A'', TAB, BACKSLASH]]"
proof -
  have "vtab_ok demo_net" by (simp add: vtab_ok_def demo_net_def)
  moreover have "fits (queue_fields demo_queue)" by code_simp
  moreover have "map fmt_d [7, 100, 2, 1, 12, 200, 3, 5, 1999] =
      [''7'', ''100'', ''2'', ''1'', ''12'', ''200'', ''3'', ''5'', ''1999'']" by code_simp
  ultimately show ?thesis using queue_record_columns [of demo_net demo_queue] by (simp add: demo_queue_def Let_def)
qed

lemma proto_fmtline_line:
  assumes "NUL \<notin> set body" "length code = 3" "NUL \<notin> set code"
  shows "proto_fmtline lst code body =
    (if length body < 4091 then Some (Some (code @ (if lst then CHR '' '' else CHR ''-'') # body @ [LF]))
     else if length body = 4091 then None else Some None)"
proof -
  define sep where "sep = (if lst then CHR '' '' else CHR ''-'')"
  let ?m0 = "replicate 4096 NUL" and ?h = "code @ [sep, NUL]"
  have c3: "fmt_3s code = code" using assms(2) by (simp add: fmt_3s_def)
  have w0: "mem_write 0 ?h ?m0 = Some (poke 0 ?h ?m0)" using assms(2) mem_write_poke [of 0 ?h ?m0] by simp
  let ?t = "take 4090 body @ [NUL]"
  let ?m1 = "poke 4 ?t (poke 0 ?h ?m0)"
  have l0: "length (poke 0 ?h ?m0) = 4096" using assms(2) by simp
  have w1: "snprintf (poke 0 ?h ?m0) 4 4091 body = Some (length body, ?m1)"
    using mem_write_poke [of 4 ?t "poke 0 ?h ?m0"] l0 by (simp add: snprintf_def)
  have l1: "length ?m1 = 4096" using l0 by simp
  show ?thesis
  proof (cases "length body < 4091")
    case True
    let ?m2 = "poke (length body + 4) [LF] ?m1"
    have w2: "cell_write ?m1 (int (length body + 4)) LF = Some ?m2" using cell_write_poke [of "length body + 4" ?m1 LF] True l1 by simp
    have l2: "length ?m2 = 4096" using True l1 by simp
    let ?m3 = "poke (length body + 5) [NUL] ?m2"
    have w3: "cell_write ?m2 (int (length body + 5)) NUL = Some ?m3" using cell_write_poke [of "length body + 5" ?m2 NUL] True l2 by simp
    have h0: "take 4 (poke 0 ?h ?m0) = code @ [sep]" using assms(2) by (simp add: poke_def)
    have "take (4 + length ?t) ?m1 = code @ sep # body @ [NUL]"
      using take_poke [of 4 ?t "poke 0 ?h ?m0"] True h0 l0 by simp
    then have "take (length body + 4) (take (4 + length ?t) ?m1) = code @ sep # body"
      using assms(2) by simp
    then have "take (length body + 4) ?m1 = code @ sep # body"
      using True by (simp add: min_def)
    then have "take (length body + 5) ?m2 = code @ sep # body @ [LF]"
      using take_poke [of "length body + 4" "[LF]" ?m1] True l1 by (simp add: add.commute)
    then have "?m3 = code @ sep # body @ LF # NUL # drop (6 + length body) ?m2"
      by (simp add: poke_def [of "length body + 5"])
    then have m3: "?m3 = (code @ sep # body @ [LF]) @ NUL # drop (6 + length body) ?m2" by simp
    have "NUL \<notin> set (code @ sep # body @ [LF])" using assms(1,3) by (simp add: sep_def)
    then have "cstr ?m3 0 = code @ sep # body @ [LF]" unfolding m3 by (rule cstr_terminated)
    with True w0 w1 w2 w3 c3 show ?thesis by (simp add: proto_fmtline_def BUFLENLINE_def sep_def)
  next
    case False
    let ?m2 = "poke 4095 [LF] ?m1"
    have w2: "cell_write ?m1 4095 LF = Some ?m2" using cell_write_poke [of 4095 ?m1 LF] l1 by simp
    have "cell_write ?m2 4096 NUL = None" using l1 by (simp add: cell_write_def)
    with False w0 w1 w2 c3 show ?thesis by (auto simp: proto_fmtline_def BUFLENLINE_def sep_def)
  qed
qed

text \<open>Lines that fit need no array to be evaluated.\<close>

lemma proto_fmtline_code [code]:
  "proto_fmtline lst code body =
     (if NUL \<notin> set body \<and> length code = 3 \<and> NUL \<notin> set code \<and> length body < 4091
      then Some (Some (code @ (if lst then CHR '' '' else CHR ''-'') # body @ [LF]))
      else do { m \<leftarrow> mem_write 0 (fmt_3s code @ [if lst then CHR '' '' else CHR ''-'', NUL]) (replicate BUFLENLINE NUL);
          (r, m) \<leftarrow> snprintf m 4 (BUFLENLINE - 5) body;
          if r > BUFLENLINE - 5 then Some None
          else do {
            m \<leftarrow> cell_write m (int (r + 4)) LF;
            m \<leftarrow> cell_write m (int (r + 5)) NUL;
            Some (Some (cstr m 0)) } })"
  using proto_fmtline_line [of body code lst] by (simp only: proto_fmtline_def [symmetric]) auto

text \<open>
  C33: What \<open>proto_fmtline\<close> makes of a text: the code, the separator, the text and a linebreak when it is shorter
  than 4091 characters, no line when it is longer. A text of exactly 4091 characters passes the test, and the
  terminating zero is written behind the array.
\<close>

theorem proto_fmtline_result:
  assumes "NUL \<notin> set body" "length code = 3" "NUL \<notin> set code"
  shows "proto_fmtline lst code body =
    (if length body < 4091 then Some (Some (code @ (if lst then CHR '' '' else CHR ''-'') # body @ [LF]))
     else if length body = 4091 then None else Some None)"
  using assms by (rule proto_fmtline_line)

theorem proto_fmtline_result_witness:
  "proto_fmtline False ''230'' ''abc'' = Some (Some (''230-abc'' @ [LF])) \<and>
   proto_fmtline True ''230'' (replicate 4091 (CHR ''x'')) = None \<and>
   proto_fmtline True ''230'' (replicate 4092 (CHR ''x'')) = Some None"
  using proto_fmtline_result [of "''abc''" "''230''" False] proto_fmtline_result [of "replicate 4091 (CHR ''x'')" "''230''" True]
    proto_fmtline_result [of "replicate 4092 (CHR ''x'')" "''230''" True] by simp

end
