(* ===== verification/Player.thy ===== *)
theory Player
  imports Client
begin

text \<open>
  The player (\<open>src/player.c\<close>, \<open>player.h\<close>) and the sleep timer (\<open>src/sleep.c\<close>). GStreamer and the timers of
  glib are the parameter \<open>gst\<close>, the hooks of the protocol are the record \<open>phooks\<close>. The variable \<open>curtrack\<close> is a
  pointer: \<open>NULL\<close>, a track the player holds, or one it has already freed; looking at the latter is undefined
  behaviour. The loops over the queue and the random list may run forever, they are partial functions.
\<close>

section \<open>State\<close>

datatype playstatus = pl_stop | pl_play | pl_pause

datatype playerror = PE_OK | PE_SYS | PE_NOTHING | PE_BUSY | PE_NOSUP | PE_FAIL

datatype trackptr = Null | Track track | Dangling

datatype gstate = GST_STATE_NULL | GST_STATE_READY | GST_STATE_PAUSED | GST_STATE_PLAYING

datatype timer = cb_elapsed_timeout | cb_gap_timeout | sleep_event

text \<open>The factor given to the volume element: 1, or \<open>pow(10, (gain + preamp) / 20)\<close>.\<close>

datatype volume = Vol_unity | Vol_gain double double

record 'd gst =
  g_state :: "'d \<Rightarrow> gstate"
  g_set_state :: "gstate \<Rightarrow> 'd \<Rightarrow> bool \<times> 'd"
  g_get_state :: "'d \<Rightarrow> 'd"
  g_seek :: "int \<Rightarrow> int option \<Rightarrow> 'd \<Rightarrow> bool \<times> 'd"
  g_position :: "'d \<Rightarrow> int option"
  g_location :: "string \<Rightarrow> 'd \<Rightarrow> 'd"
  g_volume :: "volume \<Rightarrow> 'd \<Rightarrow> 'd"
  g_timeout_add :: "int \<Rightarrow> timer \<Rightarrow> 'd \<Rightarrow> int \<times> 'd"
  g_source_remove :: "int \<Rightarrow> 'd \<Rightarrow> 'd"

record 'd plst = "'d netst" +
  do_random :: int
  gap :: int
  cut :: int
  rgtype :: replaygain
  rgpreamp :: double
  gap_id :: int
  elapsed_id :: int
  curtrack :: trackptr
  curuid :: int
  sleep_at :: int
  sleep_id :: int

record 'w phooks =
  player_func_resume :: "'w notify"
  player_func_newtrack :: "'w notify"
  player_func_pause :: "'w notify"
  player_func_stop :: "'w notify"
  player_func_random :: "'w notify"
  player_func_elapsed :: "('w, int) hook"
  queue_func_fetch :: "('w, queue) hook"
  sleep_func_set :: "'w notify"

text \<open>What the player calls: the database, the C library, \<open>open\<close>, GStreamer, the options and the hooks.\<close>

record ('d, 'w) penv =
  pe_query :: "'w query"
  pe_libc :: "'w libc"
  pe_opens :: "string \<Rightarrow> 'w \<Rightarrow> bool"
  pe_gst :: "'d gst"
  pe_opt :: opts
  pe_hooks :: "'w phooks"

type_synonym ('d, 'z) pstate = "('d, 'z) plst_scheme"
type_synonym ('d, 'z) env = "('d, ('d, 'z) plst_scheme) penv"

definition deref :: "trackptr \<Rightarrow> track option" where
  "deref p = (case p of Track t \<Rightarrow> Some t | _ \<Rightarrow> None)"

definition set_state :: "('d, 'z) env \<Rightarrow> gstate \<Rightarrow> ('d, 'z) pstate \<Rightarrow> bool \<times> ('d, 'z) pstate" where
  "set_state E s w = (case g_set_state (pe_gst E) s (ext w) of (ok, d) \<Rightarrow> (ok, w\<lparr>ext := d\<rparr>))"

definition state :: "('d, 'z) env \<Rightarrow> ('d, 'z) pstate \<Rightarrow> gstate" where
  "state E w = g_state (pe_gst E) (ext w)"

definition source_remove :: "('d, 'z) env \<Rightarrow> int \<Rightarrow> ('d, 'z) pstate \<Rightarrow> ('d, 'z) pstate" where
  "source_remove E i w = w\<lparr>ext := g_source_remove (pe_gst E) i (ext w)\<rparr>"

section \<open>The current track\<close>

text \<open>The loop over the queue: an existing track, or the end of the queue.\<close>

partial_function (option) getnext_queue :: "('d, 'z) env \<Rightarrow> ('d, 'z) pstate \<Rightarrow> (bool \<times> ('d, 'z) pstate) option" where
  "getnext_queue E w =
     do { (q, w) \<leftarrow> queue_fetch (pe_query E) (queue_func_fetch (pe_hooks E)) w;
          (case q of
             None \<Rightarrow> Some (False, w)
           | Some q \<Rightarrow> do {
               let w = w\<lparr>curtrack := Track (qu_track q), curuid := us_id (qu_user q)\<rparr>;
               (ok, w) \<leftarrow> track_exists (pe_query E) (pe_opens E) (pe_opt E) (qu_track q) w;
               if ok then Some (True, w) else getnext_queue E (w\<lparr>curtrack := Dangling\<rparr>) }) }"

text \<open>The loop over random tracks; the log line between the two calls reads the track before it is freed.\<close>

partial_function (option) getnext_random :: "('d, 'z) env \<Rightarrow> ('d, 'z) pstate \<Rightarrow> ('d, 'z) pstate option" where
  "getnext_random E w =
     do { (t, w) \<leftarrow> random_fetch (pe_query E) (pe_libc E) w;
          (case t of
             None \<Rightarrow> Some (w\<lparr>curtrack := Null\<rparr>)
           | Some t \<Rightarrow> do {
               let w = w\<lparr>curtrack := Track t\<rparr>;
               (ok, w) \<leftarrow> track_exists (pe_query E) (pe_opens E) (pe_opt E) t w;
               if ok then Some w else getnext_random E (w\<lparr>curtrack := Dangling\<rparr>) }) }"

declare getnext_queue.simps [code] getnext_random.simps [code]

definition db_getnext :: "('d, 'z) env \<Rightarrow> ('d, 'z) pstate \<Rightarrow> ('d, 'z) pstate option" where
  "db_getnext E w =
     (if curtrack w \<noteq> Null then Some w
      else do {
        (found, w) \<leftarrow> getnext_queue E w;
        if found then Some w
        else
          let w = w\<lparr>curuid := 0\<rparr>
          in if do_random w = 0 then Some w else getnext_random E w })"

definition db_finish :: "('d, 'z) env \<Rightarrow> bool \<Rightarrow> ('d, 'z) pstate \<Rightarrow> ('d, 'z) pstate option" where
  "db_finish E completed w =
     (if curtrack w = Null then Some w
      else do {
        t \<leftarrow> deref (curtrack w);
        (r, w) \<leftarrow> history_add (pe_query E) (pe_libc E) t (curuid w) completed w;
        w \<leftarrow> (if completed then Some w
              else do {
                (tagid, w) \<leftarrow> tag_id (pe_query E) (opt_failtag (pe_opt E)) w;
                if 0 < tagid then do { (r, w) \<leftarrow> track_tagadd (pe_query E) (tr_id t) tagid w; Some w } else Some w });
        Some (w\<lparr>curtrack := Null, curuid := 0\<rparr>) })"

section \<open>The pipeline\<close>

definition gap_finish :: "('d, 'z) env \<Rightarrow> ('d, 'z) pstate \<Rightarrow> ('d, 'z) pstate" where
  "gap_finish E w = (source_remove E (gap_id w) w)\<lparr>gap_id := 0\<rparr>"

text \<open>The timer: whether it stays.\<close>

definition elapsed_timeout :: "('d, 'z) env \<Rightarrow> ('d, 'z) pstate \<Rightarrow> (bool \<times> ('d, 'z) pstate) option" where
  "elapsed_timeout E w =
     (case player_func_elapsed (pe_hooks E) of
        None \<Rightarrow> Some (False, w\<lparr>elapsed_id := 0\<rparr>)
      | Some f \<Rightarrow>
          let pos = (case g_position (pe_gst E) (ext w) of None \<Rightarrow> 0 | Some p \<Rightarrow> p)
          in do { w \<leftarrow> f (c_uint64 pos) w; Some (True, w) })"

definition elapsed_add :: "('d, 'z) env \<Rightarrow> ('d, 'z) pstate \<Rightarrow> ('d, 'z) pstate" where
  "elapsed_add E w =
     (if player_func_elapsed (pe_hooks E) = None then w
      else if elapsed_id w \<noteq> 0 then w
      else case g_timeout_add (pe_gst E) 1000 cb_elapsed_timeout (ext w) of (i, d) \<Rightarrow> w\<lparr>ext := d, elapsed_id := i\<rparr>)"

definition elapsed_del :: "('d, 'z) env \<Rightarrow> ('d, 'z) pstate \<Rightarrow> ('d, 'z) pstate" where
  "elapsed_del E w =
     (if elapsed_id w = 0 then w else (source_remove E (elapsed_id w) w)\<lparr>elapsed_id := 0\<rparr>)"

definition bp_status :: "('d, 'z) env \<Rightarrow> ('d, 'z) pstate \<Rightarrow> playstatus" where
  "bp_status E w =
     (if state E w = GST_STATE_PLAYING then pl_play
      else if gap_id w \<noteq> 0 then pl_play
      else if state E w = GST_STATE_PAUSED then pl_pause
      else pl_stop)"

text \<open>\<open>bp_volume\<close> always returns \<open>PE_OK\<close>, which is 0.\<close>

definition bp_volume :: "('d, 'z) env \<Rightarrow> ('d, 'z) pstate \<Rightarrow> (int \<times> ('d, 'z) pstate) option" where
  "bp_volume E w =
     (if curtrack w = Null then Some (0, w)
      else do {
        v \<leftarrow> (if rgtype w = rg_none then Some Vol_unity
              else do { t \<leftarrow> deref (curtrack w); Some (Vol_gain (track_rgval t (rgtype w)) (rgpreamp w)) });
        Some (0, w\<lparr>ext := g_volume (pe_gst E) v (ext w)\<rparr>) })"

text \<open>A \<open>guint64\<close> read as \<open>gint64\<close>.\<close>

definition s64 :: "int \<Rightarrow> int" where
  "s64 x = signed_take_bit 63 x"

text \<open>Both branches log fields of the current track before they seek.\<close>

definition bp_seek :: "('d, 'z) env \<Rightarrow> int \<Rightarrow> ('d, 'z) pstate \<Rightarrow> (bool \<times> ('d, 'z) pstate) option" where
  "bp_seek E pos w =
     do { t \<leftarrow> deref (curtrack w);
          let upto = (if cut w \<noteq> 0 \<and> tr_seg_to t \<noteq> 0 \<and> pos < s64 (tr_seg_to t) then Some (s64 (tr_seg_to t)) else None);
          (case g_seek (pe_gst E) pos upto (ext w) of (ok, d) \<Rightarrow> Some (ok, w\<lparr>ext := d\<rparr>)) }"

text \<open>The results of the \<open>bp_\<close> functions: \<open>-1\<close>, or a \<open>t_playerror\<close> as its number.\<close>

definition bp_start :: "('d, 'z) env \<Rightarrow> ('d, 'z) pstate \<Rightarrow> (int \<times> ('d, 'z) pstate) option" where
  "bp_start E w =
     (if bp_status E w \<noteq> pl_stop then Some (- 1, w)
      else do {
        w \<leftarrow> db_getnext E w;
        if curtrack w = Null then do { w \<leftarrow> notify (player_func_stop (pe_hooks E)) w; Some (2, w) }
        else do {
          t \<leftarrow> deref (curtrack w);
          let w = w\<lparr>ext := g_location (pe_gst E) (track_mkpath (pe_opt E) MAXPATHLEN t) (ext w)\<rparr>;
          (r, w) \<leftarrow> bp_volume E w;
          let w = snd (set_state E GST_STATE_PAUSED w);
          let w = w\<lparr>ext := g_get_state (pe_gst E) (ext w)\<rparr>;
          (r, w) \<leftarrow> bp_seek E (if cut w \<noteq> 0 then s64 (tr_seg_from t) else 0) w;
          (case set_state E GST_STATE_PLAYING w of (ok, w) \<Rightarrow>
             if \<not> ok then do {
               w \<leftarrow> db_finish E False w;
               w \<leftarrow> notify (player_func_stop (pe_hooks E)) w;
               Some (5, w) }
             else do {
               w \<leftarrow> notify (player_func_newtrack (pe_hooks E)) w;
               Some (0, elapsed_add E w) }) } })"

definition bp_finish :: "('d, 'z) env \<Rightarrow> bool \<Rightarrow> ('d, 'z) pstate \<Rightarrow> ('d, 'z) pstate option" where
  "bp_finish E complete w =
     (let w = elapsed_del E w;
          w = (if gap_id w \<noteq> 0 then gap_finish E w else w)
      in case set_state E GST_STATE_NULL w of (ok, w) \<Rightarrow> db_finish E (ok \<and> complete) w)"

definition bp_resume :: "('d, 'z) env \<Rightarrow> ('d, 'z) pstate \<Rightarrow> (int \<times> ('d, 'z) pstate) option" where
  "bp_resume E w =
     (if state E w \<noteq> GST_STATE_PAUSED then Some (- 1, w)
      else case set_state E GST_STATE_PLAYING w of (ok, w) \<Rightarrow>
        if \<not> ok then do {
          w \<leftarrow> bp_finish E False w;
          w \<leftarrow> notify (player_func_stop (pe_hooks E)) w;
          Some (- 1, w) }
        else do {
          w \<leftarrow> notify (player_func_resume (pe_hooks E)) w;
          Some (0, elapsed_add E w) })"

definition bp_pause :: "('d, 'z) env \<Rightarrow> ('d, 'z) pstate \<Rightarrow> (int \<times> ('d, 'z) pstate) option" where
  "bp_pause E w =
     (if gap_id w \<noteq> 0 then do { w \<leftarrow> notify (player_func_stop (pe_hooks E)) (gap_finish E w); Some (0, w) }
      else if state E w \<noteq> GST_STATE_PLAYING then Some (- 1, w)
      else case set_state E GST_STATE_PAUSED w of (ok, w) \<Rightarrow>
        if \<not> ok then do {
          w \<leftarrow> bp_finish E False w;
          w \<leftarrow> notify (player_func_stop (pe_hooks E)) w;
          Some (- 1, w) }
        else do {
          w \<leftarrow> notify (player_func_pause (pe_hooks E)) w;
          Some (0, elapsed_del E w) })"

text \<open>The gap timer, which never stays.\<close>

definition gap_timeout :: "('d, 'z) env \<Rightarrow> ('d, 'z) pstate \<Rightarrow> ('d, 'z) pstate option" where
  "gap_timeout E w = do { (r, w) \<leftarrow> bp_start E (w\<lparr>gap_id := 0\<rparr>); Some w }"

text \<open>Messages of the pipeline; the others are only logged. The test for an early end only logs as well.\<close>

datatype gst_message = GST_MESSAGE_EOS | GST_MESSAGE_ERROR | GST_MESSAGE_OTHER

definition cb_bus :: "('d, 'z) env \<Rightarrow> gst_message \<Rightarrow> ('d, 'z) pstate \<Rightarrow> ('d, 'z) pstate option" where
  "cb_bus E message w =
     (case message of
        GST_MESSAGE_EOS \<Rightarrow>
          if curtrack w = Dangling then None
          else do {
            w \<leftarrow> bp_finish E True w;
            if gap w \<noteq> 0
            then (case g_timeout_add (pe_gst E) (c_uint (1000 * gap w)) cb_gap_timeout (ext w) of (i, d) \<Rightarrow>
                    Some (w\<lparr>ext := d, gap_id := i\<rparr>))
            else do { (r, w) \<leftarrow> bp_start E w; Some w } }
      | GST_MESSAGE_ERROR \<Rightarrow>
          if curtrack w = Dangling then None
          else do { w \<leftarrow> bp_finish E False w; notify (player_func_stop (pe_hooks E)) w }
      | GST_MESSAGE_OTHER \<Rightarrow> Some w)"

section \<open>The interface\<close>

definition player_track :: "('d, 'z) pstate \<Rightarrow> track option option" where
  "player_track w = (case curtrack w of Null \<Rightarrow> Some None | Track t \<Rightarrow> Some (Some t) | Dangling \<Rightarrow> None)"

definition player_status :: "('d, 'z) env \<Rightarrow> ('d, 'z) pstate \<Rightarrow> playstatus" where
  "player_status E w = bp_status E w"

definition player_gap :: "('d, 'z) pstate \<Rightarrow> int" where
  "player_gap w = gap w"

definition player_setgap :: "int \<Rightarrow> ('d, 'z) pstate \<Rightarrow> playerror \<times> ('d, 'z) pstate" where
  "player_setgap g w = (PE_OK, w\<lparr>gap := g\<rparr>)"

definition player_cut :: "('d, 'z) pstate \<Rightarrow> int" where
  "player_cut w = cut w"

definition player_setcut :: "int \<Rightarrow> ('d, 'z) pstate \<Rightarrow> playerror \<times> ('d, 'z) pstate" where
  "player_setcut g w = (PE_OK, w\<lparr>cut := g\<rparr>)"

definition player_rgpreamp :: "('d, 'z) pstate \<Rightarrow> double" where
  "player_rgpreamp w = rgpreamp w"

definition player_setrgpreamp :: "('d, 'z) env \<Rightarrow> double \<Rightarrow> ('d, 'z) pstate \<Rightarrow> (playerror \<times> ('d, 'z) pstate) option" where
  "player_setrgpreamp E g w =
     do { (r, w) \<leftarrow> bp_volume E (w\<lparr>rgpreamp := g\<rparr>); Some (if r \<noteq> 0 then PE_OK else PE_FAIL, w) }"

definition player_rgtype :: "('d, 'z) pstate \<Rightarrow> replaygain" where
  "player_rgtype w = rgtype w"

definition player_setrgtype :: "('d, 'z) env \<Rightarrow> replaygain \<Rightarrow> ('d, 'z) pstate \<Rightarrow> (playerror \<times> ('d, 'z) pstate) option" where
  "player_setrgtype E g w =
     do { (r, w) \<leftarrow> bp_volume E (w\<lparr>rgtype := g\<rparr>); Some (if r \<noteq> 0 then PE_OK else PE_FAIL, w) }"

definition player_random :: "('d, 'z) pstate \<Rightarrow> int" where
  "player_random w = do_random w"

definition player_setrandom :: "('d, 'z) env \<Rightarrow> int \<Rightarrow> ('d, 'z) pstate \<Rightarrow> (playerror \<times> ('d, 'z) pstate) option" where
  "player_setrandom E r w =
     (let old = do_random w; w = w\<lparr>do_random := (if r \<noteq> 0 then 1 else 0)\<rparr>
      in do { w \<leftarrow> (if old \<noteq> do_random w then notify (player_func_random (pe_hooks E)) w else Some w);
              Some (PE_OK, w) })"

definition GST_SECOND :: int where "GST_SECOND = 1000000000"

definition player_elapsed :: "('d, 'z) env \<Rightarrow> ('d, 'z) pstate \<Rightarrow> int" where
  "player_elapsed E w =
     (if bp_status E w = pl_stop then 0
      else case g_position (pe_gst E) (ext w) of None \<Rightarrow> 0 | Some pos \<Rightarrow> c_int (c_div pos GST_SECOND))"

definition player_jump :: "('d, 'z) env \<Rightarrow> int \<Rightarrow> ('d, 'z) pstate \<Rightarrow> (playerror \<times> ('d, 'z) pstate) option" where
  "player_jump E to_sec w =
     (if bp_status E w = pl_stop then Some (PE_NOTHING, w)
      else do { (ok, w) \<leftarrow> bp_seek E (to_sec * GST_SECOND) w; Some (if ok then PE_OK else PE_FAIL, w) })"

text \<open>In \<open>player_pause\<close> the second test is the constant \<open>pl_stop\<close>, which is 0.\<close>

definition player_pause :: "('d, 'z) env \<Rightarrow> ('d, 'z) pstate \<Rightarrow> (playerror \<times> ('d, 'z) pstate) option" where
  "player_pause E w =
     (if bp_status E w = pl_pause then Some (PE_NOTHING, w)
      else do { (r, w) \<leftarrow> bp_pause E w; Some (if r = - 1 then PE_FAIL else PE_OK, w) })"

definition player_start :: "('d, 'z) env \<Rightarrow> ('d, 'z) pstate \<Rightarrow> (playerror \<times> ('d, 'z) pstate) option" where
  "player_start E w =
     (case bp_status E w of
        pl_play \<Rightarrow> Some (PE_NOTHING, w)
      | pl_pause \<Rightarrow> do { (r, w) \<leftarrow> bp_resume E w; Some (if r = - 1 then PE_FAIL else PE_OK, w) }
      | pl_stop \<Rightarrow> do { (r, w) \<leftarrow> bp_start E w; Some (if r = - 1 then PE_FAIL else PE_OK, w) })"

definition player_next :: "('d, 'z) env \<Rightarrow> ('d, 'z) pstate \<Rightarrow> (playerror \<times> ('d, 'z) pstate) option" where
  "player_next E w =
     do { w \<leftarrow> bp_finish E True w; (r, w) \<leftarrow> bp_start E w; Some (if r = - 1 then PE_FAIL else PE_OK, w) }"

definition player_prev :: "('d, 'z) pstate \<Rightarrow> playerror \<times> ('d, 'z) pstate" where
  "player_prev w = (PE_NOTHING, w)"

definition player_stop :: "('d, 'z) env \<Rightarrow> ('d, 'z) pstate \<Rightarrow> (playerror \<times> ('d, 'z) pstate) option" where
  "player_stop E w =
     (if bp_status E w = pl_stop then Some (PE_NOTHING, w)
      else do { w \<leftarrow> bp_finish E True w; w \<leftarrow> notify (player_func_stop (pe_hooks E)) w; Some (PE_OK, w) })"

definition player_done :: "('d, 'z) env \<Rightarrow> ('d, 'z) pstate \<Rightarrow> ('d, 'z) pstate option" where
  "player_done E w = do { (r, w) \<leftarrow> player_stop E w; Some (snd (set_state E GST_STATE_NULL w)) }"

section \<open>The sleep timer\<close>

definition sleep_timeout :: "('d, 'z) env \<Rightarrow> ('d, 'z) pstate \<Rightarrow> ('d, 'z) pstate option" where
  "sleep_timeout E w = do { (r, w) \<leftarrow> player_pause E w; Some (w\<lparr>sleep_id := 0, sleep_at := 0\<rparr>) }"

definition sleep_remain :: "('d, 'z) env \<Rightarrow> ('d, 'z) pstate \<Rightarrow> int \<times> ('d, 'z) pstate" where
  "sleep_remain E w =
     (if sleep_at w = 0 then (0, w)
      else case c_time (pe_libc E) w of (now, w) \<Rightarrow> (if sleep_at w \<le> now then 0 else sleep_at w - now, w))"

text \<open>\<open>g_timeout_add\<close> takes an unsigned number of milliseconds.\<close>

definition sleep_in :: "('d, 'z) env \<Rightarrow> int \<Rightarrow> ('d, 'z) pstate \<Rightarrow> ('d, 'z) pstate option" where
  "sleep_in E sek w =
     (let old = sleep_at w;
          w = (if sleep_id w \<noteq> 0 then source_remove E (sleep_id w) w else w);
          w = w\<lparr>sleep_id := 0, sleep_at := 0\<rparr>;
          w = (if sek > 0
               then (case g_timeout_add (pe_gst E) (c_uint (sek * 1000)) sleep_event (ext w) of (i, d) \<Rightarrow>
                       (case c_time (pe_libc E) (w\<lparr>ext := d, sleep_id := i\<rparr>) of (now, w) \<Rightarrow> w\<lparr>sleep_at := now + sek\<rparr>))
               else w)
      in if old \<noteq> sleep_at w then notify (sleep_func_set (pe_hooks E)) w else Some w)"

end
