(* ===== verification/Protosend.thy ===== *)
theory Protosend
  imports Protofmt Player
begin

text \<open>
  Replies and broadcasts: the sending half of \<open>src/proto_helper.c\<close>, the \<open>dump_\<close> functions of
  \<open>src/proto_fmt.c\<close>, \<open>src/proto_bcast.c\<close>, and the two hooks of \<open>src/proto.c\<close> for new and lost connections. Texts
  are the expanded formats. \<open>disconnect\<close> closes the circle of \<open>client.c\<close> and the protocol: freeing a client calls
  the hook, the hook sends a broadcast, and a failed send frees another client.
\<close>

section \<open>Replies\<close>

definition proto_vline :: "'d netlib \<Rightarrow> ('d, 'z) disc \<Rightarrow> ptr \<Rightarrow> bool \<Rightarrow> string \<Rightarrow> string \<Rightarrow> ('d, 'z) netst_scheme
    \<Rightarrow> (int \<times> ('d, 'z) netst_scheme) option" where
  "proto_vline N disc p lst code body w =
     do { line \<leftarrow> proto_fmtline lst code body;
          (case line of None \<Rightarrow> Some (- 1, w) | Some l \<Rightarrow> client_send N disc p l w) }"

definition proto_rline :: "'d netlib \<Rightarrow> ('d, 'z) disc \<Rightarrow> ptr \<Rightarrow> string \<Rightarrow> string \<Rightarrow> ('d, 'z) netst_scheme
    \<Rightarrow> (int \<times> ('d, 'z) netst_scheme) option" where
  "proto_rline N disc p code body w = proto_vline N disc p False code body w"

definition proto_rlast :: "'d netlib \<Rightarrow> ('d, 'z) disc \<Rightarrow> ptr \<Rightarrow> string \<Rightarrow> string \<Rightarrow> ('d, 'z) netst_scheme
    \<Rightarrow> (int \<times> ('d, 'z) netst_scheme) option" where
  "proto_rlast N disc p code body w = proto_vline N disc p True code body w"

definition proto_bcast :: "'d netlib \<Rightarrow> ('d, 'z) disc \<Rightarrow> int \<Rightarrow> string \<Rightarrow> string \<Rightarrow> ('d, 'z) netst_scheme
    \<Rightarrow> ('d, 'z) netst_scheme option" where
  "proto_bcast N disc right code body w =
     do { line \<leftarrow> proto_fmtline True code body;
          (case line of None \<Rightarrow> Some w | Some l \<Rightarrow> client_bcast_perm N disc l right w) }"

text \<open>A reply whose result the caller ignores.\<close>

definition reply :: "'d netlib \<Rightarrow> ('d, 'z) disc \<Rightarrow> ptr \<Rightarrow> string \<Rightarrow> string \<Rightarrow> ('d, 'z) netst_scheme
    \<Rightarrow> ('d, 'z) netst_scheme option" where
  "reply N disc p code body w = map_option snd (proto_rlast N disc p code body w)"

definition proto_player_reply :: "'d netlib \<Rightarrow> ('d, 'z) disc \<Rightarrow> ptr \<Rightarrow> playerror \<Rightarrow> string \<Rightarrow> string
    \<Rightarrow> ('d, 'z) netst_scheme \<Rightarrow> ('d, 'z) netst_scheme option" where
  "proto_player_reply N disc p r code body w =
     (case r of
        PE_OK \<Rightarrow> reply N disc p code body w
      | PE_NOTHING \<Rightarrow> reply N disc p ''541'' ''nothing to do'' w
      | PE_BUSY \<Rightarrow> reply N disc p ''541'' ''already doing this'' w
      | PE_NOSUP \<Rightarrow> reply N disc p ''541'' ''not supported'' w
      | PE_SYS \<Rightarrow> reply N disc p ''540'' (''player error: '' @ n_strerror N (ext w)) w
      | PE_FAIL \<Rightarrow> reply N disc p ''541'' ''player error'' w)"

section \<open>Dumping rows\<close>

text \<open>
  All \<open>dump_\<close> functions for one row are the same apart from the function that formats it, and so are all for a
  list. Formatting fails only without memory.
\<close>

definition dump_one :: "'d netlib \<Rightarrow> ('d, 'z) disc \<Rightarrow> ptr \<Rightarrow> string
    \<Rightarrow> (('d, 'z) netst_scheme \<Rightarrow> (string \<times> ('d, 'z) netst_scheme) option) \<Rightarrow> ('d, 'z) netst_scheme \<Rightarrow> ('d, 'z) netst_scheme option" where
  "dump_one N disc p code mk w = do { (s, w) \<leftarrow> mk w; reply N disc p code s w }"

definition dump_step :: "'d netlib \<Rightarrow> ('d, 'z) disc \<Rightarrow> ptr \<Rightarrow> string
    \<Rightarrow> ('a \<Rightarrow> ('d, 'z) netst_scheme \<Rightarrow> (string \<times> ('d, 'z) netst_scheme) option) \<Rightarrow> ('a \<Rightarrow> ('d, 'z) netst_scheme \<Rightarrow> ('d, 'z) netst_scheme option)
    \<Rightarrow> 'a \<Rightarrow> ('d, 'z) netst_scheme \<Rightarrow> (unit option \<times> ('d, 'z) netst_scheme) option" where
  "dump_step N disc p code mk row_free t w =
     do { (buf, w) \<leftarrow> mk t w;
          (r, w) \<leftarrow> proto_rline N disc p code buf w;
          w \<leftarrow> row_free t w;
          Some (if r < 0 then Some () else None, w) }"

definition dump_end :: "'d netlib \<Rightarrow> ('d, 'z) disc \<Rightarrow> ptr \<Rightarrow> string \<Rightarrow> unit option \<times> ('d, 'z) netst_scheme
    \<Rightarrow> ('d, 'z) netst_scheme option" where
  "dump_end N disc p code r = (case r of (None, w) \<Rightarrow> reply N disc p code [] w | (Some _, w) \<Rightarrow> Some w)"

text \<open>\<open>it_db_begin\<close> and \<open>it_db_next\<close> on a pointer that may be \<open>NULL\<close>.\<close>

definition rows_begin :: "('w, 'a) it_db option \<Rightarrow> 'w \<Rightarrow> ('a option \<times> ('w, 'a) it_db option \<times> 'w) option" where
  "rows_begin it w = (case it of None \<Rightarrow> Some (None, None, w)
     | Some i \<Rightarrow> do { (x, i, w) \<leftarrow> it_db_begin i w; Some (x, Some i, w) })"

definition rows_next :: "('w, 'a) it_db option \<Rightarrow> 'w \<Rightarrow> ('a option \<times> ('w, 'a) it_db option \<times> 'w) option" where
  "rows_next it w = (case it of None \<Rightarrow> Some (None, None, w)
     | Some i \<Rightarrow> do { (x, i, w) \<leftarrow> it_db_next i w; Some (x, Some i, w) })"

definition dump_rows :: "'d netlib \<Rightarrow> ('d, 'z) disc \<Rightarrow> ptr \<Rightarrow> string
    \<Rightarrow> ('a \<Rightarrow> ('d, 'z) netst_scheme \<Rightarrow> (string \<times> ('d, 'z) netst_scheme) option) \<Rightarrow> (('d, 'z) netst_scheme, 'a) it_db option
    \<Rightarrow> ('d, 'z) netst_scheme \<Rightarrow> ('d, 'z) netst_scheme option" where
  "dump_rows N disc p code mk it w =
     do { (x, it, w) \<leftarrow> rows_begin it w;
          r \<leftarrow> for_until rows_next (dump_step N disc p code mk (\<lambda>t w. Some w)) x it w;
          dump_end N disc p code r }"

definition dump_client :: "'d netlib \<Rightarrow> ('d, 'z) disc \<Rightarrow> ptr \<Rightarrow> string \<Rightarrow> ptr \<Rightarrow> ('d, 'z) netst_scheme \<Rightarrow> ('d, 'z) netst_scheme option" where
  "dump_client N disc p code t = dump_one N disc p code (\<lambda>w. do { c \<leftarrow> heap w t; mkclient c w })"

definition dump_user :: "'d netlib \<Rightarrow> ('d, 'z) disc \<Rightarrow> ptr \<Rightarrow> string \<Rightarrow> user \<Rightarrow> ('d, 'z) netst_scheme \<Rightarrow> ('d, 'z) netst_scheme option" where
  "dump_user N disc p code t = dump_one N disc p code (mkuser (Some t))"

definition dump_track :: "'d netlib \<Rightarrow> ('d, 'z) disc \<Rightarrow> ptr \<Rightarrow> string \<Rightarrow> track \<Rightarrow> ('d, 'z) netst_scheme \<Rightarrow> ('d, 'z) netst_scheme option" where
  "dump_track N disc p code t = dump_one N disc p code (mktrack t)"

definition dump_tag :: "'d netlib \<Rightarrow> ('d, 'z) disc \<Rightarrow> ptr \<Rightarrow> string \<Rightarrow> tag \<Rightarrow> ('d, 'z) netst_scheme \<Rightarrow> ('d, 'z) netst_scheme option" where
  "dump_tag N disc p code t = dump_one N disc p code (mktag t)"

definition dump_album :: "'d netlib \<Rightarrow> ('d, 'z) disc \<Rightarrow> ptr \<Rightarrow> string \<Rightarrow> album \<Rightarrow> ('d, 'z) netst_scheme \<Rightarrow> ('d, 'z) netst_scheme option" where
  "dump_album N disc p code t = dump_one N disc p code (mkalbum t)"

definition dump_artist :: "'d netlib \<Rightarrow> ('d, 'z) disc \<Rightarrow> ptr \<Rightarrow> string \<Rightarrow> artist \<Rightarrow> ('d, 'z) netst_scheme \<Rightarrow> ('d, 'z) netst_scheme option" where
  "dump_artist N disc p code t = dump_one N disc p code (mkartist t)"

definition dump_queue :: "'d netlib \<Rightarrow> ('d, 'z) disc \<Rightarrow> ptr \<Rightarrow> string \<Rightarrow> queue \<Rightarrow> ('d, 'z) netst_scheme \<Rightarrow> ('d, 'z) netst_scheme option" where
  "dump_queue N disc p code t = dump_one N disc p code (mkqueue t)"

definition dump_sfilter :: "'d netlib \<Rightarrow> ('d, 'z) disc \<Rightarrow> ptr \<Rightarrow> string \<Rightarrow> sfilter \<Rightarrow> ('d, 'z) netst_scheme \<Rightarrow> ('d, 'z) netst_scheme option" where
  "dump_sfilter N disc p code t = dump_one N disc p code (mksfilter t)"

definition dump_users :: "'d netlib \<Rightarrow> ('d, 'z) disc \<Rightarrow> ptr \<Rightarrow> string \<Rightarrow> (('d, 'z) netst_scheme, user) it_db option
    \<Rightarrow> ('d, 'z) netst_scheme \<Rightarrow> ('d, 'z) netst_scheme option" where
  "dump_users N disc p code it = dump_rows N disc p code (\<lambda>t. mkuser (Some t)) it"

text \<open>The list of clients: its rows are references that have to be given back.\<close>

definition dump_clients :: "'d netlib \<Rightarrow> ('d, 'z) disc \<Rightarrow> ptr \<Rightarrow> string \<Rightarrow> it_client \<Rightarrow> ('d, 'z) netst_scheme
    \<Rightarrow> ('d, 'z) netst_scheme option" where
  "dump_clients N disc p code it w =
     do { (x, it, w) \<leftarrow> it_client_begin it w;
          r \<leftarrow> for_until it_client_next
            (dump_step N disc p code (\<lambda>t w. do { c \<leftarrow> heap w t; mkclient c w }) (client_delref N disc)) x it w;
          dump_end N disc p code r }"

definition dump_tracks :: "'d netlib \<Rightarrow> ('d, 'z) disc \<Rightarrow> ptr \<Rightarrow> string \<Rightarrow> (('d, 'z) netst_scheme, track) it_db option
    \<Rightarrow> ('d, 'z) netst_scheme \<Rightarrow> ('d, 'z) netst_scheme option" where
  "dump_tracks N disc p code it = dump_rows N disc p code mktrack it"

definition dump_history :: "'d netlib \<Rightarrow> ('d, 'z) disc \<Rightarrow> ptr \<Rightarrow> string \<Rightarrow> (('d, 'z) netst_scheme, history) it_db option
    \<Rightarrow> ('d, 'z) netst_scheme \<Rightarrow> ('d, 'z) netst_scheme option" where
  "dump_history N disc p code it = dump_rows N disc p code mkhistory it"

definition dump_tags :: "'d netlib \<Rightarrow> ('d, 'z) disc \<Rightarrow> ptr \<Rightarrow> string \<Rightarrow> (('d, 'z) netst_scheme, tag) it_db option
    \<Rightarrow> ('d, 'z) netst_scheme \<Rightarrow> ('d, 'z) netst_scheme option" where
  "dump_tags N disc p code it = dump_rows N disc p code mktag it"

definition dump_albums :: "'d netlib \<Rightarrow> ('d, 'z) disc \<Rightarrow> ptr \<Rightarrow> string \<Rightarrow> (('d, 'z) netst_scheme, album) it_db option
    \<Rightarrow> ('d, 'z) netst_scheme \<Rightarrow> ('d, 'z) netst_scheme option" where
  "dump_albums N disc p code it = dump_rows N disc p code mkalbum it"

definition dump_artists :: "'d netlib \<Rightarrow> ('d, 'z) disc \<Rightarrow> ptr \<Rightarrow> string \<Rightarrow> (('d, 'z) netst_scheme, artist) it_db option
    \<Rightarrow> ('d, 'z) netst_scheme \<Rightarrow> ('d, 'z) netst_scheme option" where
  "dump_artists N disc p code it = dump_rows N disc p code mkartist it"

definition dump_queues :: "'d netlib \<Rightarrow> ('d, 'z) disc \<Rightarrow> ptr \<Rightarrow> string \<Rightarrow> (('d, 'z) netst_scheme, queue) it_db option
    \<Rightarrow> ('d, 'z) netst_scheme \<Rightarrow> ('d, 'z) netst_scheme option" where
  "dump_queues N disc p code it = dump_rows N disc p code mkqueue it"

definition dump_sfilters :: "'d netlib \<Rightarrow> ('d, 'z) disc \<Rightarrow> ptr \<Rightarrow> string \<Rightarrow> (('d, 'z) netst_scheme, sfilter) it_db option
    \<Rightarrow> ('d, 'z) netst_scheme \<Rightarrow> ('d, 'z) netst_scheme option" where
  "dump_sfilters N disc p code it = dump_rows N disc p code mksfilter it"

section \<open>Broadcasts\<close>

text \<open>A broadcast of one record.\<close>

definition bcast_row :: "'d netlib \<Rightarrow> ('d, 'z) disc \<Rightarrow> int \<Rightarrow> string
    \<Rightarrow> (('d, 'z) netst_scheme \<Rightarrow> (string \<times> ('d, 'z) netst_scheme) option) \<Rightarrow> ('d, 'z) netst_scheme \<Rightarrow> ('d, 'z) netst_scheme option" where
  "bcast_row N disc right code mk w = do { (s, w) \<leftarrow> mk w; proto_bcast N disc right code s w }"

definition proto_bcast_login :: "'d netlib \<Rightarrow> ('d, 'z) disc \<Rightarrow> ptr \<Rightarrow> ('d, 'z) netst_scheme \<Rightarrow> ('d, 'z) netst_scheme option" where
  "proto_bcast_login N disc p = bcast_row N disc r_user ''630'' (\<lambda>w. do { c \<leftarrow> heap w p; mkclient c w })"

definition proto_bcast_logout :: "'d netlib \<Rightarrow> ('d, 'z) disc \<Rightarrow> ptr \<Rightarrow> ('d, 'z) netst_scheme \<Rightarrow> ('d, 'z) netst_scheme option" where
  "proto_bcast_logout N disc p = bcast_row N disc r_user ''631'' (\<lambda>w. do { c \<leftarrow> heap w p; mkclient c w })"

definition proto_bcast_player_newtrack :: "'d netlib \<Rightarrow> ('d, 'z plst_ext) disc \<Rightarrow> ('d, 'z) plst_scheme \<Rightarrow> ('d, 'z) plst_scheme option" where
  "proto_bcast_player_newtrack N disc w =
     do { t \<leftarrow> player_track w;
          (case t of None \<Rightarrow> Some w | Some t \<Rightarrow> bcast_row N disc r_guest ''640'' (mktrack t) w) }"

definition proto_bcast_player_stop :: "'d netlib \<Rightarrow> ('d, 'z) disc \<Rightarrow> ('d, 'z) netst_scheme \<Rightarrow> ('d, 'z) netst_scheme option" where
  "proto_bcast_player_stop N disc = proto_bcast N disc r_guest ''641'' ''stopped''"

definition proto_bcast_player_pause :: "'d netlib \<Rightarrow> ('d, 'z) disc \<Rightarrow> ('d, 'z) netst_scheme \<Rightarrow> ('d, 'z) netst_scheme option" where
  "proto_bcast_player_pause N disc = proto_bcast N disc r_guest ''642'' ''paused''"

definition proto_bcast_player_resume :: "'d netlib \<Rightarrow> ('d, 'z) disc \<Rightarrow> ('d, 'z) netst_scheme \<Rightarrow> ('d, 'z) netst_scheme option" where
  "proto_bcast_player_resume N disc = proto_bcast N disc r_guest ''643'' ''resumed''"

definition proto_bcast_player_random :: "'d netlib \<Rightarrow> ('d, 'z plst_ext) disc \<Rightarrow> ('d, 'z) plst_scheme \<Rightarrow> ('d, 'z) plst_scheme option" where
  "proto_bcast_player_random N disc w = proto_bcast N disc r_guest ''646'' (fmt_d (player_random w)) w"

text \<open>\<open>elapsed / 1000000000\<close> is a \<open>guint64\<close> passed for \<open>%d\<close>; so is the \<open>time_t\<close> of \<open>sleep_remain\<close>.\<close>

definition proto_bcast_player_elapsed :: "'d netlib \<Rightarrow> ('d, 'z) disc \<Rightarrow> int \<Rightarrow> ('d, 'z) netst_scheme \<Rightarrow> ('d, 'z) netst_scheme option" where
  "proto_bcast_player_elapsed N disc elapsed = proto_bcast N disc r_guest ''647'' (fmt_d (c_int (elapsed div 1000000000)))"

definition proto_bcast_sleep :: "'d netlib \<Rightarrow> ('d, 'z plst_ext) disc \<Rightarrow> ('d, 'z) env \<Rightarrow> ('d, 'z) plst_scheme \<Rightarrow> ('d, 'z) plst_scheme option" where
  "proto_bcast_sleep N disc E w =
     (case sleep_remain E w of (r, w) \<Rightarrow> proto_bcast N disc r_guest ''651'' (fmt_d (c_int r)) w)"

text \<open>
  The filter printed into an array of 1024 bytes: the C string it holds afterwards. \<open>expr_fmt\<close> always
  terminates it.
\<close>

definition filter_text :: "expr option \<Rightarrow> string option" where
  "filter_text e = (case e of None \<Rightarrow> Some []
     | Some e \<Rightarrow> do { (n, m) \<leftarrow> expr_fmt (replicate 1024 NUL) 0 1024 e; Some (cstr m 0) })"

definition proto_bcast_filter :: "'d netlib \<Rightarrow> ('d, 'z) disc \<Rightarrow> ('d, 'z) netst_scheme \<Rightarrow> ('d, 'z) netst_scheme option" where
  "proto_bcast_filter N disc w =
     do { s \<leftarrow> filter_text (random_filter w); proto_bcast N disc r_guest ''650'' s w }"

definition proto_bcast_queue_fetch :: "'d netlib \<Rightarrow> ('d, 'z) disc \<Rightarrow> queue \<Rightarrow> ('d, 'z) netst_scheme \<Rightarrow> ('d, 'z) netst_scheme option" where
  "proto_bcast_queue_fetch N disc q = bcast_row N disc r_guest ''660'' (mkqueue q)"

definition proto_bcast_queue_add :: "'d netlib \<Rightarrow> ('d, 'z) disc \<Rightarrow> queue \<Rightarrow> ('d, 'z) netst_scheme \<Rightarrow> ('d, 'z) netst_scheme option" where
  "proto_bcast_queue_add N disc q = bcast_row N disc r_guest ''661'' (mkqueue q)"

definition proto_bcast_queue_del :: "'d netlib \<Rightarrow> ('d, 'z) disc \<Rightarrow> queue \<Rightarrow> ('d, 'z) netst_scheme \<Rightarrow> ('d, 'z) netst_scheme option" where
  "proto_bcast_queue_del N disc q = bcast_row N disc r_guest ''662'' (mkqueue q)"

definition proto_bcast_queue_clear :: "'d netlib \<Rightarrow> ('d, 'z) disc \<Rightarrow> ('d, 'z) netst_scheme \<Rightarrow> ('d, 'z) netst_scheme option" where
  "proto_bcast_queue_clear N disc = proto_bcast N disc r_guest ''663'' ''queue cleared''"

definition proto_bcast_tag_changed :: "'d netlib \<Rightarrow> ('d, 'z) disc \<Rightarrow> tag \<Rightarrow> ('d, 'z) netst_scheme \<Rightarrow> ('d, 'z) netst_scheme option" where
  "proto_bcast_tag_changed N disc t = bcast_row N disc r_guest ''670'' (mktag t)"

definition proto_bcast_tag_del :: "'d netlib \<Rightarrow> ('d, 'z) disc \<Rightarrow> tag \<Rightarrow> ('d, 'z) netst_scheme \<Rightarrow> ('d, 'z) netst_scheme option" where
  "proto_bcast_tag_del N disc t = bcast_row N disc r_guest ''671'' (mktag t)"

section \<open>New and lost connections\<close>

definition proto_newclient :: "'d netlib \<Rightarrow> ('d, 'z) disc \<Rightarrow> ptr \<Rightarrow> ('d, 'z) netst_scheme \<Rightarrow> ('d, 'z) netst_scheme option" where
  "proto_newclient N disc p w =
     do { c \<leftarrow> heap w p;
          w \<leftarrow> reply N disc p ''220'' ''dudld 1 2'' (put p (c\<lparr>c_ifunc := True\<rparr>) w);
          c \<leftarrow> heap w p;
          Some w }"

definition proto_delclient :: "'d netlib \<Rightarrow> ('d, 'z) disc \<Rightarrow> ptr \<Rightarrow> ('d, 'z) netst_scheme \<Rightarrow> ('d, 'z) netst_scheme option" where
  "proto_delclient N disc p w =
     do { c \<leftarrow> heap w p;
          if c_pstate c \<noteq> p_open then proto_bcast_logout N disc p w else Some w }"

text \<open>
  The hook as \<open>proto_init\<close> installs it, with a bound on how deep frees may nest. Every nested free has taken one
  more client from the list, so one level more than there are clients is enough (\<open>disconnect_enough\<close>).
\<close>

fun disconnect :: "'d netlib \<Rightarrow> nat \<Rightarrow> ptr \<Rightarrow> ('d, 'z) netst_scheme \<Rightarrow> ('d, 'z) netst_scheme option" where
  "disconnect N 0 p w = None"
| "disconnect N (Suc k) p w = proto_delclient N (Some (disconnect N k)) p w"

definition client_hook :: "'d netlib \<Rightarrow> ('d, 'z) disc" where
  "client_hook N = Some (\<lambda>p w. disconnect N (Suc (length (it_clients (clients w)))) p w)"

end
