(* ===== verification/Clientsafe.thy ===== *)
theory Clientsafe
  imports Client
begin

text \<open>
  Reference counts of the connections. \<open>held p\<close> counts the references to a client that functions on the
  stack hold; together with the one of the list they are exactly the counter of the structure
  (\<open>refs_ok\<close>). The locale \<open>disconnect_hook\<close> is what the client functions need of
  \<open>client_func_disconnect\<close>, and shows that under it no function of \<open>client.c\<close> touches a freed structure,
  however the loops over the global list are nested, and that all these loops end.
\<close>

section \<open>The invariant\<close>

abbreviation listed :: "('d, 'z) netst_scheme \<Rightarrow> ptr list" where
  "listed w \<equiv> it_clients (clients w)"

definition live :: "('d, 'z) netst_scheme \<Rightarrow> ptr \<Rightarrow> bool" where
  "live w p \<longleftrightarrow> (\<exists>c. heap w p = Some c \<and> c_del c = 0)"

definition refs_ok :: "(ptr \<Rightarrow> nat) \<Rightarrow> ('d, 'z) netst_scheme \<Rightarrow> bool" where
  "refs_ok held w \<longleftrightarrow>
     distinct (listed w) \<and> (\<forall>p \<in> set (listed w). live w p) \<and> (\<forall>p. 0 < held p \<longrightarrow> live w p) \<and>
     (\<forall>p c. heap w p = Some c \<longrightarrow> c_del c = 0 \<longrightarrow>
        c_refs c = int (held p + (if p \<in> set (listed w) then 1 else 0)) \<and> (0 < held p \<or> p \<in> set (listed w)))"

text \<open>
  What a function that may close clients leaves: the list only shrinks, a client that is just being
  freed stays as it is, the others are as before apart from their counters.
\<close>

definition shrinks :: "('d, 'z) netst_scheme \<Rightarrow> ('d, 'z) netst_scheme \<Rightarrow> bool" where
  "shrinks w w' \<longleftrightarrow>
     set (listed w') \<subseteq> set (listed w) \<and> length (listed w') \<le> length (listed w) \<and>
     (\<forall>p c. heap w p = Some c \<longrightarrow> c_del c \<noteq> 0 \<longrightarrow> heap w' p = Some c) \<and>
     (\<forall>p c'. heap w' p = Some c' \<longrightarrow> (\<exists>c. heap w p = Some c \<and> c' = c\<lparr>c_refs := c_refs c'\<rparr>)) \<and>
     fresh w' = fresh w \<and> maxid w' = maxid w \<and> rfilter w' = rfilter w \<and> dbcon w' = dbcon w \<and> inprogress w' = inprogress w \<and>
     length (tabbuf w') = length (tabbuf w)"

definition calm :: "(ptr \<Rightarrow> nat) \<Rightarrow> ('d, 'z) netst_scheme \<Rightarrow> ('d, 'z) netst_scheme \<Rightarrow> bool" where
  "calm held w w' \<longleftrightarrow> refs_ok held w' \<and> shrinks w w'"

abbreviation take_ref :: "ptr \<Rightarrow> (ptr \<Rightarrow> nat) \<Rightarrow> (ptr \<Rightarrow> nat)" where
  "take_ref p held \<equiv> held(p := Suc (held p))"

lemma heap_put [simp]: "heap (put p c w) = (heap w)(p := Some c)"
  and clients_put [simp]: "clients (put p c w) = clients w"
  and ext_put [simp]: "ext (put p c w) = ext w"
  and put_put [simp]: "put p c (put p c' w) = put p c w"
  by (simp_all add: put_def)

lemma shrinks_refl [simp]: "shrinks w w"
  by (auto simp: shrinks_def)

lemma shrinks_trans: "shrinks w w' \<Longrightarrow> shrinks w' w'' \<Longrightarrow> shrinks w w''"
proof -
  assume 1: "shrinks w w'" and 2: "shrinks w' w''"
  have "\<exists>c. heap w p = Some c \<and> c'' = c\<lparr>c_refs := c_refs c''\<rparr>" if p: "heap w'' p = Some c''" for p c''
  proof -
    obtain c' where c': "heap w' p = Some c'" "c'' = c'\<lparr>c_refs := c_refs c''\<rparr>"
      using 2 p unfolding shrinks_def by blast
    obtain c where c: "heap w p = Some c" "c' = c\<lparr>c_refs := c_refs c'\<rparr>"
      using 1 c'(1) unfolding shrinks_def by blast
    have "c'' = c\<lparr>c_refs := c_refs c''\<rparr>"
      using c'(2) c(2) by (cases c, cases c', cases c'') simp
    with c(1) show ?thesis by blast
  qed
  moreover have "heap w'' p = Some c" if "heap w p = Some c" "c_del c \<noteq> 0" for p c
    using 1 2 that unfolding shrinks_def by simp
  moreover have "set (listed w'') \<subseteq> set (listed w)" "length (listed w'') \<le> length (listed w)"
    "fresh w'' = fresh w" "maxid w'' = maxid w" "rfilter w'' = rfilter w" "dbcon w'' = dbcon w" "inprogress w'' = inprogress w"
    "length (tabbuf w'') = length (tabbuf w)"
    using 1 2 unfolding shrinks_def by auto
  ultimately show ?thesis unfolding shrinks_def by blast
qed

lemma calm_trans: "calm held w w' \<Longrightarrow> calm held' w' w'' \<Longrightarrow> calm held' w w''"
  by (auto simp: calm_def intro: shrinks_trans)

lemma shrinks_put: "heap w p = Some c \<Longrightarrow> c_del c = 0 \<Longrightarrow> shrinks w (put p (c\<lparr>c_refs := r\<rparr>) w)"
  by (auto simp: shrinks_def put_def)

lemma shrinks_ext: "shrinks w (w\<lparr>ext := d\<rparr>)"
  by (auto simp: shrinks_def)

lemma refs_ok_ext [simp]: "refs_ok held (w\<lparr>ext := d\<rparr>) \<longleftrightarrow> refs_ok held w"
  by (auto simp: refs_ok_def live_def)

lemma refs_ok_cur [simp]: "refs_ok held (w\<lparr>clients := (clients w)\<lparr>it_cur := k\<rparr>\<rparr>) \<longleftrightarrow> refs_ok held w"
  by (auto simp: refs_ok_def live_def)

lemma shrinks_cur: "shrinks w (w\<lparr>clients := (clients w)\<lparr>it_cur := k\<rparr>\<rparr>)"
  by (auto simp: shrinks_def)

lemma refs_ok_live: "refs_ok held w \<Longrightarrow> p \<in> set (listed w) \<or> 0 < held p \<Longrightarrow> \<exists>c. heap w p = Some c \<and> c_del c = 0"
  by (auto simp: refs_ok_def live_def)

lemma refs_ok_count: "refs_ok held w \<Longrightarrow> heap w p = Some c \<Longrightarrow> c_del c = 0 \<Longrightarrow>
    c_refs c = int (held p + (if p \<in> set (listed w) then 1 else 0))"
  by (simp add: refs_ok_def)

text \<open>Taking and giving back a reference that is not the last one.\<close>

lemma refs_ok_put:
  assumes "refs_ok held w" "heap w p = Some c" "c_del c = 0"
    and "r = int (n + (if p \<in> set (listed w) then 1 else 0))" "0 < n \<or> p \<in> set (listed w)"
  shows "refs_ok (held(p := n)) (put p (c\<lparr>c_refs := r\<rparr>) w)"
  using assms by (auto simp: refs_ok_def live_def put_def)

lemma addref_ok:
  assumes "refs_ok held w" "p \<in> set (listed w)"
  obtains w' where "client_addref p w = Some w'" "calm (take_ref p held) w w'" "clients w' = clients w"
proof -
  obtain c where c: "heap w p = Some c" "c_del c = 0" using refs_ok_live [of held w p] assms by auto
  let ?w = "put p (c\<lparr>c_refs := c_refs c + 1\<rparr>) w"
  have "refs_ok (take_ref p held) ?w"
    using refs_ok_put [OF assms(1) c, of "c_refs c + 1" "Suc (held p)"] refs_ok_count [OF assms(1) c] assms(2) by simp
  moreover have "client_addref p w = Some ?w" using c by (simp add: client_addref_def)
  moreover have "clients ?w = clients w" by (simp add: put_def)
  ultimately show ?thesis using that shrinks_put [OF c] by (simp add: calm_def)
qed

lemma delref_kept:
  assumes "refs_ok held w" "0 < held p" "p \<in> set (listed w) \<or> 1 < held p"
  obtains w' where "client_delref N disc p w = Some w'" "calm (held(p := held p - 1)) w w'" "clients w' = clients w"
proof -
  obtain c where c: "heap w p = Some c" "c_del c = 0" using refs_ok_live [of held w p] assms by auto
  let ?w = "put p (c\<lparr>c_refs := c_refs c - 1\<rparr>) w"
  have r: "c_refs c - 1 = int (held p - 1 + (if p \<in> set (listed w) then 1 else 0))" "0 < c_refs c - 1"
    using refs_ok_count [OF assms(1) c] assms(2,3) by auto
  have "refs_ok (held(p := held p - 1)) ?w" using refs_ok_put [OF assms(1) c r(1)] assms(2,3) by auto
  moreover have "client_delref N disc p w = Some ?w" using c r(2) by (simp add: client_delref_def Let_def)
  moreover have "clients ?w = clients w" by (simp add: put_def)
  ultimately show ?thesis using that shrinks_put [OF c] by (simp add: calm_def)
qed

section \<open>The cursor of the list\<close>

lemma clients_cur_ok:
  fixes k :: nat
  assumes "refs_ok held w"
  defines "it \<equiv> (clients w)\<lparr>it_cur := k\<rparr>"
  shows "if k < length (listed w)
    then \<exists>w'. do { (x, it, w) \<leftarrow> it_client_cur it w; Some (x, (), w\<lparr>clients := it\<rparr>) } = Some (Some (listed w ! k), (), w') \<and>
           calm (take_ref (listed w ! k) held) w w' \<and> clients w' = it
    else do { (x, it, w) \<leftarrow> it_client_cur it w; Some (x, (), w\<lparr>clients := it\<rparr>) } = Some (None, (), w\<lparr>clients := it\<rparr>)"
proof (cases "k < length (listed w)")
  case True
  then obtain w1 where w1: "client_addref (listed w ! k) w = Some w1" "calm (take_ref (listed w ! k) held) w w1" "clients w1 = clients w"
    using addref_ok [OF assms(1), of "listed w ! k"] by auto
  have "calm (take_ref (listed w ! k) held) w (w1\<lparr>clients := it\<rparr>)"
    using w1(2) refs_ok_cur [of "take_ref (listed w ! k) held" k w1] shrinks_trans [OF _ shrinks_cur [of w1 k], of w] w1(3)
    by (simp add: calm_def it_def)
  with True w1(1) show ?thesis by (simp add: it_client_cur_def it_def)
next
  case False
  then show ?thesis by (simp add: it_client_cur_def it_def)
qed

lemma clients_begin_ok:
  assumes "refs_ok held w"
  obtains (stop) w' where "clients_begin () w = Some (None, (), w')" "calm held w w'" "listed w' = listed w"
      "listed w = []"
  | (item) w' where "clients_begin () w = Some (Some (listed w ! 0), (), w')" "calm (take_ref (listed w ! 0) held) w w'"
      "listed w' = listed w" "it_cur (clients w') = 0" "0 < length (listed w)"
proof -
  have b: "clients_begin () w = do { (x, it, w) \<leftarrow> it_client_cur ((clients w)\<lparr>it_cur := 0\<rparr>) w; Some (x, (), w\<lparr>clients := it\<rparr>) }"
    by (simp add: clients_begin_def it_client_begin_def)
  show ?thesis
  proof (cases "0 < length (listed w)")
    case True
    then obtain w' where "clients_begin () w = Some (Some (listed w ! 0), (), w')" "calm (take_ref (listed w ! 0) held) w w'"
        "clients w' = (clients w)\<lparr>it_cur := 0\<rparr>"
      using clients_cur_ok [OF assms, of 0] unfolding b by (metis (no_types, lifting))
    with True show ?thesis using item by simp
  next
    case False
    have "calm held w (w\<lparr>clients := (clients w)\<lparr>it_cur := 0\<rparr>\<rparr>)" using assms by (simp add: calm_def shrinks_cur)
    with False clients_cur_ok [OF assms, of 0] show ?thesis using stop unfolding b by simp
  qed
qed

lemma clients_next_ok:
  assumes "refs_ok held w"
  obtains (stop) w' where "clients_next () w = Some (None, (), w')" "calm held w w'"
  | (item) w' where "clients_next () w = Some (Some (listed w ! Suc (it_cur (clients w))), (), w')"
      "calm (take_ref (listed w ! Suc (it_cur (clients w))) held) w w'"
      "listed w' = listed w" "it_cur (clients w') = Suc (it_cur (clients w))" "Suc (it_cur (clients w)) < length (listed w)"
proof (cases "it_cur (clients w) < length (listed w)")
  case True
  let ?k = "Suc (it_cur (clients w))"
  have b: "clients_next () w = do { (x, it, w) \<leftarrow> it_client_cur ((clients w)\<lparr>it_cur := ?k\<rparr>) w; Some (x, (), w\<lparr>clients := it\<rparr>) }"
    using True by (simp add: clients_next_def it_client_next_def)
  show ?thesis
  proof (cases "?k < length (listed w)")
    case True
    then obtain w' where "clients_next () w = Some (Some (listed w ! ?k), (), w')" "calm (take_ref (listed w ! ?k) held) w w'"
        "clients w' = (clients w)\<lparr>it_cur := ?k\<rparr>"
      using clients_cur_ok [OF assms, of ?k] unfolding b by (metis (no_types, lifting))
    with True show ?thesis using item by simp
  next
    case False
    have "calm held w (w\<lparr>clients := (clients w)\<lparr>it_cur := ?k\<rparr>\<rparr>)" using assms by (simp add: calm_def shrinks_cur)
    with False clients_cur_ok [OF assms, of ?k] show ?thesis using stop unfolding b by simp
  qed
next
  case False
  have "w\<lparr>clients := clients w\<rparr> = w" by simp
  then have "clients_next () w = Some (None, (), w)" using False by (simp add: clients_next_def it_client_next_def)
  then show ?thesis using stop assms by (simp add: calm_def)
qed

section \<open>Under a good hook nothing is used after it was freed\<close>

lemma remove_nth:
  assumes "distinct xs" "k < length xs"
  shows "set (take k xs @ drop (Suc k) xs) = set xs - {xs ! k}" "distinct (take k xs @ drop (Suc k) xs)"
    "length (take k xs @ drop (Suc k) xs) = length xs - 1"
proof -
  define a b where "a = take k xs" and "b = drop (Suc k) xs"
  have x: "xs = a @ xs ! k # b" unfolding a_def b_def using assms(2) by (rule id_take_nth_drop)
  have d: "distinct (a @ xs ! k # b)" using assms(1) x by simp
  have "set xs = set (a @ xs ! k # b)" using x by simp
  then have "set (a @ b) = set xs - {xs ! k}" using d by auto
  moreover have "distinct (a @ b)" using d by simp
  ultimately show "set (take k xs @ drop (Suc k) xs) = set xs - {xs ! k}" "distinct (take k xs @ drop (Suc k) xs)"
    by (simp_all add: a_def b_def)
qed (use assms in simp)

lemma refs_ok_free: "refs_ok held w \<Longrightarrow> p \<notin> set (listed w) \<Longrightarrow> held p = 0 \<Longrightarrow>
    refs_ok held (w\<lparr>ext := d, heap := (heap w)(p := None)\<rparr>)"
  unfolding refs_ok_def live_def by auto

lemma refs_ok_unlist:
  assumes "refs_ok held w" "k < length (listed w)"
  shows "refs_ok (take_ref (listed w ! k) held)
    (w\<lparr>clients := (clients w)\<lparr>it_clients := take k (listed w) @ drop (Suc k) (listed w)\<rparr>\<rparr>)"
  using assms remove_nth [OF _ assms(2)] unfolding refs_ok_def live_def
  by (auto simp: refs_ok_def live_def)

lemma shrinks_free:
  assumes "shrinks (put p c' w) w2" "heap w p = Some c" "c_del c = 0"
  shows "shrinks w (w2\<lparr>ext := d, heap := (heap w2)(p := None)\<rparr>)"
proof -
  have "\<exists>c. heap w q = Some c \<and> a = c\<lparr>c_refs := c_refs a\<rparr>" if "heap w2 q = Some a" "q \<noteq> p" for q a
    using assms(1) that unfolding shrinks_def by fastforce
  moreover have "heap w2 q = Some a" if "heap w q = Some a" "c_del a \<noteq> 0" "q \<noteq> p" for q a
    using assms(1) that unfolding shrinks_def by simp
  moreover have "set (listed w2) \<subseteq> set (listed w)" "length (listed w2) \<le> length (listed w)"
    "fresh w2 = fresh w" "maxid w2 = maxid w" "rfilter w2 = rfilter w" "dbcon w2 = dbcon w" "inprogress w2 = inprogress w"
    "length (tabbuf w2) = length (tabbuf w)"
    using assms(1) unfolding shrinks_def by (auto simp: put_def)
  ultimately show ?thesis using assms(2,3) unfolding shrinks_def by simp
qed

definition all_good :: "(client \<Rightarrow> bool) \<Rightarrow> ('d, 'z) netst_scheme \<Rightarrow> bool" where
  "all_good good w \<longleftrightarrow> (\<forall>p c. heap w p = Some c \<longrightarrow> good c) \<and> length (tabbuf w) = 4096"

locale disconnect_hook =
  fixes N :: "'d netlib" and disc :: "('d, 'z) disc" and n :: nat and good :: "client \<Rightarrow> bool"
  assumes good_count: "good (c\<lparr>c_refs := r, c_del := d\<rparr>) = good c"
    and hook: "disc = Some f \<Longrightarrow> refs_ok held w \<Longrightarrow> all_good good w \<Longrightarrow> heap w p = Some c \<Longrightarrow> c_del c \<noteq> 0 \<Longrightarrow>
          length (listed w) < n \<Longrightarrow> \<exists>w'. f p w = Some w' \<and> calm held w w'"
begin

lemma good_refs: "good (c\<lparr>c_refs := r\<rparr>) = good c"
  using good_count [where c = c and r = r and d = "c_del c"] by (cases c) simp

lemma all_good_shrinks: "shrinks w w' \<Longrightarrow> all_good good w \<Longrightarrow> all_good good w'"
  unfolding shrinks_def all_good_def by (metis good_refs)

lemma release_calm:
  assumes r: "refs_ok held w" and g: "all_good good w" and h: "held p = 1" "p \<notin> set (listed w)" and n: "length (listed w) < n"
    and c: "heap w p = Some c" "c_del c = 0"
  shows "\<exists>w'. client_release N disc p (put p (c\<lparr>c_refs := 0\<rparr>) w) = Some w' \<and> calm (held(p := 0)) w w'"
proof -
  let ?c = "c\<lparr>c_refs := 0, c_del := 1\<rparr>" and ?held = "held(p := 0)"
  let ?w = "put p ?c w"
  have r1: "refs_ok ?held ?w" using r h by (auto simp: refs_ok_def live_def put_def)
  have g1: "all_good good ?w" using g c(1) by (auto simp: all_good_def put_def good_count)
  have 1: "heap ?w p = Some ?c" "c_del ?c \<noteq> 0" by (simp_all add: put_def)
  have l1: "length (listed ?w) < n" using n by (simp add: put_def)
  have "\<exists>w2. (case disc of None \<Rightarrow> Some ?w | Some f \<Rightarrow> f p ?w) = Some w2 \<and> calm ?held ?w w2"
  proof (cases disc)
    case None
    then show ?thesis using r1 by (simp add: calm_def)
  next
    case (Some f)
    then show ?thesis using hook [OF Some r1 g1 1 l1] by simp
  qed
  then obtain w2 where w2: "(case disc of None \<Rightarrow> Some ?w | Some f \<Rightarrow> f p ?w) = Some w2" "calm ?held ?w w2" by blast
  have p2: "heap w2 p = Some ?c" using w2(2) 1 unfolding calm_def shrinks_def by blast
  let ?w3 = "w2\<lparr>ext := n_close N (c_sock ?c) p (ext w2), heap := (heap w2)(p := None)\<rparr>"
  have "client_release N disc p (put p (c\<lparr>c_refs := 0\<rparr>) w) = Some ?w3"
    using w2(1) p2 c(2) by (simp add: client_release_def)
  moreover have "refs_ok ?held ?w3"
  proof -
    have "p \<notin> set (listed w2)" using w2(2) h(2) unfolding calm_def shrinks_def by (auto simp: put_def)
    then show ?thesis using w2(2) refs_ok_free [of ?held w2 p] by (simp add: calm_def)
  qed
  moreover have "shrinks w ?w3"
    using shrinks_free [OF _ c] w2(2) unfolding calm_def by blast
  ultimately show ?thesis by (auto simp: calm_def)
qed

lemma delref_calm:
  assumes "refs_ok held w" "all_good good w" "0 < held p" "p \<in> set (listed w) \<or> 1 < held p \<or> length (listed w) < n"
  shows "\<exists>w'. client_delref N disc p w = Some w' \<and> calm (held(p := held p - 1)) w w' \<and>
    (p \<in> set (listed w) \<longrightarrow> clients w' = clients w)"
proof (cases "p \<in> set (listed w) \<or> 1 < held p")
  case True
  then show ?thesis using delref_kept [OF assms(1,3) True, of N disc] by metis
next
  case False
  then have h: "held p = 1" "p \<notin> set (listed w)" "length (listed w) < n" using assms(3,4) by auto
  obtain c where c: "heap w p = Some c" "c_del c = 0" using refs_ok_live [OF assms(1), of p] assms(3) by auto
  have "c_refs c = 1" using refs_ok_count [OF assms(1) c] h by simp
  then show ?thesis
    using release_calm [OF assms(1,2) h(1,2,3) c] c h by (simp add: client_delref_def Let_def)
qed

end

context disconnect_hook
begin

lemma client_del_calm:
  assumes "refs_ok (take_ref p held) w" "it_cur (clients w) < length (listed w)" "listed w ! it_cur (clients w) = p"
  shows "\<exists>w'. it_client_del N disc w = Some w' \<and> calm (take_ref p held) w w' \<and> p \<notin> set (listed w') \<and>
    length (listed w') = length (listed w) - 1"
proof -
  let ?k = "it_cur (clients w)"
  have p: "p \<in> set (listed w)" using assms(2,3) by auto
  obtain w1 where w1: "client_delref N disc p w = Some w1" "calm ((take_ref p held)(p := take_ref p held p - 1)) w w1"
      "clients w1 = clients w"
    using delref_kept [OF assms(1), of p N disc] p by auto
  let ?w = "w1\<lparr>clients := (clients w1)\<lparr>it_clients := take ?k (listed w1) @ drop (Suc ?k) (listed w1)\<rparr>\<rparr>"
  have r1: "refs_ok held w1" using w1(2) by (simp add: calm_def)
  then have d: "distinct (listed w)" using w1(3) by (simp add: refs_ok_def)
  note rm = remove_nth [OF d assms(2)]
  have "refs_ok (take_ref p held) ?w" using refs_ok_unlist [OF r1, of ?k] w1(3) assms(2,3) by simp
  moreover have "shrinks w1 ?w" using rm w1(3) unfolding shrinks_def by auto
  moreover have "it_client_del N disc w = Some ?w"
    using w1 assms(2,3) rm(3) by (auto simp: it_client_del_def Let_def)
  moreover have "p \<notin> set (listed ?w)" "length (listed ?w) = length (listed w) - 1"
    using rm assms(3) w1(3) by auto
  ultimately show ?thesis using w1(2) shrinks_trans [of w w1 ?w] by (auto simp: calm_def)
qed

text \<open>The loop of \<open>client_close\<close>, from the entry the cursor is at.\<close>

lemma close_loop:
  assumes "refs_ok (take_ref (listed w ! it_cur (clients w)) held) w" "all_good good w"
    and "it_cur (clients w) < length (listed w)" "length (listed w) \<le> n" "p \<notin> set (take (it_cur (clients w)) (listed w))"
  shows "\<exists>r w'. for_until clients_next (close_step N disc p) (Some (listed w ! it_cur (clients w))) () w = Some (r, w') \<and>
    calm held w w' \<and> p \<notin> set (listed w') \<and> (p \<in> set (listed w) \<longrightarrow> length (listed w') < length (listed w))"
  using assms
proof (induction "length (listed w) - it_cur (clients w)" arbitrary: w)
  case 0
  then show ?case by simp
next
  case (Suc m)
  let ?i = "listed w ! it_cur (clients w)"
  show ?case
  proof (cases "?i = p")
    case True
    obtain w1 where w1: "it_client_del N disc w = Some w1" "calm (take_ref p held) w w1" "p \<notin> set (listed w1)"
        "length (listed w1) = length (listed w) - 1"
      using client_del_calm [of held p w] Suc.prems(1,3) True by auto
    have g1: "all_good good w1" using all_good_shrinks w1(2) Suc.prems(2) by (auto simp: calm_def)
    have "\<exists>w2. client_delref N disc p w1 = Some w2 \<and> calm ((take_ref p held)(p := take_ref p held p - 1)) w1 w2 \<and>
        (p \<in> set (listed w1) \<longrightarrow> clients w2 = clients w1)"
      using w1 g1 Suc.prems(3,4) by (intro delref_calm) (auto simp: calm_def)
    then obtain w2 where w2: "client_delref N disc p w1 = Some w2" "calm held w1 w2" by auto
    have "for_until clients_next (close_step N disc p) (Some ?i) () w = Some (Some (), w2)"
      by (subst for_until.simps) (simp add: close_step_def True w1(1) w2(1))
    moreover have "calm held w w2" using w1(2) w2(2) by (rule calm_trans)
    moreover have "p \<notin> set (listed w2)" "length (listed w2) < length (listed w)"
      using w1(3,4) w2(2) Suc.prems(3) by (auto simp: calm_def shrinks_def)
    ultimately show ?thesis by blast
  next
    case False
    obtain w1 where w1: "client_delref N disc ?i w = Some w1" "calm ((take_ref ?i held)(?i := take_ref ?i held ?i - 1)) w w1"
        "clients w1 = clients w"
      using delref_kept [OF Suc.prems(1), of ?i N disc] Suc.prems(3) by auto
    have r1: "refs_ok held w1" and s1: "calm held w w1" using w1(2) by (simp_all add: calm_def)
    have step: "for_until clients_next (close_step N disc p) (Some ?i) () w =
        do { (x', i', w2) \<leftarrow> clients_next () w1; for_until clients_next (close_step N disc p) x' i' w2 }"
      by (subst for_until.simps) (simp add: close_step_def False w1(1))
    show ?thesis
    proof (cases rule: clients_next_ok [OF r1])
      case (1 w2)
      have "Suc (it_cur (clients w)) \<ge> length (listed w)" using 1 w1(3) Suc.prems(3)
        by (auto simp: clients_next_def it_client_next_def it_client_cur_def client_addref_def bind_eq_Some_conv split: if_splits)
      then have "p \<notin> set (listed w)"
        using Suc.prems(3,5) False take_Suc_conv_app_nth [OF Suc.prems(3)] by (metis Un_iff empty_iff empty_set insert_iff list.simps(15) set_append take_all)
      moreover have "for_until clients_next (close_step N disc p) (Some ?i) () w = Some (None, w2)"
        unfolding step 1(1) by (simp add: for_until.simps)
      ultimately show ?thesis using calm_trans [OF s1 1(2)] by (auto simp: calm_def shrinks_def)
    next
      case (2 w2)
      have s2: "shrinks w w2" using s1 2(2) by (auto simp: calm_def intro: shrinks_trans)
      have "p \<notin> set (take (it_cur (clients w2)) (listed w2))"
        using Suc.prems(3,5) False 2(3,4) w1(3) by (simp add: take_Suc_conv_app_nth)
      then have "\<exists>r w'. for_until clients_next (close_step N disc p) (Some (listed w2 ! it_cur (clients w2))) () w2 = Some (r, w') \<and>
          calm held w2 w' \<and> p \<notin> set (listed w') \<and> (p \<in> set (listed w2) \<longrightarrow> length (listed w') < length (listed w2))"
        using Suc.hyps(2) Suc.prems(4) all_good_shrinks [OF s2 Suc.prems(2)] 2 w1(3)
        by (intro Suc.hyps(1)) (auto simp: calm_def)
      then obtain r w' where "for_until clients_next (close_step N disc p) (Some (listed w2 ! it_cur (clients w2))) () w2 = Some (r, w')"
          "calm held w2 w'" "p \<notin> set (listed w')" "p \<in> set (listed w2) \<longrightarrow> length (listed w') < length (listed w2)"
        by blast
      moreover from this have "calm held w w'" using s2 by (auto simp: calm_def intro: shrinks_trans)
      ultimately show ?thesis using 2(1,3,4) w1(3) by (simp add: step)
    qed
  qed
qed

lemma client_close_calm:
  assumes "refs_ok held w" "all_good good w" "length (listed w) \<le> n"
  shows "\<exists>w'. client_close N disc p w = Some w' \<and> calm held w w' \<and> p \<notin> set (listed w') \<and>
    (p \<in> set (listed w) \<longrightarrow> length (listed w') < length (listed w))"
proof (cases rule: clients_begin_ok [OF assms(1)])
  case (1 w1)
  then have "client_close N disc p w = Some w1" by (simp add: client_close_def for_until.simps)
  with 1 show ?thesis by simp
next
  case (2 w1)
  have g: "all_good good w1" using all_good_shrinks assms(2) 2(2) by (auto simp: calm_def)
  have "\<exists>r w'. for_until clients_next (close_step N disc p) (Some (listed w1 ! it_cur (clients w1))) () w1 = Some (r, w') \<and>
      calm held w1 w' \<and> p \<notin> set (listed w') \<and> (p \<in> set (listed w1) \<longrightarrow> length (listed w') < length (listed w1))"
    using 2 g assms(3) by (intro close_loop) (auto simp: calm_def)
  then obtain r w' where w': "for_until clients_next (close_step N disc p) (Some (listed w ! 0)) () w1 = Some (r, w')"
      "calm held w1 w'" "p \<notin> set (listed w')" "p \<in> set (listed w) \<longrightarrow> length (listed w') < length (listed w)"
    using 2(3,4) by auto
  have "client_close N disc p w = Some w'" using 2(1) w'(1) by (simp add: client_close_def)
  moreover have "calm held w w'" using 2(2) w'(2) by (rule calm_trans)
  ultimately show ?thesis using w' by blast
qed

lemma client_send_calm:
  assumes "refs_ok held w" "all_good good w" "length (listed w) \<le> n" "p \<in> set (listed w) \<or> 0 < held p"
  shows "\<exists>r w'. client_send N disc p buf w = Some (r, w') \<and> calm held w w' \<and>
    (clients w' = clients w \<or> p \<notin> set (listed w') \<and> (p \<in> set (listed w) \<longrightarrow> length (listed w') < length (listed w)))"
proof (cases "buf = []")
  case True
  then show ?thesis using assms(1) by (simp add: client_send_def calm_def)
next
  case False
  obtain c where c: "heap w p = Some c" using refs_ok_live [OF assms(1,4)] by blast
  obtain k d where s: "n_send N (c_sock c) buf (ext w) = (k, d)" by fastforce
  let ?w = "w\<lparr>ext := d\<rparr>"
  have r1: "refs_ok held ?w" using assms(1) by simp
  have g1: "all_good good ?w" using assms(2) by (simp add: all_good_def)
  show ?thesis
  proof (cases "k = int (length buf)")
    case True
    then show ?thesis using False c s r1 shrinks_ext [of w d] by (simp add: client_send_def calm_def)
  next
    case f: False
    obtain w' where w': "client_close N disc p ?w = Some w'" "calm held ?w w'" "p \<notin> set (listed w')"
        "p \<in> set (listed w) \<longrightarrow> length (listed w') < length (listed w)"
      using client_close_calm [OF r1 g1, of p] assms(3) by auto
    have "calm held w w'" using w'(2) shrinks_trans [OF shrinks_ext] by (auto simp: calm_def)
    with w' show ?thesis using False f c s by (simp add: client_send_def)
  qed
qed

lemma bcast_step_calm:
  assumes "refs_ok (take_ref p held) w" "all_good good w" "length (listed w) \<le> n" "p \<in> set (listed w)"
  shows "\<exists>w'. bcast_step N disc buf func p w = Some w' \<and> calm held w w' \<and>
    (clients w' = clients w \<or> length (listed w') < length (listed w))"
proof -
  obtain c where c: "heap w p = Some c" using refs_ok_live [OF assms(1), of p] assms(4) by blast
  obtain w1 where w1: "(if func c then map_option snd (client_send N disc p buf w) else Some w) = Some w1"
      "calm (take_ref p held) w w1"
      "clients w1 = clients w \<or> p \<notin> set (listed w1) \<and> length (listed w1) < length (listed w)"
  proof (cases "func c")
    case True
    obtain r w1 where "client_send N disc p buf w = Some (r, w1)" "calm (take_ref p held) w w1"
        "clients w1 = clients w \<or> p \<notin> set (listed w1) \<and> length (listed w1) < length (listed w)"
      using client_send_calm [OF assms(1,2,3), of p buf] assms(4) by auto
    with True show ?thesis using that by simp
  next
    case False
    then show ?thesis using that [of w] assms(1) by (simp add: calm_def)
  qed
  have g1: "all_good good w1" using all_good_shrinks assms(2) w1(2) by (auto simp: calm_def)
  have "\<exists>w2. client_delref N disc p w1 = Some w2 \<and> calm ((take_ref p held)(p := take_ref p held p - 1)) w1 w2 \<and>
      (p \<in> set (listed w1) \<longrightarrow> clients w2 = clients w1)"
    using w1(2,3) g1 assms(3,4) by (intro delref_calm) (auto simp: calm_def)
  then obtain w2 where w2: "client_delref N disc p w1 = Some w2" "calm held w1 w2"
      "p \<in> set (listed w1) \<longrightarrow> clients w2 = clients w1" by auto
  have "calm held w w2" using w1(2) w2(2) by (rule calm_trans)
  moreover have "clients w2 = clients w \<or> length (listed w2) < length (listed w)"
    using w1(3) w2(2,3) assms(4) by (auto simp: calm_def shrinks_def)
  ultimately show ?thesis using c w1(1) w2(1) by (simp add: bcast_step_def)
qed

lemma bcast_loop:
  assumes "refs_ok (take_ref (listed w ! it_cur (clients w)) held) w" "all_good good w"
    and "it_cur (clients w) < length (listed w)" "length (listed w) \<le> n"
  shows "\<exists>w'. for_each clients_next (bcast_step N disc buf func) (Some (listed w ! it_cur (clients w))) () w = Some w' \<and> calm held w w'"
  using assms
proof (induction "(length (listed w), length (listed w) - it_cur (clients w))" arbitrary: w
    rule: wf_induct_rule [OF wf_lex_prod [OF wf_less_than wf_less_than]])
  case (1 w)
  let ?i = "listed w ! it_cur (clients w)"
  have "\<exists>w1. bcast_step N disc buf func ?i w = Some w1 \<and> calm held w w1 \<and>
      (clients w1 = clients w \<or> length (listed w1) < length (listed w))"
    using 1(2-5) by (intro bcast_step_calm) auto
  then obtain w1 where w1: "bcast_step N disc buf func ?i w = Some w1" "calm held w w1"
      "clients w1 = clients w \<or> length (listed w1) < length (listed w)" by blast
  have r1: "refs_ok held w1" using w1(2) by (simp add: calm_def)
  have step: "for_each clients_next (bcast_step N disc buf func) (Some ?i) () w =
      do { (x', i', w2) \<leftarrow> clients_next () w1; for_each clients_next (bcast_step N disc buf func) x' i' w2 }"
    using w1(1) by (subst for_each.simps) simp
  show ?case
  proof (cases rule: clients_next_ok [OF r1])
    case (1 w2)
    have "for_each clients_next (bcast_step N disc buf func) (Some ?i) () w = Some w2"
      unfolding step 1(1) by (simp add: for_each.simps)
    then show ?thesis using calm_trans [OF w1(2) 1(2)] by blast
  next
    case (2 w2)
    have s2: "shrinks w w2" using w1(2) 2(2) by (auto simp: calm_def intro: shrinks_trans)
    have "\<exists>w'. for_each clients_next (bcast_step N disc buf func) (Some (listed w2 ! it_cur (clients w2))) () w2 = Some w' \<and> calm held w2 w'"
      using w1(3) 2 1(4,5) all_good_shrinks [OF s2 1(3)] s2
      by (intro 1(1)) (auto simp: calm_def shrinks_def)
    then obtain w' where "for_each clients_next (bcast_step N disc buf func) (Some (listed w2 ! it_cur (clients w2))) () w2 = Some w'"
        "calm held w2 w'" by blast
    moreover from this have "calm held w w'" using s2 by (auto simp: calm_def intro: shrinks_trans)
    ultimately show ?thesis using 2(1,3,4) by (simp add: step)
  qed
qed

lemma client_bcast_calm:
  assumes "refs_ok held w" "all_good good w" "length (listed w) \<le> n"
  shows "\<exists>w'. client_bcast N disc buf func w = Some w' \<and> calm held w w'"
proof (cases rule: clients_begin_ok [OF assms(1)])
  case (1 w1)
  then have "client_bcast N disc buf func w = Some w1" by (simp add: client_bcast_def for_each.simps)
  with 1 show ?thesis by simp
next
  case (2 w1)
  have g: "all_good good w1" using all_good_shrinks assms(2) 2(2) by (auto simp: calm_def)
  have "\<exists>w'. for_each clients_next (bcast_step N disc buf func) (Some (listed w1 ! it_cur (clients w1))) () w1 = Some w' \<and> calm held w1 w'"
    using 2 g assms(3) by (intro bcast_loop) (auto simp: calm_def)
  then obtain w' where w': "for_each clients_next (bcast_step N disc buf func) (Some (listed w ! 0)) () w1 = Some w'" "calm held w1 w'"
    using 2(3,4) by auto
  have "client_bcast N disc buf func w = Some w'" using 2(1) w'(1) by (simp add: client_bcast_def)
  moreover have "calm held w w'" using 2(2) w'(2) by (rule calm_trans)
  ultimately show ?thesis by blast
qed

end

end
