(* ===== verification/Netsafe.thy ===== *)
theory Netsafe
  imports Protosend Clientsafe
begin

text \<open>
  The hook of the protocol meets the contract of \<open>Clientsafe\<close>: however sends fail in the middle of broadcasts,
  freeing clients from within freeing clients ends, and nothing is used after it was freed.
\<close>

section \<open>The hook keeps the contract\<close>

text \<open>A client whose report fits into a line.\<close>

definition peer_ok :: "client \<Rightarrow> bool" where
  "peer_ok c \<longleftrightarrow> length (record_text (client_fields c)) < 4091 \<and> NUL \<notin> set (record_text (client_fields c))"

lemma peer_ok_count: "peer_ok (c\<lparr>c_refs := r, c_del := d\<rparr>) = peer_ok c"
  by (simp add: peer_ok_def client_fields_def)

lemma peer_ok_fits: "peer_ok c \<Longrightarrow> fits (client_fields c)"
  by (simp add: peer_ok_def fits_def)

lemma refs_ok_tabbuf [simp]: "refs_ok held (w\<lparr>tabbuf := m\<rparr>) \<longleftrightarrow> refs_ok held w"
  by (simp add: refs_ok_def live_def)

lemma shrinks_tabbuf: "length m = length (tabbuf w) \<Longrightarrow> shrinks w (w\<lparr>tabbuf := m\<rparr>)"
  by (simp add: shrinks_def)

lemma mkclient_text:
  assumes "peer_ok c" "length (tabbuf w) = 4096"
  shows "\<exists>m. mkclient c w = Some (record_text (client_fields c), w\<lparr>tabbuf := m\<rparr>) \<and> length m = length (tabbuf w)"
  using mkclient_writes [of c] peer_ok_fits [OF assms(1)] assms(2) by (auto simp: writes_def vtab_ok_def)

lemma mkclient_calm:
  assumes "refs_ok held w" "all_good peer_ok w" "heap w p = Some c"
  shows "\<exists>w'. mkclient c w = Some (record_text (client_fields c), w') \<and> calm held w w'"
  using mkclient_text [of c w] shrinks_tabbuf [of _ w] assms by (auto simp: all_good_def calm_def)

lemma proto_bcast_line:
  "length code = 3 \<Longrightarrow> NUL \<notin> set code \<Longrightarrow> NUL \<notin> set body \<Longrightarrow> length body < 4091 \<Longrightarrow>
    proto_bcast N disc right code body w =
      client_bcast_perm N disc (code @ CHR '' '' # body @ [LF]) right w"
  by (simp add: proto_bcast_def proto_fmtline_line)

lemma proto_delclient_calm:
  assumes "disconnect_hook disc n peer_ok" "refs_ok held w" "all_good peer_ok w" "heap w p = Some c"
    and "length (listed w) \<le> n"
  shows "\<exists>w'. proto_delclient N disc p w = Some w' \<and> calm held w w'"
proof (cases "c_pstate c = p_open")
  case True
  then show ?thesis using assms(2,4) by (simp add: proto_delclient_def calm_def)
next
  case False
  let ?s = "record_text (client_fields c)"
  obtain w1 where w1: "mkclient c w = Some (?s, w1)" "calm held w w1"
    using mkclient_calm [OF assms(2,3,4)] by blast
  have s: "NUL \<notin> set ?s" "length ?s < 4091" using assms(3,4) by (auto simp: all_good_def peer_ok_def)
  have g1: "all_good peer_ok w1" and l1: "length (listed w1) \<le> n"
    using disconnect_hook.all_good_shrinks [OF assms(1)] w1(2) assms(3,5) by (auto simp: calm_def shrinks_def)
  obtain w2 where w2: "client_bcast_perm N disc (''631'' @ CHR '' '' # ?s @ [LF]) r_user w1 = Some w2" "calm held w1 w2"
    using disconnect_hook.client_bcast_calm [OF assms(1) _ g1 l1, of held] w1(2)
    unfolding client_bcast_perm_def calm_def by blast
  have "proto_delclient N disc p w = Some w2"
    using False assms(4) w1(1) w2(1) s
    by (simp add: proto_delclient_def proto_bcast_logout_def bcast_row_def proto_bcast_line)
  then show ?thesis using calm_trans [OF w1(2) w2(2)] by blast
qed

lemma disconnect_enough: "disconnect_hook (Some (disconnect N n) :: ('d, 'z) disc) n peer_ok"
proof (induction n)
  case 0
  show ?case by unfold_locales (simp_all add: peer_ok_count)
next
  case (Suc n)
  show ?case
  proof
    show "peer_ok (c\<lparr>c_refs := r, c_del := d\<rparr>) = peer_ok c" for c r d by (rule peer_ok_count)
  next
    fix f :: "ptr \<Rightarrow> ('d, 'z) netst_scheme \<Rightarrow> ('d, 'z) netst_scheme option" and held p c and w :: "('d, 'z) netst_scheme"
    assume "Some (disconnect N (Suc n)) = Some f" and a: "refs_ok held w" "all_good peer_ok w" "heap w p = Some c"
      and "c_del c \<noteq> 0" and "length (listed w) < Suc n"
    then show "\<exists>w'. f p w = Some w' \<and> calm held w w'"
      using proto_delclient_calm [OF Suc.IH a] by auto
  qed
qed

lemma client_hook_contract: "disconnect_hook (client_hook N :: ('d, 'z) disc) n peer_ok"
proof
  show "peer_ok (c\<lparr>c_refs := r, c_del := d\<rparr>) = peer_ok c" for c r d by (rule peer_ok_count)
next
  fix f :: "ptr \<Rightarrow> ('d, 'z) netst_scheme \<Rightarrow> ('d, 'z) netst_scheme option" and held p c and w :: "('d, 'z) netst_scheme"
  assume f: "client_hook N = Some f" and a: "refs_ok held w" "all_good peer_ok w" "heap w p = Some c" "c_del c \<noteq> 0"
  let ?k = "Suc (length (listed w))"
  show "\<exists>w'. f p w = Some w' \<and> calm held w w'"
    using disconnect_hook.hook [OF disconnect_enough [of N ?k] refl a] f by (auto simp: client_hook_def)
qed

interpretation hooked: disconnect_hook N "client_hook N" n peer_ok for N n
  by (rule client_hook_contract)

section \<open>A broadcast whose sends succeed\<close>

text \<open>The state when the cursor of the list is at \<open>k\<close> and the world is \<open>d\<close>.\<close>

definition at_peer :: "nat \<Rightarrow> 'd \<Rightarrow> ('d, 'z) netst_scheme \<Rightarrow> ('d, 'z) netst_scheme" where
  "at_peer k d w = w\<lparr>ext := d, clients := (clients w)\<lparr>it_cur := k\<rparr>\<rparr>"

lemma at_peer_sel [simp]:
  "heap (at_peer k d w) = heap w" "listed (at_peer k d w) = listed w" "it_cur (clients (at_peer k d w)) = k"
  "ext (at_peer k d w) = d" "(at_peer k d w)\<lparr>ext := e\<rparr> = at_peer k e w"
  "(at_peer k d w)\<lparr>clients := (clients (at_peer k d w))\<lparr>it_cur := j\<rparr>\<rparr> = at_peer j d w"
  by (simp_all add: at_peer_def)

definition send_to :: "'d netlib \<Rightarrow> string \<Rightarrow> ('d, 'z) netst_scheme \<Rightarrow> ptr \<Rightarrow> 'd \<Rightarrow> 'd" where
  "send_to N buf w p d = snd (n_send N (c_sock (the (heap w p))) buf d)"

definition may_hear :: "int \<Rightarrow> ('d, 'z) netst_scheme \<Rightarrow> ptr \<Rightarrow> bool" where
  "may_hear minperm w p = check_minperm minperm (the (heap w p))"

lemma put_same: "heap w p = Some c \<Longrightarrow> put p c w = w"
  by (cases w) (simp add: put_def fun_upd_idem)

text \<open>No entry of the list goes away when a reference to it is given back.\<close>

definition standing :: "('d, 'z) netst_scheme \<Rightarrow> bool" where
  "standing w \<longleftrightarrow> (\<forall>p\<in>set (listed w). \<exists>c. heap w p = Some c \<and> (c_del c = 0 \<longrightarrow> 0 < c_refs c))"

lemma refs_ok_standing: "refs_ok held w \<Longrightarrow> standing w"
  by (fastforce simp: refs_ok_def live_def standing_def)

lemma standing_nth: "standing w \<Longrightarrow> k < length (listed w) \<Longrightarrow> \<exists>c. heap w (listed w ! k) = Some c \<and> (c_del c = 0 \<longrightarrow> 0 < c_refs c)"
  by (simp add: standing_def)

lemma bcast_step_sent:
  assumes "heap w p = Some c" "c_del c = 0 \<longrightarrow> 0 < c_refs c" "buf \<noteq> []"
    and "\<And>d. fst (n_send N (c_sock c) buf d) = int (length buf)"
  shows "bcast_step N disc buf (check_minperm m) p (put p (c\<lparr>c_refs := c_refs c + 1\<rparr>) (at_peer k d w)) =
    Some (at_peer k (if may_hear m w p then send_to N buf w p d else d) w)"
proof -
  have m: "check_minperm m (c\<lparr>c_refs := r\<rparr>) = may_hear m w p" for r
    using assms(1) by (simp add: check_minperm_def may_hear_def)
  have p: "(put p x (at_peer k d w))\<lparr>ext := e\<rparr> = put p x (at_peer k e w)" for x e
    by (simp add: put_def at_peer_def)
  obtain e where e: "n_send N (c_sock c) buf d = (int (length buf), e)"
    using assms(4) [of d] by (metis prod.collapse)
  have s: "client_send N disc p buf (put p (c\<lparr>c_refs := c_refs c + 1\<rparr>) (at_peer k d w)) =
      Some (0, put p (c\<lparr>c_refs := c_refs c + 1\<rparr>) (at_peer k (send_to N buf w p d) w))"
    using assms(1,3) e by (simp add: client_send_def send_to_def p)
  have r: "client_delref N disc p (put p (c\<lparr>c_refs := c_refs c + 1\<rparr>) (at_peer k f w)) = Some (at_peer k f w)" for f
    using assms(1,2) by (auto simp: client_delref_def Let_def put_same)
  show ?thesis by (simp add: bcast_step_def m s r)
qed

lemma clients_next_at:
  assumes "k < length (listed w)" "Suc k < length (listed w) \<Longrightarrow> heap w (listed w ! Suc k) = Some c"
  shows "clients_next () (at_peer k d w) =
    (if Suc k < length (listed w) then Some (Some (listed w ! Suc k), (), put (listed w ! Suc k) (c\<lparr>c_refs := c_refs c + 1\<rparr>) (at_peer (Suc k) d w))
     else Some (None, (), at_peer (Suc k) d w))"
  using assms by (simp add: clients_next_def it_client_next_def it_client_cur_def client_addref_def at_peer_def put_def)

lemma bcast_sent_loop:
  assumes "standing w" "buf \<noteq> []" "\<And>s d. fst (n_send N s buf d) = int (length buf)"
    and "k < length (listed w)" "heap w (listed w ! k) = Some c"
  shows "for_each clients_next (bcast_step N disc buf (check_minperm m)) (Some (listed w ! k)) ()
      (put (listed w ! k) (c\<lparr>c_refs := c_refs c + 1\<rparr>) (at_peer k d w)) =
    Some (at_peer (length (listed w)) (fold (send_to N buf w) (filter (may_hear m w) (drop k (listed w))) d) w)"
  using assms(4,5)
proof (induction "length (listed w) - k" arbitrary: k c d)
  case 0
  then show ?case by simp
next
  case (Suc j)
  let ?p = "listed w ! k"
  have c: "c_del c = 0 \<longrightarrow> 0 < c_refs c" using standing_nth [OF assms(1) Suc.prems(1)] Suc.prems(2) by simp
  define e where "e = (if may_hear m w ?p then send_to N buf w ?p d else d)"
  have b: "bcast_step N disc buf (check_minperm m) ?p (put ?p (c\<lparr>c_refs := c_refs c + 1\<rparr>) (at_peer k d w)) = Some (at_peer k e w)"
    unfolding e_def using Suc.prems(2) c assms(2,3) by (intro bcast_step_sent) auto
  have dr: "drop k (listed w) = ?p # drop (Suc k) (listed w)" using Suc.prems(1) by (simp add: Cons_nth_drop_Suc)
  show ?case
  proof (cases "Suc k < length (listed w)")
    case True
    then obtain c' where c': "heap w (listed w ! Suc k) = Some c'"
      using standing_nth [OF assms(1)] by blast
    have "j = length (listed w) - Suc k" using Suc.hyps(2) by simp
    then show ?thesis
      using Suc.hyps(1) [of "Suc k" c' e] True c' clients_next_at [OF Suc.prems(1), of c' e]
      by (simp add: for_each.simps [of _ _ "Some ?p"] b dr) (simp add: e_def)
  next
    case False
    then have l: "length (listed w) = Suc k" using Suc.prems(1) by simp
    then show ?thesis
      using clients_next_at [OF Suc.prems(1), of c e]
      by (simp add: for_each.simps b dr) (simp add: e_def l)
  qed
qed

lemma bcast_sent:
  assumes "standing w" "buf \<noteq> []" "\<And>s d. fst (n_send N s buf d) = int (length buf)"
  shows "client_bcast_perm N disc buf minperm w = Some
    (w\<lparr>ext := fold (send_to N buf w) (filter (may_hear minperm w) (listed w)) (ext w),
       clients := (clients w)\<lparr>it_cur := length (listed w)\<rparr>\<rparr>)"
proof (cases "listed w = []")
  case True
  then show ?thesis
    by (simp add: client_bcast_perm_def client_bcast_def clients_begin_def it_client_begin_def it_client_cur_def for_each.simps)
next
  case False
  then obtain c where c: "heap w (listed w ! 0) = Some c" using standing_nth [OF assms(1), of 0] by auto
  have "clients_begin () w = Some (Some (listed w ! 0), (), put (listed w ! 0) (c\<lparr>c_refs := c_refs c + 1\<rparr>) (at_peer 0 (ext w) w))"
    using False c by (simp add: clients_begin_def it_client_begin_def it_client_cur_def client_addref_def at_peer_def put_def)
  then show ?thesis
    using bcast_sent_loop [OF assms(1,2,3), of 0 c disc minperm "ext w"] False c
    by (simp add: client_bcast_perm_def client_bcast_def at_peer_def)
qed

section \<open>Properties\<close>

text \<open>
  C1: No broadcast uses a client after it was freed, and every broadcast ends: from a state with consistent
  counters \<open>client_bcast\<close> returns, with consistent counters again, whichever sends fail and however many frees and
  broadcasts nest. The list only loses clients, and those that stay keep everything but their counter.
\<close>

theorem client_bcast_safe:
  assumes "refs_ok held w" "all_good peer_ok w"
  shows "\<exists>w'. client_bcast N (client_hook N) buf func w = Some w' \<and> refs_ok held w' \<and>
    set (listed w') \<subseteq> set (listed w) \<and>
    (\<forall>p c'. heap w' p = Some c' \<longrightarrow> (\<exists>c. heap w p = Some c \<and> c' = c\<lparr>c_refs := c_refs c'\<rparr>))"
  using hooked.client_bcast_calm [OF assms order_refl, of N buf func] by (auto simp: calm_def shrinks_def)


text \<open>
  C14: When the sends succeed, a broadcast reaches every client of the list that has the right, in the order of the
  list and each once, nobody else, and leaves all connections and their counters as they were.
\<close>

theorem client_bcast_delivers:
  assumes "refs_ok held w" "buf \<noteq> []" "\<And>s d. fst (n_send N s buf d) = int (length buf)"
  shows "client_bcast_perm N disc buf minperm w = Some
    (w\<lparr>ext := fold (send_to N buf w) (filter (may_hear minperm w) (listed w)) (ext w),
       clients := (clients w)\<lparr>it_cur := length (listed w)\<rparr>\<rparr>)"
  by (rule bcast_sent [OF refs_ok_standing [OF assms(1)] assms(2,3)])

section \<open>Examples\<close>

text \<open>
  Three clients; \<open>down\<close> are the sockets that do not take data any more, and the world is the list of what was
  sent.
\<close>

definition demo_lib :: "int list \<Rightarrow> (int \<times> string) list netlib" where
  "demo_lib down = \<lparr>n_send = \<lambda>s b d. if s \<in> set down then (- 1, d) else (int (length b), d @ [(s, b)]),
     n_recv = \<lambda>s n d. ([], d), n_accept = \<lambda>d. ((9, ''10.0.0.9''), d), n_watch = \<lambda>s p d. (True, d), n_close = \<lambda>s p d. d,
     n_junk = \<lambda>d. replicate 16 NUL, n_listen = \<lambda>p d. (True, d), n_channel = \<lambda>d. (True, d), n_unlisten = \<lambda>d. d,
     n_strerror = \<lambda>d. ''error''\<rparr>"

definition demo_peer :: "protstate \<Rightarrow> nat \<Rightarrow> client" where
  "demo_peer st p = \<lparr>c_sock = int p, c_id = int p,
     c_user = (if st = p_idle then Some \<lparr>us_id = int p, us_right = r_user, us_name = ''ann'', us_pass = []\<rparr> else None),
     c_sin = ''10.0.0.1'', c_ibuf = [NUL], c_ilen = 0, c_pstate = st, c_pdata = None, c_ifunc = True, c_refs = 1, c_del = 0\<rparr>"

definition demo_peers :: "mem \<Rightarrow> protstate \<Rightarrow> (int \<times> string) list netst" where
  "demo_peers m st = \<lparr>ext = [], dbcon = True, inprogress = 0, rfilter = None,
     heap = [0 \<mapsto> demo_peer st 0, 1 \<mapsto> demo_peer p_idle 1, 2 \<mapsto> demo_peer p_idle 2], fresh = 3,
     clients = \<lparr>it_clients = [0, 1, 2], it_cur = 0\<rparr>, maxid = 2, tabbuf = m\<rparr>"

lemma demo_peers_ok: "refs_ok (\<lambda>p. 0) (demo_peers m st)"
  by (auto simp: refs_ok_def live_def demo_peers_def demo_peer_def)

lemma demo_peer_ok: "p < 3 \<Longrightarrow> peer_ok (demo_peer st p)"
proof -
  assume "p < 3"
  then have "p = 0 \<or> p = 1 \<or> p = 2" by auto
  moreover have "peer_ok (demo_peer p_any 0)" "peer_ok (demo_peer p_open 0)" "peer_ok (demo_peer p_user 0)"
    "peer_ok (demo_peer p_idle 0)" "peer_ok (demo_peer p_any 1)" "peer_ok (demo_peer p_open 1)" "peer_ok (demo_peer p_user 1)"
    "peer_ok (demo_peer p_idle 1)" "peer_ok (demo_peer p_any 2)" "peer_ok (demo_peer p_open 2)" "peer_ok (demo_peer p_user 2)"
    "peer_ok (demo_peer p_idle 2)" by code_simp+
  ultimately show ?thesis by (cases st) auto
qed

lemma demo_peers_good: "all_good peer_ok (demo_peers (replicate 4096 NUL) st)"
  by (simp add: all_good_def demo_peers_def demo_peer_ok)

theorem client_bcast_safe_witness:
  "\<exists>w'. client_bcast (demo_lib [0]) (client_hook (demo_lib [0])) ''hello'' (\<lambda>c. True) (demo_peers (replicate 4096 NUL) p_idle) = Some w' \<and>
    refs_ok (\<lambda>p. 0) w'"
  using client_bcast_safe [OF demo_peers_ok demo_peers_good, of "demo_lib [0]" "''hello''" "\<lambda>c. True"] by blast


theorem client_bcast_delivers_witness:
  "map_option ext (client_bcast_perm (demo_lib []) None ''hi'' r_user (demo_peers [] p_open)) = Some [(1, ''hi''), (2, ''hi'')]"
proof -
  have "fold (send_to (demo_lib []) ''hi'' (demo_peers [] p_open)) (filter (may_hear r_user (demo_peers [] p_open)) [0, 1, 2]) [] =
      [(1, ''hi''), (2, ''hi'')]" by code_simp
  then show ?thesis
    using client_bcast_delivers [OF demo_peers_ok, of "''hi''" "demo_lib []" None r_user "[]" p_open]
    by (simp add: demo_lib_def demo_peers_def)
qed


end
