(* ===== verification/Clientline.thy ===== *)
theory Clientline
  imports Netsafe
begin

text \<open>
  Splitting the input of a connection into lines (\<open>client_getline\<close>): what holds for a packet with one linebreak,
  and what happens with more.
\<close>

lemma cstr_part: "set (cstr (a @ NUL # m) 0) \<subseteq> set a"
  by (induction a) (auto simp: cstr_def)

lemma find_lb_none: "\<forall>x \<in> set (cstr b k). \<not> is_lb x \<Longrightarrow> find_lb b k = None"
  by (simp add: find_lb_def Let_def takeWhile_eq_all_conv [THEN iffD2])

lemma skip_lb_none: "\<forall>x \<in> set (cstr b k). \<not> is_lb x \<Longrightarrow> skip_lb b k = k"
  by (cases "cstr b k") (auto simp: skip_lb_def)

lemma getline_line:
  assumes c: "heap w p = Some c" "c_del c = 0" "c_ibuf c = line @ nls @ rest @ NUL # junk"
    and line: "line \<noteq> []" "\<forall>x \<in> set line. \<not> is_lb x \<and> x \<noteq> NUL" and nls: "nls \<noteq> []" "\<forall>x \<in> set nls. is_lb x"
    and rest: "NUL \<notin> set rest" "rest = [] \<or> \<not> is_lb (hd rest)" and len: "c_ilen c = int (length (line @ nls @ rest))"
  shows "client_getline N disc p w = Some (Some line, put p (c\<lparr>
    c_ibuf := rest @ drop (length rest) (line @ replicate (length nls) NUL @ rest @ NUL # junk), c_ilen := int (length rest)\<rparr>) w)"
proof -
  have lb: "\<not> is_lb NUL" by (simp add: is_lb_def)
  have nn: "NUL \<notin> set nls" using nls(2) lb by blast
  have c0: "cstr (c_ibuf c) 0 = line @ nls @ rest"
    using c(3) line(2) nn rest(1) cstr_terminated [of "line @ nls @ rest" junk] by auto
  have c1: "cstr (c_ibuf c) (length line) = nls @ rest"
    using c(3) nn rest(1) cstr_terminated [of "nls @ rest" junk] by (simp add: cstr_def)
  have "skip_lb (c_ibuf c) 0 = 0"
    using line by (cases line) (simp_all add: skip_lb_def c0)
  moreover have "find_lb (c_ibuf c) 0 = Some (length line)"
    using line(2) nls by (cases nls) (simp_all add: find_lb_def c0 takeWhile_append2 Let_def)
  moreover have "takeWhile is_lb (nls @ rest) = nls"
    using nls(2) rest(2) by (cases rest) (simp_all add: takeWhile_append2)
  then have "skip_lb (c_ibuf c) (length line) = length line + length nls" by (simp add: skip_lb_def c1)
  moreover have "NUL \<in> set (c_ibuf c)" using c(3) by simp
  moreover have "cstr (line @ replicate (length nls) NUL @ rest @ NUL # junk) 0 = line"
    using nls(1) line(2) cstr_terminated [of line] by (cases nls) auto
  moreover have "buf_move (line @ replicate (length nls) NUL @ rest @ NUL # junk) (length line + length nls) (int (length rest)) =
      Some (rest @ drop (length rest) (line @ replicate (length nls) NUL @ rest @ NUL # junk))"
    by (simp add: buf_move_def)
  ultimately show ?thesis using c len by (simp add: client_getline_def Let_def)
qed

lemma getline_rest:
  assumes c: "heap w p = Some c" "c_del c = 0" "c_ibuf c = a @ NUL # junk"
    and a: "\<forall>x \<in> set a. \<not> is_lb x" and len: "c_ilen c < int CLIENT_BUFLEN"
  shows "client_getline N disc p w = Some (None, w)"
proof -
  have "\<forall>x \<in> set (cstr (c_ibuf c) 0). \<not> is_lb x" using a cstr_part [of a junk] c(3) by auto
  then show ?thesis
    using c len by (simp add: client_getline_def Let_def skip_lb_none find_lb_none)
qed

text \<open>What is left behind the rest of the input up to the next NUL: parts of old lines, but no linebreak.\<close>

lemma leftover:
  assumes "\<forall>x \<in> set line. \<not> is_lb x" "\<forall>x \<in> set rest. \<not> is_lb x"
  shows "\<exists>a m. drop (length rest) (line @ replicate k NUL @ rest @ NUL # junk) = a @ NUL # m \<and> (\<forall>x \<in> set a. \<not> is_lb x)"
proof -
  have lb: "\<not> is_lb NUL" by (simp add: is_lb_def)
  have "drop (length rest) (line @ replicate k NUL @ rest @ NUL # junk) =
      drop (length rest) (line @ replicate k NUL @ rest) @ NUL # junk" by simp
  moreover have "\<forall>x \<in> set (drop (length rest) (line @ replicate k NUL @ rest)). \<not> is_lb x"
    using assms lb by (auto dest!: in_set_dropD)
  ultimately show ?thesis by blast
qed

text \<open>
  C13: Input that ends one line gives that line, without its linebreaks, and then no further one; what follows it
  is kept at the start of the buffer, where the next packet is appended.
\<close>

theorem client_getline_one:
  assumes "heap w p = Some c" "c_del c = 0" "c_ibuf c = line @ nls @ rest @ NUL # junk"
    and "line \<noteq> []" "\<forall>x \<in> set line. \<not> is_lb x \<and> x \<noteq> NUL" "nls \<noteq> []" "\<forall>x \<in> set nls. is_lb x"
    and "\<forall>x \<in> set rest. \<not> is_lb x \<and> x \<noteq> NUL" "c_ilen c = int (length (line @ nls @ rest))" "length rest < CLIENT_BUFLEN"
  shows "\<exists>b. let w' = put p (c\<lparr>c_ibuf := rest @ b, c_ilen := int (length rest)\<rparr>) w in
    client_getline N disc p w = Some (Some line, w') \<and> client_getline N disc p w' = Some (None, w') \<and>
    length (rest @ b) = length (c_ibuf c)"
proof -
  have lr: "\<forall>x \<in> set line. \<not> is_lb x" "\<forall>x \<in> set rest. \<not> is_lb x" "NUL \<notin> set rest"
    using assms(5,8) by auto
  obtain a m where am: "drop (length rest) (line @ replicate (length nls) NUL @ rest @ NUL # junk) = a @ NUL # m"
      "\<forall>x \<in> set a. \<not> is_lb x"
    using leftover [OF lr(1,2), of "length nls" junk] by blast
  let ?c = "c\<lparr>c_ibuf := rest @ a @ NUL # m, c_ilen := int (length rest)\<rparr>"
  have "rest = [] \<or> \<not> is_lb (hd rest)" using lr(2) by (cases rest) auto
  then have 1: "client_getline N disc p w = Some (Some line, put p ?c w)"
    using getline_line [OF assms(1-7) lr(3) _ assms(9), of N disc] am(1) by simp
  have "client_getline N disc p (put p ?c w) = Some (None, put p ?c w)"
    using am(2) lr(2) assms(2,10) by (intro getline_rest [where c = ?c and a = "rest @ a" and junk = m]) auto
  moreover have "length (a @ NUL # m) = length (c_ibuf c) - length rest"
    unfolding am(1) [symmetric] using assms(3) by simp
  ultimately show ?thesis using 1 assms(3) by (intro exI [of _ "a @ NUL # m"]) (simp add: Let_def)
qed

definition demo_input :: "string \<Rightarrow> mem \<Rightarrow> (int \<times> string) list netst" where
  "demo_input text junk = put 0 ((demo_peer p_open 0)\<lparr>c_ibuf := text @ NUL # junk, c_ilen := int (length text)\<rparr>) (demo_peers [] p_open)"

theorem client_getline_one_witness:
  "\<exists>w'. client_getline (demo_lib []) None 0 (demo_input (''user ann'' @ [CR, LF] @ ''pa'') []) = Some (Some ''user ann'', w') \<and>
    client_getline (demo_lib []) None 0 w' = Some (None, w')"
proof -
  let ?c = "(demo_peer p_open 0)\<lparr>c_ibuf := ''user ann'' @ [CR, LF] @ ''pa'' @ NUL # [], c_ilen := 12\<rparr>"
  have w: "demo_input (''user ann'' @ [CR, LF] @ ''pa'') [] = put 0 ?c (demo_peers [] p_open)"
    by (simp add: demo_input_def)
  show ?thesis unfolding w
    using client_getline_one [of "put 0 ?c (demo_peers [] p_open)" 0 ?c "''user ann''" "[CR, LF]" "''pa''" "[]" "demo_lib []" None]
    by (auto simp: Let_def demo_peer_def is_lb_def CLIENT_BUFLEN_def)
qed


end
