(* ===== verification/Returns.thy ===== *)
theory Returns
  imports Iterator
begin

text \<open>
  Reasoning about computations that may crash or run forever (\<open>None\<close>): \<open>yields m Q\<close> says that \<open>m\<close> returns with \<open>Q\<close>,
  \<open>may_return m Q\<close> that it has \<open>Q\<close> if it returns. The second half is for properties of the state that a
  computation keeps; \<open>ks\<close>, \<open>kp\<close> and \<open>kt\<close> differ in the shape of the result.
\<close>

section \<open>Computations that return\<close>

definition yields :: "'a option \<Rightarrow> ('a \<Rightarrow> bool) \<Rightarrow> bool" where
  "yields m Q \<longleftrightarrow> (\<exists>x. m = Some x \<and> Q x)"

lemma yields_Some [simp]: "yields (Some x) Q = Q x" and yields_None [simp]: "\<not> yields None Q"
  by (simp_all add: yields_def)

lemma yields_bind: "yields m P \<Longrightarrow> (\<And>x. P x \<Longrightarrow> yields (f x) Q) \<Longrightarrow> yields (m \<bind> f) Q"
  by (auto simp: yields_def)

lemma yields_bind2: "yields m (\<lambda>(a, w). P a w) \<Longrightarrow> (\<And>a w. P a w \<Longrightarrow> yields (f a w) Q) \<Longrightarrow> yields (m \<bind> (\<lambda>(a, w). f a w)) Q"
  by (auto simp: yields_def)

lemma yields_mono: "yields m P \<Longrightarrow> (\<And>x. P x \<Longrightarrow> Q x) \<Longrightarrow> yields m Q"
  by (auto simp: yields_def)

definition may_return :: "'a option \<Rightarrow> ('a \<Rightarrow> bool) \<Rightarrow> bool" where
  "may_return m Q \<longleftrightarrow> (\<forall>x. m = Some x \<longrightarrow> Q x)"

lemma may_return_Some [simp]: "may_return (Some x) Q = Q x" and may_return_None [simp]: "may_return None Q"
  by (simp_all add: may_return_def)

lemma may_return_bind: "may_return m P \<Longrightarrow> (\<And>x. P x \<Longrightarrow> may_return (f x) Q) \<Longrightarrow> may_return (m \<bind> f) Q"
  by (auto simp: may_return_def bind_eq_Some_conv)

lemma may_return_bind2:
  "may_return m (\<lambda>(a, w). P a w) \<Longrightarrow> (\<And>a w. P a w \<Longrightarrow> may_return (f a w) Q) \<Longrightarrow> may_return (m \<bind> (\<lambda>(a, w). f a w)) Q"
  by (auto simp: may_return_def bind_eq_Some_conv)

lemma may_return_value: "(\<And>x. may_return (f x) Q) \<Longrightarrow> may_return (m \<bind> f) Q"
  by (auto simp: may_return_def bind_eq_Some_conv)

lemma may_return_mono: "may_return m P \<Longrightarrow> (\<And>x. P x \<Longrightarrow> Q x) \<Longrightarrow> may_return m Q"
  by (auto simp: may_return_def)

lemma yields_may: "yields m Q \<Longrightarrow> may_return m Q"
  by (auto simp: yields_def may_return_def)

section \<open>What a computation keeps\<close>

definition ks :: "('w \<Rightarrow> bool) \<Rightarrow> 'w option \<Rightarrow> bool" where
  "ks I m \<longleftrightarrow> (\<forall>w. m = Some w \<longrightarrow> I w)"

definition kp :: "('w \<Rightarrow> bool) \<Rightarrow> ('a \<times> 'w) option \<Rightarrow> bool" where
  "kp I m \<longleftrightarrow> (\<forall>a w. m = Some (a, w) \<longrightarrow> I w)"

definition kt :: "('w \<Rightarrow> bool) \<Rightarrow> ('a \<times> 'b \<times> 'w) option \<Rightarrow> bool" where
  "kt I m \<longleftrightarrow> (\<forall>a b w. m = Some (a, b, w) \<longrightarrow> I w)"

lemmas k_defs = ks_def kp_def kt_def

lemma k_Some: "I w \<Longrightarrow> ks I (Some w)" "I w \<Longrightarrow> kp I (Some (a, w))" "I w \<Longrightarrow> kt I (Some (a, b, w))"
  by (simp_all add: k_defs)

lemma k_None: "ks I None" "kp I None" "kt I None"
  by (simp_all add: k_defs)

lemma k_bind_s:
  "ks I m \<Longrightarrow> (\<And>w. I w \<Longrightarrow> ks I (f w)) \<Longrightarrow> ks I (m \<bind> f)"
  "ks I m \<Longrightarrow> (\<And>w. I w \<Longrightarrow> kp I (g w)) \<Longrightarrow> kp I (m \<bind> g)"
  "ks I m \<Longrightarrow> (\<And>w. I w \<Longrightarrow> kt I (h w)) \<Longrightarrow> kt I (m \<bind> h)"
  by (auto simp: k_defs bind_eq_Some_conv)

lemma k_bind_p:
  "kp I m \<Longrightarrow> (\<And>a w. I w \<Longrightarrow> ks I (f a w)) \<Longrightarrow> ks I (m \<bind> (\<lambda>(a, w). f a w))"
  "kp I m \<Longrightarrow> (\<And>a w. I w \<Longrightarrow> kp I (g a w)) \<Longrightarrow> kp I (m \<bind> (\<lambda>(a, w). g a w))"
  "kp I m \<Longrightarrow> (\<And>a w. I w \<Longrightarrow> kt I (h a w)) \<Longrightarrow> kt I (m \<bind> (\<lambda>(a, w). h a w))"
  by (auto simp: k_defs bind_eq_Some_conv)

lemma k_bind_t:
  "kt I m \<Longrightarrow> (\<And>a b w. I w \<Longrightarrow> ks I (f a b w)) \<Longrightarrow> ks I (m \<bind> (\<lambda>(a, b, w). f a b w))"
  "kt I m \<Longrightarrow> (\<And>a b w. I w \<Longrightarrow> kp I (g a b w)) \<Longrightarrow> kp I (m \<bind> (\<lambda>(a, b, w). g a b w))"
  "kt I m \<Longrightarrow> (\<And>a b w. I w \<Longrightarrow> kt I (h a b w)) \<Longrightarrow> kt I (m \<bind> (\<lambda>(a, b, w). h a b w))"
  by (auto simp: k_defs bind_eq_Some_conv)

text \<open>A step that ends with another property than it starts with.\<close>

lemma k_then:
  "ks J m \<Longrightarrow> (\<And>w. J w \<Longrightarrow> ks I (f w)) \<Longrightarrow> ks I (m \<bind> f)"
  "ks J m \<Longrightarrow> (\<And>w. J w \<Longrightarrow> kp I (g w)) \<Longrightarrow> kp I (m \<bind> g)"
  "kp J n \<Longrightarrow> (\<And>a w. J w \<Longrightarrow> ks I (f' a w)) \<Longrightarrow> ks I (n \<bind> (\<lambda>(a, w). f' a w))"
  "kp J n \<Longrightarrow> (\<And>a w. J w \<Longrightarrow> kp I (g' a w)) \<Longrightarrow> kp I (n \<bind> (\<lambda>(a, w). g' a w))"
  by (auto simp: k_defs bind_eq_Some_conv)

text \<open>A value that is looked up.\<close>

lemma k_bind_v:
  "(\<And>x. m = Some x \<Longrightarrow> ks I (f x)) \<Longrightarrow> ks I (m \<bind> f)"
  "(\<And>x. m = Some x \<Longrightarrow> kp I (g x)) \<Longrightarrow> kp I (m \<bind> g)"
  "(\<And>x. m = Some x \<Longrightarrow> kt I (h x)) \<Longrightarrow> kt I (m \<bind> h)"
  by (auto simp: k_defs bind_eq_Some_conv)

lemma k_bind_r: "kp I m \<Longrightarrow> (\<And>r. kp I (Some r) \<Longrightarrow> ks I (f r)) \<Longrightarrow> ks I (m \<bind> f)"
  by (cases m) (auto simp: k_None)

lemma k_if:
  "(P \<Longrightarrow> ks I a) \<Longrightarrow> (\<not> P \<Longrightarrow> ks I b) \<Longrightarrow> ks I (if P then a else b)"
  "(P \<Longrightarrow> kp I c) \<Longrightarrow> (\<not> P \<Longrightarrow> kp I d) \<Longrightarrow> kp I (if P then c else d)"
  "(P \<Longrightarrow> kt I e) \<Longrightarrow> (\<not> P \<Longrightarrow> kt I f) \<Longrightarrow> kt I (if P then e else f)"
  by simp_all

lemma k_option:
  "(y = None \<Longrightarrow> ks I a) \<Longrightarrow> (\<And>x. y = Some x \<Longrightarrow> ks I (f x)) \<Longrightarrow> ks I (case y of None \<Rightarrow> a | Some x \<Rightarrow> f x)"
  "(y = None \<Longrightarrow> kp I b) \<Longrightarrow> (\<And>x. y = Some x \<Longrightarrow> kp I (g x)) \<Longrightarrow> kp I (case y of None \<Rightarrow> b | Some x \<Rightarrow> g x)"
  "(y = None \<Longrightarrow> kt I c) \<Longrightarrow> (\<And>x. y = Some x \<Longrightarrow> kt I (h x)) \<Longrightarrow> kt I (case y of None \<Rightarrow> c | Some x \<Rightarrow> h x)"
  by (cases y; simp)+

lemma k_prod:
  "(\<And>a b. y = (a, b) \<Longrightarrow> ks I (f a b)) \<Longrightarrow> ks I (case y of (a, b) \<Rightarrow> f a b)"
  "(\<And>a b. y = (a, b) \<Longrightarrow> kp I (g a b)) \<Longrightarrow> kp I (case y of (a, b) \<Rightarrow> g a b)"
  "(\<And>a b. y = (a, b) \<Longrightarrow> kt I (h a b)) \<Longrightarrow> kt I (case y of (a, b) \<Rightarrow> h a b)"
  by (cases y; simp)+

lemma k_map:
  "kp I m \<Longrightarrow> ks I (map_option snd m)"
  "ks I n \<Longrightarrow> kp I (map_option (Pair a) n)"
  "I w \<Longrightarrow> kp I (map_option (\<lambda>x. (x, w)) v)"
  by (auto simp: k_defs)

lemmas k_intros = k_Some k_None k_bind_p k_bind_t k_bind_s k_bind_v k_if k_option k_prod k_map

text \<open>Loops over iterators.\<close>

lemma for_each_induct [consumes 1, case_names step]:
  assumes "for_each nxt body x i w = Some y"
    and "\<And>go nxt body x i w y. (\<And>nxt body x i w y. go nxt body x i w = Some y \<Longrightarrow> P nxt body x i w y) \<Longrightarrow>
      (case x of None \<Rightarrow> Some w | Some v \<Rightarrow> do { w1 \<leftarrow> body v w; (x', i', w2) \<leftarrow> nxt i w1; go nxt body x' i' w2 }) = Some y \<Longrightarrow>
      P nxt body x i w y"
  shows "P nxt body x i w y"
  using for_each.raw_induct [of P "((((nxt, body), x), i), w)" y, unfolded prod.case] assms by blast

lemma for_until_induct [consumes 1, case_names step]:
  assumes "for_until nxt body x i w = Some y"
    and "\<And>go nxt body x i w y. (\<And>nxt body x i w y. go nxt body x i w = Some y \<Longrightarrow> P nxt body x i w y) \<Longrightarrow>
      (case x of None \<Rightarrow> Some (None, w) | Some v \<Rightarrow> do { (r, w1) \<leftarrow> body v w;
          (case r of Some y \<Rightarrow> Some (Some y, w1) | None \<Rightarrow> do { (x', i', w2) \<leftarrow> nxt i w1; go nxt body x' i' w2 }) }) = Some y \<Longrightarrow>
      P nxt body x i w y"
  shows "P nxt body x i w y"
  using for_until.raw_induct [of P "((((nxt, body), x), i), w)" y, unfolded prod.case] assms by blast

text \<open>
  \<open>E\<close> holds of the element the loop is about to look at (none at the end), \<open>P\<close> behind the body, \<open>Q\<close> of the result
  that leaves the loop.
\<close>

lemma for_each_rule:
  assumes "for_each nxt body x i w = Some w'" "E x i w" "\<And>i w x i' w'. P i w \<Longrightarrow> nxt i w = Some (x, i', w') \<Longrightarrow> E x i' w'"
    and "\<And>v i w w'. E (Some v) i w \<Longrightarrow> body v w = Some w' \<Longrightarrow> P i w'"
  shows "\<exists>i. E None i w'"
  using assms
proof (induction rule: for_each_induct)
  case (step go nxt body x i w w')
  show ?case
  proof (cases x)
    case None
    then show ?thesis using step(2) step.prems(1) by auto
  next
    case (Some v)
    then obtain w1 x' i' w2 where b: "body v w = Some w1" and n: "nxt i w1 = Some (x', i', w2)" and g: "go nxt body x' i' w2 = Some w'"
      using step(2) by (auto simp: bind_eq_Some_conv)
    have "E x' i' w2" using step.prems(2) [OF step.prems(3) n] step.prems(1) Some b by blast
    then show ?thesis using step(1) [OF g] step.prems(2,3) by blast
  qed
qed

lemma for_until_rule:
  assumes "for_until nxt body x i w = Some (r, w')" "E x i w" "\<And>i w x i' w'. P i w \<Longrightarrow> nxt i w = Some (x, i', w') \<Longrightarrow> E x i' w'"
    and "\<And>v i w r w'. E (Some v) i w \<Longrightarrow> body v w = Some (r, w') \<Longrightarrow> (case r of None \<Rightarrow> P i w' | Some y \<Rightarrow> Q y w')"
  shows "case r of None \<Rightarrow> \<exists>i. E None i w' | Some y \<Rightarrow> Q y w'"
  using assms
proof (induction nxt body x i w "(r, w')" rule: for_until_induct)
  case (step go nxt body x i w)
  show ?case
  proof (cases x)
    case None
    then show ?thesis using step(2) step.prems(1) by auto
  next
    case (Some v)
    then obtain r1 w1 where b: "body v w = Some (r1, w1)"
      and g: "(case r1 of Some y \<Rightarrow> Some (Some y, w1) | None \<Rightarrow> do { (x', i', w2) \<leftarrow> nxt i w1; go nxt body x' i' w2 }) = Some (r, w')"
      using step(2) by (auto simp: bind_eq_Some_conv)
    note 1 = step.prems(3) [OF step.prems(1) [unfolded Some] b]
    show ?thesis
    proof (cases r1)
      case None
      then obtain x' i' w2 where n: "nxt i w1 = Some (x', i', w2)" and g: "go nxt body x' i' w2 = Some (r, w')"
        using g by (auto simp: bind_eq_Some_conv)
      have "E x' i' w2" using step.prems(2) [OF _ n] 1 None by simp
      then show ?thesis using step(1) [OF g] step.prems(2,3) by blast
    next
      case (Some y)
      then show ?thesis using g 1 by auto
    qed
  qed
qed

lemma for_each_keeps:
  assumes "for_each nxt body x i w = Some w'" "I w" "J i" "\<And>i w. J i \<Longrightarrow> I w \<Longrightarrow> kt I (nxt i w)"
    and "\<And>x w. I w \<Longrightarrow> ks I (body x w)" "\<And>i w x i' w'. J i \<Longrightarrow> nxt i w = Some (x, i', w') \<Longrightarrow> J i'"
  shows "I w'"
proof -
  have n: "I w' \<and> J i'" if "I w \<and> J i" "nxt i w = Some (x, i', w')" for i w x i' w'
    using that assms(4) [of i w] assms(6) [of i w x i' w'] by (simp add: kt_def)
  have b: "I w' \<and> J i" if "I w \<and> J i" "body v w = Some w'" for v i w w'
    using that assms(5) [of w v] by (simp add: ks_def)
  from for_each_rule [OF assms(1), of "\<lambda>x i w. I w \<and> J i" "\<lambda>i w. I w \<and> J i"] assms(2,3) n b show ?thesis by blast
qed

lemma for_until_keeps:
  assumes "for_until nxt body x i w = Some (r, w')" "I w" "J i" "\<And>i w. J i \<Longrightarrow> I w \<Longrightarrow> kt I (nxt i w)"
    and "\<And>x w. I w \<Longrightarrow> kp I (body x w)" "\<And>i w x i' w'. J i \<Longrightarrow> nxt i w = Some (x, i', w') \<Longrightarrow> J i'"
  shows "I w'"
proof -
  have n: "I w' \<and> J i'" if "I w \<and> J i" "nxt i w = Some (x, i', w')" for i w x i' w'
    using that assms(4) [of i w] assms(6) [of i w x i' w'] by (simp add: kt_def)
  have b: "case r of None \<Rightarrow> I w' \<and> J i | Some y \<Rightarrow> I w'" if "I w \<and> J i" "body v w = Some (r, w')" for v i w r w'
    using that assms(5) [of w v] by (simp add: kp_def split: option.split)
  have "case r of None \<Rightarrow> \<exists>i. I w' \<and> J i | Some y \<Rightarrow> I w'"
    by (rule for_until_rule [OF assms(1), of "\<lambda>x i w. I w \<and> J i" "\<lambda>i w. I w \<and> J i"]) (fact conjI [OF assms(2,3)] n b)+
  then show ?thesis by (simp split: option.splits)
qed

end
