(* ===== verification/Playersafe.thy ===== *)
theory Playersafe
  imports Player Returns
begin

text \<open>
  The player implements a machine with four modes. \<open>pmode\<close> reads the mode off the pipeline, the gap timer and the
  current track; \<open>pstep\<close> says which steps the machine may make. The theorems need of GStreamer, the database and the
  hooks only the named laws below: \<open>I\<close> is whatever the hooks need to work, and must not depend on the player.
\<close>

section \<open>Laws\<close>

text \<open>
  GStreamer: a change of state that is not refused takes place, the change to \<open>NULL\<close> is never refused, and
  nothing else changes the state; the timers of glib have positive numbers.
\<close>

definition pipeline_ok :: "'d gst \<Rightarrow> bool" where
  "pipeline_ok G \<longleftrightarrow>
     (\<forall>s d. fst (g_set_state G s d) \<longrightarrow> g_state G (snd (g_set_state G s d)) = s) \<and> (\<forall>d. fst (g_set_state G GST_STATE_NULL d)) \<and>
     (\<forall>d. g_state G (g_get_state G d) = g_state G d) \<and> (\<forall>p u d. g_state G (snd (g_seek G p u d)) = g_state G d) \<and>
     (\<forall>s d. g_state G (g_location G s d) = g_state G d) \<and> (\<forall>v d. g_state G (g_volume G v d) = g_state G d) \<and>
     (\<forall>n t d. g_state G (snd (g_timeout_add G n t d)) = g_state G d \<and> 0 < fst (g_timeout_add G n t d)) \<and>
     (\<forall>i d. g_state G (g_source_remove G i d) = g_state G d)"

text \<open>The pipeline takes up playing when it is told to.\<close>

definition plays :: "'d gst \<Rightarrow> bool" where
  "plays G \<longleftrightarrow> (\<forall>d. fst (g_set_state G GST_STATE_PLAYING d))"

text \<open>What the player is doing, and a state in which it does \<open>v\<close> and the hooks work.\<close>

type_synonym pview = "gstate \<times> int \<times> trackptr \<times> int"

definition pview :: "('d, 'z) env \<Rightarrow> ('d, 'z) pstate \<Rightarrow> pview" where
  "pview E w = (state E w, gap_id w, curtrack w, gap w)"

definition on :: "(('d, 'z) pstate \<Rightarrow> bool) \<Rightarrow> ('d, 'z) env \<Rightarrow> pview \<Rightarrow> ('d, 'z) pstate \<Rightarrow> bool" where
  "on I E v w \<longleftrightarrow> I w \<and> pview E w = v"

definition player_free :: "(('d, 'z) pstate \<Rightarrow> bool) \<Rightarrow> bool" where
  "player_free I \<longleftrightarrow> (\<forall>w d. I (w\<lparr>ext := d\<rparr>) = I w) \<and> (\<forall>w x. I (w\<lparr>gap_id := x\<rparr>) = I w) \<and> (\<forall>w x. I (w\<lparr>elapsed_id := x\<rparr>) = I w) \<and>
     (\<forall>w x. I (w\<lparr>curtrack := x\<rparr>) = I w) \<and> (\<forall>w x. I (w\<lparr>curuid := x\<rparr>) = I w)"

definition quiet :: "(('d, 'z) pstate \<Rightarrow> bool) \<Rightarrow> ('d, 'z) env \<Rightarrow> ('d, 'z) pstate notify \<Rightarrow> bool" where
  "quiet I E h \<longleftrightarrow> (\<forall>v w. on I E v w \<longrightarrow> yields (notify h w) (on I E v))"

text \<open>The database: queries return, a row has a value in its first column, and the player is not touched.\<close>

definition db_ok :: "(('d, 'z) pstate \<Rightarrow> bool) \<Rightarrow> ('d, 'z) env \<Rightarrow> bool" where
  "db_ok I E \<longleftrightarrow>
     (\<forall>q v w. on I E v w \<longrightarrow> yields (pe_query E q w) (\<lambda>(r, w'). on I E v w' \<and>
        (\<forall>res. r = Some res \<longrightarrow> 0 < PQntuples res \<longrightarrow> PQgetvalue res 0 0 \<noteq> None))) \<and>
     (\<forall>v w. on I E v w \<longrightarrow> on I E v (snd (c_time (pe_libc E) w)) \<and> on I E v (snd (c_random (pe_libc E) w))) \<and>
     (\<forall>f q v w. queue_func_fetch (pe_hooks E) = Some f \<longrightarrow> on I E v w \<longrightarrow> may_return (f q w) (on I E v))"

lemma query_yields: "db_ok I E \<Longrightarrow> on I E v w \<Longrightarrow> yields (pe_query E q w) (\<lambda>(r, w'). on I E v w' \<and>
    (\<forall>res. r = Some res \<longrightarrow> 0 < PQntuples res \<longrightarrow> PQgetvalue res 0 0 \<noteq> None))"
  unfolding db_ok_def by blast

lemma query_may: "db_ok I E \<Longrightarrow> on I E v w \<Longrightarrow> may_return (pe_query E q w) (\<lambda>(r, w'). on I E v w')"
  by (rule yields_may, rule yields_mono, erule (1) query_yields) auto

lemma fetch_hook_may:
  "db_ok I E \<Longrightarrow> queue_func_fetch (pe_hooks E) = Some f \<Longrightarrow> on I E v w \<Longrightarrow> may_return (f q w) (on I E v)"
  unfolding db_ok_def by blast

lemma c_time_on: "db_ok I E \<Longrightarrow> on I E v w \<Longrightarrow> c_time (pe_libc E) w = (t, w') \<Longrightarrow> on I E v w'"
  unfolding db_ok_def by (metis snd_conv)

lemma c_random_on: "db_ok I E \<Longrightarrow> on I E v w \<Longrightarrow> c_random (pe_libc E) w = (t, w') \<Longrightarrow> on I E v w'"
  unfolding db_ok_def by (metis snd_conv)

section \<open>The database operations of the player\<close>

lemma db_command_yields: "db_ok I E \<Longrightarrow> on I E v w \<Longrightarrow> yields (db_command (pe_query E) q w) (\<lambda>(r, w'). on I E v w')"
  unfolding db_command_def by (rule yields_bind2, erule (1) query_yields) auto

lemma history_add_yields:
  assumes "db_ok I E" "on I E v w"
  shows "yields (history_add (pe_query E) (pe_libc E) t uid completed w) (\<lambda>(r, w'). on I E v w')"
proof -
  obtain now w0 where c: "c_time (pe_libc E) w = (now, w0)" by fastforce
  have 0: "on I E v w0" by (rule c_time_on [OF assms c])
  show ?thesis unfolding history_add_def c random_cache_update_def prod.case
    by (rule yields_bind2 [OF query_yields [OF assms(1) 0]])
      (auto intro!: yields_bind2 [OF db_command_yields [OF assms(1)]])
qed

lemma tag_id_yields:
  assumes "db_ok I E" "on I E v w"
  shows "yields (tag_id (pe_query E) n w) (\<lambda>(r, w'). on I E v w')"
  unfolding tag_id_def db_get_id_def
  by (rule yields_bind2 [OF query_yields [OF assms]])
    (auto simp: tuples_ok_def pgint_def split: option.split)

lemma track_tagadd_yields:
  assumes "db_ok I E" "on I E v w"
  shows "yields (track_tagadd (pe_query E) t n w) (\<lambda>(r, w'). on I E v w')"
proof -
  have t: "yields (track_tagged (pe_query E) t n w1) (\<lambda>(r, w'). on I E v w')" if "on I E v w1" for w1
    unfolding track_tagged_def by (rule yields_bind2 [OF query_yields [OF assms(1) that]]) auto
  show ?thesis unfolding track_tagadd_def
    by (rule yields_bind2 [OF query_yields [OF assms]])
      (auto intro!: yields_bind2 [OF t] db_command_yields [OF assms(1)] split: option.split)
qed

text \<open>The loops of \<open>db_getnext\<close> may not end; when they do, only the current track has changed.\<close>

lemma db_get_may:
  assumes "db_ok I E" "on I E v w"
  shows "may_return (db_get (pe_query E) conv q w) (\<lambda>(r, w'). on I E v w')"
    "may_return (db_get_one (pe_query E) conv q w) (\<lambda>(r, w'). on I E v w')"
  unfolding db_get_def db_get_one_def
  by (rule may_return_bind2 [OF query_may [OF assms]]; auto simp: may_return_def split: option.splits if_splits)+

lemma queue_convert_may:
  assumes "db_ok I E" "on I E v w"
  shows "may_return (queue_convert (pe_query E) res tup w) (\<lambda>(r, w'). on I E v w')"
proof -
  have g: "may_return (getfield_w res n w k) (\<lambda>(r, w'). on I E v w')"
    if "\<And>f. may_return (k f) (\<lambda>(r, w'). on I E v w')" for n and k :: "int \<Rightarrow> (queue option \<times> _) option"
    using assms(2) that by (simp add: getfield_w_def)
  have t: "may_return (if PQfnumber res ''file_id'' \<noteq> - 1
      then do { tid \<leftarrow> pgint res tup (PQfnumber res ''file_id''); track_get (pe_query E) tid w1 }
      else map_option (\<lambda>t. (t, w1)) (track_convert res tup)) (\<lambda>(r, w'). on I E v w')" if "on I E v w1" for w1
    using that by (auto simp: may_return_def track_get_def bind_eq_Some_conv
        dest: db_get_may(1) [OF assms(1), unfolded may_return_def, rule_format])
  have "may_return (case u of None \<Rightarrow> Some (None, w1)
         | Some u \<Rightarrow> do {
             (t, w) \<leftarrow> (if PQfnumber res ''file_id'' \<noteq> - 1
                        then do { tid \<leftarrow> pgint res tup (PQfnumber res ''file_id''); track_get (pe_query E) tid w1 }
                        else map_option (\<lambda>t. (t, w1)) (track_convert res tup));
             Some (case t of None \<Rightarrow> None
               | Some t \<Rightarrow> Some \<lparr>qu_id = i, qu_track = t, qu_user = u, qu_queued = qd\<rparr>, w) }) (\<lambda>(r, w'). on I E v w')"
    if "on I E v w1" for u i qd w1
  proof (cases u)
    case (Some x)
    show ?thesis unfolding Some option.case by (rule may_return_bind2 [OF t [OF that]]) simp
  qed (simp add: that)
  then have u: "may_return (db_get_one (pe_query E) user_convert q w \<bind> (\<lambda>(u, w1). case u of None \<Rightarrow> Some (None, w1)
         | Some u \<Rightarrow> do {
             (t, w) \<leftarrow> (if PQfnumber res ''file_id'' \<noteq> - 1
                        then do { tid \<leftarrow> pgint res tup (PQfnumber res ''file_id''); track_get (pe_query E) tid w1 }
                        else map_option (\<lambda>t. (t, w1)) (track_convert res tup));
             Some (case t of None \<Rightarrow> None
               | Some t \<Rightarrow> Some \<lparr>qu_id = i, qu_track = t, qu_user = u, qu_queued = qd\<rparr>, w) })) (\<lambda>(r, w'). on I E v w')" for q i qd
    by (rule may_return_bind2 [OF db_get_may(2) [OF assms]])
  show ?thesis
  proof (cases "PQntuples res \<le> tup")
    case False
    then show ?thesis unfolding queue_convert_def user_get_def
      by (simp only: if_False) (rule g, rule may_return_value, rule g, rule may_return_value, rule g, rule may_return_value, rule u)
  qed (simp add: queue_convert_def assms(2))
qed

lemma queue_fetch_may:
  assumes "db_ok I E" "on I E v w"
  shows "may_return (queue_fetch (pe_query E) (queue_func_fetch (pe_hooks E)) w) (\<lambda>(r, w'). on I E v w')"
proof -
  have h: "may_return (call_hook (queue_func_fetch (pe_hooks E)) q w1) (on I E v)" if "on I E v w1" for q w1
    using that fetch_hook_may [OF assms(1)] by (cases "queue_func_fetch (pe_hooks E)") (simp_all add: call_hook_def)
  show ?thesis unfolding queue_fetch_def
    by (rule may_return_bind2 [OF query_may [OF assms]])
      (auto intro!: may_return_bind2 [OF queue_convert_may [OF assms(1)]] may_return_bind2 [OF query_may [OF assms(1)]]
        may_return_bind [OF h] split: option.split)
qed

lemma random_fetch_may:
  assumes "db_ok I E" "on I E v w"
  shows "may_return (random_fetch (pe_query E) (pe_libc E) w) (\<lambda>(r, w'). on I E v w')"
proof -
  have s: "may_return (random_filterstat (pe_query E) w) (\<lambda>(r, w'). on I E v w')"
    unfolding random_filterstat_def
    by (rule may_return_bind2 [OF query_may [OF assms]]) (auto intro!: may_return_value split: option.split)
  have t: "may_return (case c_random (pe_libc E) w1 of (r1, w) \<Rightarrow> case c_random (pe_libc E) w of (r2, w) \<Rightarrow>
      do { i \<leftarrow> pgint r (random_pick r1 r2 (PQntuples r)) 0; track_get (pe_query E) i w }) (\<lambda>(r, w'). on I E v w')"
    if "on I E v w1" for w1 r
  proof -
    obtain r1 w2 r2 w3 where c: "c_random (pe_libc E) w1 = (r1, w2)" "c_random (pe_libc E) w2 = (r2, w3)" by fastforce
    have "on I E v w3" using c_random_on [OF assms(1) c_random_on [OF assms(1) that c(1)] c(2)] .
    then show ?thesis by (auto simp: c track_get_def intro!: may_return_value db_get_may(1) [OF assms(1)])
  qed
  show ?thesis unfolding random_fetch_def Let_def
    by (auto intro!: may_return_bind2 [OF s] may_return_bind2 [OF query_may [OF assms(1)]] t split: option.split)
qed

lemma track_exists_may:
  assumes "db_ok I E" "on I E v w"
  shows "may_return (track_exists (pe_query E) op opt t w) (\<lambda>(r, w'). on I E v w')"
  unfolding track_exists_def using assms(2) by (auto intro!: may_return_bind2 [OF query_may [OF assms]])

lemma on_curtrack: "player_free I \<Longrightarrow> on I E (s, g, t, n) w \<Longrightarrow> on I E (s, g, t', n) (w\<lparr>curtrack := t'\<rparr>)"
  and on_curuid: "player_free I \<Longrightarrow> on I E v w \<Longrightarrow> on I E v (w\<lparr>curuid := u\<rparr>)"
  by (simp_all add: player_free_def on_def pview_def state_def)

lemma getnext_queue_may:
  assumes "getnext_queue E w = Some r" "db_ok I E" "player_free I" "on I E (s, g, t, n) w"
  shows "case r of (found, w') \<Rightarrow> \<exists>t'. on I E (s, g, t', n) w' \<and> (found \<longrightarrow> (\<exists>x. t' = Track x))"
  using assms
proof (induction arbitrary: t rule: getnext_queue.raw_induct [rotated, consumes 1, case_names 1])
  case (1 go E w r)
  note rec = "1.IH" and free = "1.prems"(2)
  obtain q w1 where q: "queue_fetch (pe_query E) (queue_func_fetch (pe_hooks E)) w = Some (q, w1)"
    and step: "(case q of None \<Rightarrow> Some (False, w1) | Some q \<Rightarrow> do {
        let w = w1\<lparr>curtrack := Track (qu_track q), curuid := us_id (qu_user q)\<rparr>;
        (ok, w) \<leftarrow> track_exists (pe_query E) (pe_opens E) (pe_opt E) (qu_track q) w;
        if ok then Some (True, w) else go E (w\<lparr>curtrack := Dangling\<rparr>) }) = Some r"
    using 1(2) by (auto simp: bind_eq_Some_conv)
  have w1: "on I E (s, g, t, n) w1" using queue_fetch_may [OF "1.prems"(1,3)] q by (simp add: may_return_def)
  show ?case
  proof (cases q)
    case None
    then show ?thesis using step w1 by auto
  next
    case (Some q')
    let ?w = "w1\<lparr>curtrack := Track (qu_track q'), curuid := us_id (qu_user q')\<rparr>"
    obtain ok w2 where 2: "track_exists (pe_query E) (pe_opens E) (pe_opt E) (qu_track q') ?w = Some (ok, w2)"
      and step2: "(if ok then Some (True, w2) else go E (w2\<lparr>curtrack := Dangling\<rparr>)) = Some r"
      using step Some by (auto simp: bind_eq_Some_conv)
    have "on I E (s, g, Track (qu_track q'), n) ?w" using w1 on_curuid [OF free on_curtrack [OF free]] by simp
    then have w2: "on I E (s, g, Track (qu_track q'), n) w2"
      using track_exists_may [OF "1.prems"(1)] 2 by (fastforce simp: may_return_def)
    show ?thesis
    proof (cases ok)
      case True
      then show ?thesis using step2 w2 by auto
    next
      case False
      then have "go E (w2\<lparr>curtrack := Dangling\<rparr>) = Some r" using step2 by simp
      then show ?thesis using rec "1.prems"(1) free on_curtrack [OF free w2] by blast
    qed
  qed
qed

lemma getnext_random_may:
  assumes "getnext_random E w = Some w'" "db_ok I E" "player_free I" "on I E (s, g, t, n) w"
  shows "\<exists>t'. on I E (s, g, t', n) w'"
  using assms
proof (induction arbitrary: t rule: getnext_random.raw_induct [rotated, consumes 1, case_names 1])
  case (1 go E w w')
  note rec = "1.IH" and free = "1.prems"(2)
  obtain q w1 where q: "random_fetch (pe_query E) (pe_libc E) w = Some (q, w1)"
    and step: "(case q of None \<Rightarrow> Some (w1\<lparr>curtrack := Null\<rparr>) | Some t \<Rightarrow> do {
        let w = w1\<lparr>curtrack := Track t\<rparr>;
        (ok, w) \<leftarrow> track_exists (pe_query E) (pe_opens E) (pe_opt E) t w;
        if ok then Some w else go E (w\<lparr>curtrack := Dangling\<rparr>) }) = Some w'"
    using 1(2) by (auto simp: bind_eq_Some_conv)
  have w1: "on I E (s, g, t, n) w1" using random_fetch_may [OF "1.prems"(1,3)] q by (simp add: may_return_def)
  show ?case
  proof (cases q)
    case None
    then show ?thesis using step on_curtrack [OF free w1, of Null] by auto
  next
    case (Some t0)
    obtain ok w2 where 2: "track_exists (pe_query E) (pe_opens E) (pe_opt E) t0 (w1\<lparr>curtrack := Track t0\<rparr>) = Some (ok, w2)"
      and step2: "(if ok then Some w2 else go E (w2\<lparr>curtrack := Dangling\<rparr>)) = Some w'"
      using step Some by (auto simp: bind_eq_Some_conv)
    have w2: "on I E (s, g, Track t0, n) w2"
      using track_exists_may [OF "1.prems"(1) on_curtrack [OF free w1, of "Track t0"]] 2 by (fastforce simp: may_return_def)
    show ?thesis
    proof (cases ok)
      case True
      then show ?thesis using step2 w2 by auto
    next
      case False
      then have "go E (w2\<lparr>curtrack := Dangling\<rparr>) = Some w'" using step2 by simp
      then show ?thesis using rec "1.prems"(1) free on_curtrack [OF free w2] by blast
    qed
  qed
qed

lemma db_getnext_may:
  assumes "db_ok I E" "player_free I" "on I E (s, g, t, n) w"
  shows "may_return (db_getnext E w) (\<lambda>w'. \<exists>t'. on I E (s, g, t', n) w')"
proof -
  have q: "may_return (getnext_queue E w) (\<lambda>(found, w'). \<exists>t'. on I E (s, g, t', n) w')"
    using getnext_queue_may [OF _ assms] by (fastforce simp: may_return_def)
  have r: "may_return (getnext_random E w1) (\<lambda>w'. \<exists>t'. on I E (s, g, t', n) w')" if "on I E (s, g, t1, n) w1" for w1 t1
    using getnext_random_may [OF _ assms(1,2) that] by (auto simp: may_return_def)
  have "may_return (if found then Some w1 else if do_random (w1\<lparr>curuid := 0\<rparr>) = 0 then Some (w1\<lparr>curuid := 0\<rparr>)
      else getnext_random E (w1\<lparr>curuid := 0\<rparr>)) (\<lambda>w'. \<exists>t'. on I E (s, g, t', n) w')"
    if "\<exists>t'. on I E (s, g, t', n) w1" for found w1
  proof -
    from that obtain t1 where t1: "on I E (s, g, t1, n) w1" ..
    from r [OF on_curuid [OF assms(2) t1, of 0]] on_curuid [OF assms(2) t1, of 0] t1 show ?thesis by auto
  qed
  then have "may_return (getnext_queue E w \<bind> (\<lambda>(found, w1). if found then Some w1
      else if do_random (w1\<lparr>curuid := 0\<rparr>) = 0 then Some (w1\<lparr>curuid := 0\<rparr>) else getnext_random E (w1\<lparr>curuid := 0\<rparr>)))
      (\<lambda>w'. \<exists>t'. on I E (s, g, t', n) w')"
    by (rule may_return_bind2 [OF q])
  then show ?thesis unfolding db_getnext_def Let_def using assms(3) by auto
qed

section \<open>The pipeline functions\<close>

lemma on_ext: "player_free I \<Longrightarrow> on I E (s, g, t, n) w \<Longrightarrow> on I E (g_state (pe_gst E) d, g, t, n) (w\<lparr>ext := d\<rparr>)"
  by (simp add: player_free_def on_def pview_def state_def)

lemma on_gap_id: "player_free I \<Longrightarrow> on I E (s, g, t, n) w \<Longrightarrow> on I E (s, g', t, n) (w\<lparr>gap_id := g'\<rparr>)"
  and on_elapsed_id: "player_free I \<Longrightarrow> on I E v w \<Longrightarrow> on I E v (w\<lparr>elapsed_id := i\<rparr>)"
  by (simp_all add: player_free_def on_def pview_def state_def)

lemma on_sel: "on I E (s, g, t, n) w \<Longrightarrow> state E w = s \<and> gap_id w = g \<and> curtrack w = t \<and> gap w = n \<and> I w"
  by (simp add: on_def pview_def)

lemma on_state: "on I E (s, g, t, n) w \<Longrightarrow> g_state (pe_gst E) (ext w) = s"
  by (simp add: on_def pview_def state_def)

lemma set_state_on:
  assumes "pipeline_ok (pe_gst E)" "player_free I" "on I E (s, g, t, n) w" "set_state E x w = (ok, w')"
  shows "\<exists>s'. on I E (s', g, t, n) w' \<and> (ok \<longrightarrow> s' = x) \<and> (x = GST_STATE_NULL \<longrightarrow> ok)"
proof -
  obtain d where d: "g_set_state (pe_gst E) x (ext w) = (ok, d)" "w' = w\<lparr>ext := d\<rparr>"
    using assms(4) by (auto simp: set_state_def split: prod.splits)
  have "ok \<Longrightarrow> g_state (pe_gst E) d = x" "x = GST_STATE_NULL \<Longrightarrow> ok"
    using assms(1) d(1) unfolding pipeline_ok_def by (metis fst_conv snd_conv)+
  then show ?thesis using on_ext [OF assms(2,3), of d] d(2) by blast
qed

lemma source_remove_on:
  assumes "pipeline_ok (pe_gst E)" "player_free I" "on I E (s, g, t, n) w"
  shows "on I E (s, g, t, n) (source_remove E i w)"
  using on_ext [OF assms(2,3), of "g_source_remove (pe_gst E) i (ext w)"] assms(1) on_state [OF assms(3)]
  unfolding pipeline_ok_def source_remove_def by metis

lemma elapsed_del_on:
  assumes "pipeline_ok (pe_gst E)" "player_free I" "on I E (s, g, t, n) w"
  shows "on I E (s, g, t, n) (elapsed_del E w)"
  using assms(3) on_elapsed_id [OF assms(2) source_remove_on [OF assms]] by (simp add: elapsed_del_def)

lemma elapsed_add_on:
  assumes "pipeline_ok (pe_gst E)" "player_free I" "on I E (s, g, t, n) w"
  shows "on I E (s, g, t, n) (elapsed_add E w)"
proof -
  obtain i d where d: "g_timeout_add (pe_gst E) 1000 cb_elapsed_timeout (ext w) = (i, d)" by fastforce
  then have "g_state (pe_gst E) d = s" using assms(1) on_state [OF assms(3)] unfolding pipeline_ok_def by (metis snd_conv)
  then show ?thesis
    using assms(3) on_elapsed_id [OF assms(2) on_ext [OF assms(2,3), of d]] by (simp add: elapsed_add_def d)
qed

lemma gap_finish_on:
  assumes "pipeline_ok (pe_gst E)" "player_free I" "on I E (s, g, t, n) w"
  shows "on I E (s, 0, t, n) (gap_finish E w)"
  using on_gap_id [OF assms(2) source_remove_on [OF assms]] by (simp add: gap_finish_def)

lemma db_finish_yields:
  assumes "db_ok I E" "player_free I" "on I E (s, g, t, n) w" "t \<noteq> Dangling"
  shows "yields (db_finish E completed w) (on I E (s, g, Null, n))"
proof (cases t)
  case (Track x)
  let ?on = "on I E (s, g, Track x, n)"
  have f: "yields (if completed then Some w1
      else do { (tagid, w) \<leftarrow> tag_id (pe_query E) (opt_failtag (pe_opt E)) w1;
                if 0 < tagid then do { (r, w) \<leftarrow> track_tagadd (pe_query E) (tr_id x) tagid w; Some w } else Some w }) ?on"
    if "?on w1" for w1
    using that by (auto intro!: yields_bind2 [OF tag_id_yields [OF assms(1)]] yields_bind2 [OF track_tagadd_yields [OF assms(1)]])
  have c: "on I E (s, g, Null, n) (w1\<lparr>curtrack := Null, curuid := 0\<rparr>)" if "?on w1" for w1
    by (rule on_curuid [OF assms(2) on_curtrack [OF assms(2) that]])
  have g: "yields (do {
      w \<leftarrow> (if completed then Some w1
        else do { (tagid, w) \<leftarrow> tag_id (pe_query E) (opt_failtag (pe_opt E)) w1;
                  if 0 < tagid then do { (r, w) \<leftarrow> track_tagadd (pe_query E) (tr_id x) tagid w; Some w } else Some w });
      Some (w\<lparr>curtrack := Null, curuid := 0\<rparr>) }) (on I E (s, g, Null, n))" if "?on w1" for w1
    by (rule yields_bind [OF f [OF that]]) (simp add: c)
  have h: "yields (history_add (pe_query E) (pe_libc E) x (curuid w) completed w) (\<lambda>(r, w'). ?on w')"
    using history_add_yields [OF assms(1)] assms(3) Track by simp
  show ?thesis
    using yields_bind2 [OF h g] on_sel [OF assms(3)] Track by (simp add: db_finish_def deref_def)
qed (use assms on_sel [OF assms(3)] in \<open>simp_all add: db_finish_def\<close>)

lemma bp_finish_yields:
  assumes "pipeline_ok (pe_gst E)" "db_ok I E" "player_free I" "on I E (s, g, t, n) w" "t \<noteq> Dangling"
  shows "yields (bp_finish E complete w) (on I E (GST_STATE_NULL, 0, Null, n))"
proof -
  define w1 where "w1 = (if gap_id (elapsed_del E w) \<noteq> 0 then gap_finish E (elapsed_del E w) else elapsed_del E w)"
  have e: "on I E (s, g, t, n) (elapsed_del E w)" by (rule elapsed_del_on [OF assms(1,3,4)])
  have w1: "on I E (s, 0, t, n) w1"
    using e gap_finish_on [OF assms(1,3) e] on_sel [OF e] by (auto simp: w1_def)
  obtain ok w2 where s: "set_state E GST_STATE_NULL w1 = (ok, w2)" by fastforce
  have "on I E (GST_STATE_NULL, 0, t, n) w2" using set_state_on [OF assms(1,3) w1 s] by auto
  from db_finish_yields [OF assms(2,3) this assms(5)] show ?thesis
    by (simp add: bp_finish_def Let_def w1_def [symmetric] s)
qed

lemma quiet_yields: "quiet I E h \<Longrightarrow> on I E v w \<Longrightarrow> yields (notify h w) (on I E v)"
  unfolding quiet_def by blast

text \<open>Looking for the next track ends, and not with one that was freed.\<close>

definition getnext_ends :: "(('d, 'z) pstate \<Rightarrow> bool) \<Rightarrow> ('d, 'z) env \<Rightarrow> bool" where
  "getnext_ends I E \<longleftrightarrow> (\<forall>w. I w \<longrightarrow> curtrack w = Null \<longrightarrow> yields (db_getnext E w) (\<lambda>w'. curtrack w' \<noteq> Dangling))"

lemma getnext_yields:
  assumes "db_ok I E" "player_free I" "getnext_ends I E" "on I E (s, g, Null, n) w"
  shows "yields (db_getnext E w) (\<lambda>w'. on I E (s, g, Null, n) w' \<or> (\<exists>t. on I E (s, g, Track t, n) w'))"
proof -
  obtain w' where w': "db_getnext E w = Some w'" "curtrack w' \<noteq> Dangling"
    using assms(3) on_sel [OF assms(4)] unfolding getnext_ends_def yields_def by blast
  then obtain t' where "on I E (s, g, t', n) w'" using db_getnext_may [OF assms(1,2,4)] by (auto simp: may_return_def)
  with w' on_sel [OF this] show ?thesis by (cases t') (auto simp: yields_def)
qed

text \<open>The middle of \<open>bp_start\<close>: everything before the pipeline is set to play.\<close>

lemma bp_seek_on:
  assumes "pipeline_ok (pe_gst E)" "player_free I" "on I E (s, g, Track t, n) w"
  shows "yields (bp_seek E pos w) (\<lambda>(r, w'). on I E (s, g, Track t, n) w')"
proof -
  have "on I E (s, g, Track t, n) (w\<lparr>ext := snd (g_seek (pe_gst E) pos u (ext w))\<rparr>)" for u
    using on_ext [OF assms(2,3), of "snd (g_seek (pe_gst E) pos u (ext w))"] assms(1) on_state [OF assms(3)]
    unfolding pipeline_ok_def by metis
  moreover have "curtrack w = Track t" using on_sel [OF assms(3)] by simp
  ultimately show ?thesis
    by (auto simp: bp_seek_def deref_def Let_def split_beta)
qed

lemma bp_volume_on:
  assumes "pipeline_ok (pe_gst E)" "player_free I" "on I E (s, g, Track t, n) w"
  shows "yields (bp_volume E w) (\<lambda>(r, w'). on I E (s, g, Track t, n) w')"
proof -
  have "on I E (s, g, Track t, n) (w\<lparr>ext := g_volume (pe_gst E) v (ext w)\<rparr>)" for v
    using on_ext [OF assms(2,3), of "g_volume (pe_gst E) v (ext w)"] assms(1) on_state [OF assms(3)]
    unfolding pipeline_ok_def by metis
  moreover have "curtrack w = Track t" using on_sel [OF assms(3)] by simp
  ultimately show ?thesis by (simp add: bp_volume_def deref_def)
qed

lemma bp_start_yields:
  assumes laws: "pipeline_ok (pe_gst E)" "db_ok I E" "player_free I" "getnext_ends I E" "plays (pe_gst E)"
    and hooks: "quiet I E (player_func_stop (pe_hooks E))" "quiet I E (player_func_newtrack (pe_hooks E))"
    and w: "on I E (s, 0, Null, n) w" "s \<in> {GST_STATE_NULL, GST_STATE_READY}"
  shows "yields (bp_start E w) (\<lambda>(r, w'). r \<noteq> - 1 \<and>
    (on I E (s, 0, Null, n) w' \<or> (\<exists>t. on I E (GST_STATE_PLAYING, 0, Track t, n) w')))"
proof -
  let ?Q = "\<lambda>(r :: int, w'). r \<noteq> - 1 \<and> (on I E (s, 0, Null, n) w' \<or> (\<exists>t. on I E (GST_STATE_PLAYING, 0, Track t, n) w'))"
  have st: "bp_status E w = pl_stop" using w(2) on_sel [OF w(1)] by (auto simp: bp_status_def)
  obtain w1 where w1: "db_getnext E w = Some w1" "on I E (s, 0, Null, n) w1 \<or> (\<exists>t. on I E (s, 0, Track t, n) w1)"
    using getnext_yields [OF laws(2,3,4) w(1)] by (auto simp: yields_def)
  show ?thesis
  proof (cases "curtrack w1 = Null")
    case True
    then have o: "on I E (s, 0, Null, n) w1" using w1(2) on_sel by fastforce
    have "yields (do { w \<leftarrow> notify (player_func_stop (pe_hooks E)) w1; Some (2, w) }) ?Q"
      by (rule yields_bind [OF quiet_yields [OF hooks(1) o]]) simp
    with st w1(1) True show ?thesis by (simp add: bp_start_def)
  next
    case False
    then obtain t where t: "on I E (s, 0, Track t, n) w1" using w1(2) on_sel by fastforce
    have ct: "curtrack w1 = Track t" using on_sel [OF t] by simp
    define w2 where "w2 = w1\<lparr>ext := g_location (pe_gst E) (track_mkpath (pe_opt E) MAXPATHLEN t) (ext w1)\<rparr>"
    have o2: "on I E (s, 0, Track t, n) w2"
      using on_ext [OF laws(3) t, of "g_location (pe_gst E) (track_mkpath (pe_opt E) MAXPATHLEN t) (ext w1)"] laws(1) on_state [OF t]
      unfolding pipeline_ok_def w2_def by metis
    obtain r3 w3 where w3: "bp_volume E w2 = Some (r3, w3)" "on I E (s, 0, Track t, n) w3"
      using bp_volume_on [OF laws(1,3) o2] by (auto simp: yields_def)
    obtain ok4 w4 where w4: "set_state E GST_STATE_PAUSED w3 = (ok4, w4)" by fastforce
    obtain s4 where o4: "on I E (s4, 0, Track t, n) w4" using set_state_on [OF laws(1,3) w3(2) w4] by blast
    define w5 where "w5 = w4\<lparr>ext := g_get_state (pe_gst E) (ext w4)\<rparr>"
    have o5: "on I E (s4, 0, Track t, n) w5"
      using on_ext [OF laws(3) o4, of "g_get_state (pe_gst E) (ext w4)"] laws(1) on_state [OF o4]
      unfolding pipeline_ok_def w5_def by metis
    obtain r6 w6 where w6: "bp_seek E (if cut w5 \<noteq> 0 then s64 (tr_seg_from t) else 0) w5 = Some (r6, w6)" "on I E (s4, 0, Track t, n) w6"
      using bp_seek_on [OF laws(1,3) o5, of "if cut w5 \<noteq> 0 then s64 (tr_seg_from t) else 0"]
      by (auto simp: yields_def split del: if_split)
    obtain ok7 w7 where w7: "set_state E GST_STATE_PLAYING w6 = (ok7, w7)" by fastforce
    then have ok7: ok7 using laws(5) by (auto simp: plays_def set_state_def split_beta)
    then have o7: "on I E (GST_STATE_PLAYING, 0, Track t, n) w7" using set_state_on [OF laws(1,3) w6(2) w7] by auto
    have "yields (do { w \<leftarrow> notify (player_func_newtrack (pe_hooks E)) w7; Some (0, elapsed_add E w) }) ?Q"
      by (rule yields_bind [OF quiet_yields [OF hooks(2) o7]]) (auto dest: elapsed_add_on [OF laws(1,3)])
    moreover have "cut w5 = cut w4" by (simp add: w5_def)
    ultimately show ?thesis
      using st w1(1) ct ok7 w3(1) w4 w6(1) w7
      by (cases "cut w4 = 0") (simp_all add: bp_start_def deref_def w2_def [symmetric] w5_def [symmetric] Let_def)
  qed
qed

section \<open>The machine\<close>

datatype pmode = Stopped | Playing track | Paused track | InGap

datatype pevent = Start | Pause | Stop | Next | Track_ended | Pipe_error | Gap_over

text \<open>The mode of a state; the pipeline, the timer and the track may also contradict each other.\<close>

definition pmode :: "('d, 'z) env \<Rightarrow> ('d, 'z) pstate \<Rightarrow> pmode option" where
  "pmode E w =
     (case curtrack w of
        Track t \<Rightarrow> if gap_id w \<noteq> 0 then None
          else (case state E w of GST_STATE_PLAYING \<Rightarrow> Some (Playing t) | GST_STATE_PAUSED \<Rightarrow> Some (Paused t) | _ \<Rightarrow> None)
      | Null \<Rightarrow> if state E w \<in> {GST_STATE_NULL, GST_STATE_READY} then Some (if gap_id w = 0 then Stopped else InGap) else None
      | Dangling \<Rightarrow> None)"

text \<open>What users and the pipeline make the player do.\<close>

definition player_event :: "('d, 'z) env \<Rightarrow> pevent \<Rightarrow> ('d, 'z) pstate \<Rightarrow> (playerror \<times> ('d, 'z) pstate) option" where
  "player_event E ev w =
     (case ev of
        Start \<Rightarrow> player_start E w
      | Pause \<Rightarrow> player_pause E w
      | Stop \<Rightarrow> player_stop E w
      | Next \<Rightarrow> player_next E w
      | Track_ended \<Rightarrow> map_option (Pair PE_OK) (cb_bus E GST_MESSAGE_EOS w)
      | Pipe_error \<Rightarrow> map_option (Pair PE_OK) (cb_bus E GST_MESSAGE_ERROR w)
      | Gap_over \<Rightarrow> map_option (Pair PE_OK) (gap_timeout E w))"

inductive started :: "pmode \<Rightarrow> bool" where
  "started Stopped"
| "started (Playing t)"

text \<open>The steps, where \<open>gap\<close> is whether there are pauses between tracks.\<close>

inductive pstep :: "bool \<Rightarrow> pevent \<Rightarrow> pmode \<Rightarrow> playerror \<Rightarrow> pmode \<Rightarrow> bool" for gap where
  start_next: "started m \<Longrightarrow> pstep gap Start Stopped PE_OK m"
| start_resume: "pstep gap Start (Paused t) PE_OK (Playing t)"
| start_playing: "pstep gap Start (Playing t) PE_NOTHING (Playing t)"
| start_gap: "pstep gap Start InGap PE_NOTHING InGap"
| pause_ok: "pstep gap Pause (Playing t) PE_OK (Paused t)"
| pause_refused: "pstep gap Pause (Playing t) PE_FAIL Stopped"
| pause_gap: "pstep gap Pause InGap PE_OK Stopped"
| pause_paused: "pstep gap Pause (Paused t) PE_NOTHING (Paused t)"
| pause_stopped: "pstep gap Pause Stopped PE_FAIL Stopped"
| stop_stopped: "pstep gap Stop Stopped PE_NOTHING Stopped"
| stop_busy: "m \<noteq> Stopped \<Longrightarrow> pstep gap Stop m PE_OK Stopped"
| skip: "started m' \<Longrightarrow> pstep gap Next m PE_OK m'"
| ended_gap: "gap \<Longrightarrow> pstep gap Track_ended m PE_OK InGap"
| ended_next: "\<not> gap \<Longrightarrow> started m' \<Longrightarrow> pstep gap Track_ended m PE_OK m'"
| error_stops: "pstep gap Pipe_error m PE_OK Stopped"
| gap_next: "started m' \<Longrightarrow> pstep gap Gap_over InGap PE_OK m'"

inductive_cases pstep_pauseE: "pstep g Pause m r m'"

definition player_laws :: "(('d, 'z) pstate \<Rightarrow> bool) \<Rightarrow> ('d, 'z) env \<Rightarrow> bool" where
  "player_laws I E \<longleftrightarrow> pipeline_ok (pe_gst E) \<and> plays (pe_gst E) \<and> db_ok I E \<and> player_free I \<and> getnext_ends I E \<and>
     quiet I E (player_func_stop (pe_hooks E)) \<and> quiet I E (player_func_newtrack (pe_hooks E)) \<and>
     quiet I E (player_func_pause (pe_hooks E)) \<and> quiet I E (player_func_resume (pe_hooks E))"

text \<open>The state is in mode \<open>m\<close>.\<close>

definition in_mode :: "(('d, 'z) pstate \<Rightarrow> bool) \<Rightarrow> ('d, 'z) env \<Rightarrow> pmode \<Rightarrow> ('d, 'z) pstate \<Rightarrow> bool" where
  "in_mode I E m w \<longleftrightarrow> I w \<and> pmode E w = Some m"

lemma pmode_on:
  assumes "on I E (s, g, t, n) w"
  shows "in_mode I E Stopped w \<longleftrightarrow> s \<in> {GST_STATE_NULL, GST_STATE_READY} \<and> g = 0 \<and> t = Null"
    "in_mode I E InGap w \<longleftrightarrow> s \<in> {GST_STATE_NULL, GST_STATE_READY} \<and> g \<noteq> 0 \<and> t = Null"
    "in_mode I E (Playing x) w \<longleftrightarrow> s = GST_STATE_PLAYING \<and> g = 0 \<and> t = Track x"
    "in_mode I E (Paused x) w \<longleftrightarrow> s = GST_STATE_PAUSED \<and> g = 0 \<and> t = Track x"
  using on_sel [OF assms] by (auto simp: in_mode_def pmode_def split: trackptr.split gstate.split)

lemma in_mode_on:
  assumes "in_mode I E m w"
  obtains s g t where "on I E (s, g, t, gap w) w" "t \<noteq> Dangling"
proof
  show "on I E (state E w, gap_id w, curtrack w, gap w) w" using assms by (simp add: in_mode_def on_def pview_def)
  show "curtrack w \<noteq> Dangling" using assms by (auto simp: in_mode_def pmode_def)
qed

lemma in_mode_status:
  "in_mode I E m w \<Longrightarrow> bp_status E w = (case m of Stopped \<Rightarrow> pl_stop | Paused _ \<Rightarrow> pl_pause | _ \<Rightarrow> pl_play)"
  by (auto simp: in_mode_def pmode_def bp_status_def split: trackptr.splits gstate.splits if_splits)

lemma on_stopped: "on I E (s, 0, Null, n) w \<Longrightarrow> s \<in> {GST_STATE_NULL, GST_STATE_READY} \<Longrightarrow> in_mode I E Stopped w"
  and on_playing: "on I E (GST_STATE_PLAYING, 0, Track t, n) w \<Longrightarrow> in_mode I E (Playing t) w"
  and on_paused: "on I E (GST_STATE_PAUSED, 0, Track t, n) w \<Longrightarrow> in_mode I E (Paused t) w"
  and on_gap: "on I E (s, g, Null, n) w \<Longrightarrow> s \<in> {GST_STATE_NULL, GST_STATE_READY} \<Longrightarrow> g \<noteq> 0 \<Longrightarrow> in_mode I E InGap w"
  by (simp_all add: pmode_on)

section \<open>The player makes the steps of the machine\<close>

text \<open>An event that is answered by a step.\<close>

definition answers :: "(('d, 'z) pstate \<Rightarrow> bool) \<Rightarrow> ('d, 'z) env \<Rightarrow> pevent \<Rightarrow> pmode \<Rightarrow> ('d, 'z) pstate \<Rightarrow> bool" where
  "answers I E ev m w \<longleftrightarrow> yields (player_event E ev w) (\<lambda>(r, w'). \<exists>m'. in_mode I E m' w' \<and> pstep (gap w \<noteq> 0) ev m r m')"

lemma lawsD:
  assumes "player_laws I E"
  shows "pipeline_ok (pe_gst E)" "plays (pe_gst E)" "db_ok I E" "player_free I" "getnext_ends I E"
    "quiet I E (player_func_stop (pe_hooks E))" "quiet I E (player_func_newtrack (pe_hooks E))"
    "quiet I E (player_func_pause (pe_hooks E))" "quiet I E (player_func_resume (pe_hooks E))"
  using assms by (simp_all add: player_laws_def)

lemma start_begins:
  assumes "player_laws I E" "on I E (s, 0, Null, n) w" "s \<in> {GST_STATE_NULL, GST_STATE_READY}"
  shows "yields (bp_start E w) (\<lambda>(r, w'). r \<noteq> - 1 \<and> (\<exists>m. in_mode I E m w' \<and> started m))"
proof -
  have "\<exists>m. in_mode I E m w' \<and> started m"
    if "on I E (s, 0, Null, n) w' \<or> (\<exists>t. on I E (GST_STATE_PLAYING, 0, Track t, n) w')" for w'
    using that on_stopped [OF _ assms(3)] on_playing started.intros by metis
  then show ?thesis
    using yields_mono [OF bp_start_yields [OF lawsD(1,3,4,5,2,6,7) [OF assms(1)] assms(2,3)]] by (simp add: split_beta)
qed

lemma finish_stops:
  assumes "player_laws I E" "in_mode I E m w"
  shows "yields (bp_finish E c w) (on I E (GST_STATE_NULL, 0, Null, gap w))"
proof -
  obtain s g t where "on I E (s, g, t, gap w) w" "t \<noteq> Dangling" using in_mode_on [OF assms(2)] by metis
  from bp_finish_yields [OF lawsD(1,3,4) [OF assms(1)] this] show ?thesis .
qed

lemma stop_answers:
  assumes "player_laws I E" "in_mode I E m w"
  shows "answers I E Stop m w"
proof (cases "m = Stopped")
  case True
  then show ?thesis using in_mode_status [OF assms(2)] assms(2)
    by (auto simp: answers_def player_event_def player_stop_def intro: pstep.intros)
next
  case False
  then have st: "bp_status E w \<noteq> pl_stop" using in_mode_status [OF assms(2)] by (cases m) auto
  have n: "yields (notify (player_func_stop (pe_hooks E)) w1) (on I E (GST_STATE_NULL, 0, Null, gap w))"
    if "on I E (GST_STATE_NULL, 0, Null, gap w) w1" for w1
    by (rule quiet_yields [OF lawsD(6) [OF assms(1)] that])
  have "yields (do { w \<leftarrow> bp_finish E True w; w \<leftarrow> notify (player_func_stop (pe_hooks E)) w; Some (PE_OK, w) })
      (\<lambda>(r, w'). \<exists>m'. in_mode I E m' w' \<and> pstep (gap w \<noteq> 0) Stop m r m')"
    by (rule yields_bind [OF finish_stops [OF assms]], rule yields_bind, rule n)
      (use False in \<open>auto dest: on_stopped intro: stop_busy\<close>)
  with st show ?thesis by (simp add: answers_def player_event_def player_stop_def)
qed

lemma start_answers:
  assumes "player_laws I E" "in_mode I E m w"
  shows "answers I E Start m w"
proof -
  obtain s g t where o: "on I E (s, g, t, gap w) w" using in_mode_on [OF assms(2)] by metis
  note laws = lawsD [OF assms(1)]
  show ?thesis
  proof (cases m)
    case Stopped
    then have c: "s \<in> {GST_STATE_NULL, GST_STATE_READY}" "g = 0" "t = Null" using assms(2) pmode_on(1) [OF o] by auto
    have "yields (do { (r, w) \<leftarrow> bp_start E w; Some (if r = - 1 then PE_FAIL else PE_OK, w) })
        (\<lambda>(r, w'). \<exists>m'. in_mode I E m' w' \<and> pstep (gap w \<noteq> 0) Start Stopped r m')"
      by (rule yields_bind2, rule start_begins [OF assms(1) _ c(1)]) (use o c in \<open>auto intro: start_next\<close>)
    then show ?thesis using in_mode_status [OF assms(2)] Stopped by (simp add: answers_def player_event_def player_start_def)
  next
    case (Paused x)
    then have c: "s = GST_STATE_PAUSED" "g = 0" "t = Track x" using assms(2) pmode_on(4) [OF o] by auto
    obtain ok w1 where w1: "set_state E GST_STATE_PLAYING w = (ok, w1)" by fastforce
    then have ok: ok using laws(2) by (auto simp: plays_def set_state_def split_beta)
    then have o1: "on I E (GST_STATE_PLAYING, 0, Track x, gap w) w1" using set_state_on [OF laws(1,4) o w1] c by auto
    have "yields (do { w \<leftarrow> notify (player_func_resume (pe_hooks E)) w1; Some (0, elapsed_add E w) })
        (\<lambda>(r, w'). r = 0 \<and> in_mode I E (Playing x) w')"
      by (rule yields_bind [OF quiet_yields [OF laws(9) o1]]) (auto dest: elapsed_add_on [OF laws(1,4)] intro: on_playing)
    then have "yields (bp_resume E w) (\<lambda>(r, w'). r = 0 \<and> in_mode I E (Playing x) w')"
      using w1 ok on_sel [OF o] c by (simp add: bp_resume_def)
    then have "yields (do { (r, w) \<leftarrow> bp_resume E w; Some (if r = - 1 then PE_FAIL else PE_OK, w) })
        (\<lambda>(r, w'). \<exists>m'. in_mode I E m' w' \<and> pstep (gap w \<noteq> 0) Start (Paused x) r m')"
      by (rule yields_bind2) (auto intro: start_resume)
    then show ?thesis using in_mode_status [OF assms(2)] Paused by (simp add: answers_def player_event_def player_start_def)
  qed (use assms(2) in_mode_status [OF assms(2)] in
      \<open>auto simp: answers_def player_event_def player_start_def intro: start_playing start_gap\<close>)
qed

lemma pause_answers:
  assumes "player_laws I E" "in_mode I E m w"
  shows "answers I E Pause m w"
proof -
  obtain s g t where o: "on I E (s, g, t, gap w) w" using in_mode_on [OF assms(2)] by metis
  note laws = lawsD [OF assms(1)] and st = in_mode_status [OF assms(2)]
  let ?Q = "\<lambda>(r :: int, w'). \<exists>m'. in_mode I E m' w' \<and> pstep (gap w \<noteq> 0) Pause m (if r = - 1 then PE_FAIL else PE_OK) m'"
  have fin: "answers I E Pause m w" if "yields (bp_pause E w) ?Q" "m \<noteq> Paused x" for x
  proof -
    have "yields (do { (r, w) \<leftarrow> bp_pause E w; Some (if r = - 1 then PE_FAIL else PE_OK, w) })
        (\<lambda>(r, w'). \<exists>m'. in_mode I E m' w' \<and> pstep (gap w \<noteq> 0) Pause m r m')"
      using that(1) by (rule yields_bind2) simp
    moreover have "bp_status E w = pl_pause \<Longrightarrow> \<exists>x. m = Paused x" using st by (cases m) auto
    ultimately show ?thesis using assms(2) that(2)
      by (auto simp: answers_def player_event_def player_pause_def split: if_splits intro: pause_paused)
  qed
  show ?thesis
  proof (cases m)
    case Stopped
    then have "bp_pause E w = Some (- 1, w)" using on_sel [OF o] pmode_on(1) [OF o] assms(2) by (auto simp: bp_pause_def)
    then show ?thesis using fin assms(2) Stopped by (auto intro: pause_stopped)
  next
    case InGap
    then have c: "s \<in> {GST_STATE_NULL, GST_STATE_READY}" "g \<noteq> 0" "t = Null" using assms(2) pmode_on(2) [OF o] by auto
    have "on I E (s, 0, Null, gap w) (gap_finish E w)" using gap_finish_on [OF laws(1,4) o] c by simp
    then have "yields (do { w \<leftarrow> notify (player_func_stop (pe_hooks E)) (gap_finish E w); Some (0, w) }) ?Q"
      by (rule yields_bind [OF quiet_yields [OF laws(6)]]) (use InGap on_stopped [OF _ c(1)] pause_gap in fastforce)
    then show ?thesis using fin InGap on_sel [OF o] c by (simp add: bp_pause_def)
  next
    case (Playing x)
    then have c: "s = GST_STATE_PLAYING" "g = 0" "t = Track x" using assms(2) pmode_on(3) [OF o] by auto
    obtain ok w1 where w1: "set_state E GST_STATE_PAUSED w = (ok, w1)" by fastforce
    obtain s' where s': "on I E (s', 0, Track x, gap w) w1" "ok \<Longrightarrow> s' = GST_STATE_PAUSED"
      using set_state_on [OF laws(1,4) o w1] c by auto
    have 1: "yields (do { w \<leftarrow> notify (player_func_pause (pe_hooks E)) w1; Some (0, elapsed_del E w) }) ?Q" if ok
      by (rule yields_bind [OF quiet_yields [OF laws(8) s'(1)]])
        (use s'(2) [OF that] Playing in \<open>auto dest: elapsed_del_on [OF laws(1,4)] intro!: pause_ok on_paused\<close>)
    have 2: "yields (do { w \<leftarrow> bp_finish E False w1; w \<leftarrow> notify (player_func_stop (pe_hooks E)) w; Some (- 1, w) }) ?Q"
      by (rule yields_bind [OF bp_finish_yields [OF laws(1,3,4) s'(1)]], simp, rule yields_bind, erule quiet_yields [OF laws(6)])
        (use Playing in \<open>auto dest: on_stopped intro: pause_refused\<close>)
    show ?thesis using fin 1 2 w1 c on_sel [OF o] Playing by (auto simp: bp_pause_def)
  next
    case (Paused x)
    then show ?thesis using st assms(2) by (auto simp: answers_def player_event_def player_pause_def intro: pause_paused)
  qed
qed

lemma restart_begins:
  assumes "player_laws I E" "in_mode I E m w"
  shows "yields (do { w \<leftarrow> bp_finish E c w; bp_start E w }) (\<lambda>(r, w'). r \<noteq> - 1 \<and> (\<exists>m. in_mode I E m w' \<and> started m))"
  by (rule yields_bind [OF finish_stops [OF assms]], rule start_begins [OF assms(1)]) auto

lemma next_answers:
  assumes "player_laws I E" "in_mode I E m w"
  shows "answers I E Next m w"
proof -
  have "yields (do { w \<leftarrow> bp_finish E True w; bp_start E w } \<bind> (\<lambda>(r, w). Some (if r = - 1 then PE_FAIL else PE_OK, w)))
      (\<lambda>(r, w'). \<exists>m'. in_mode I E m' w' \<and> pstep (gap w \<noteq> 0) Next m r m')"
    by (rule yields_bind2 [OF restart_begins [OF assms]]) (auto intro: skip)
  then show ?thesis by (simp add: answers_def player_event_def player_next_def)
qed

lemma ended_answers:
  assumes "player_laws I E" "in_mode I E m w"
  shows "answers I E Track_ended m w"
proof -
  note laws = lawsD [OF assms(1)]
  let ?Q = "\<lambda>w'. \<exists>m'. in_mode I E m' w' \<and> pstep (gap w \<noteq> 0) Track_ended m PE_OK m'"
  have d: "curtrack w \<noteq> Dangling" using in_mode_on [OF assms(2)] on_sel by metis
  have t: "?Q (w1\<lparr>ext := d, gap_id := i\<rparr>)"
    if w1: "on I E (GST_STATE_NULL, 0, Null, gap w) w1" and i: "g_timeout_add (pe_gst E) k cb_gap_timeout (ext w1) = (i, d)"
      and n: "gap w \<noteq> 0" for w1 i d k
  proof -
    have "i > 0" "g_state (pe_gst E) d = GST_STATE_NULL"
      using laws(1) i on_state [OF w1] unfolding pipeline_ok_def by (metis fst_conv snd_conv)+
    then have "in_mode I E InGap (w1\<lparr>ext := d, gap_id := i\<rparr>)"
      using on_gap [OF on_gap_id [OF laws(4) on_ext [OF laws(4) w1, of d]], of i] by auto
    then show ?thesis using n ended_gap [of "gap w \<noteq> 0"] by blast
  qed
  have s: "yields (do { (r, w) \<leftarrow> bp_start E w1; Some w }) ?Q"
    if "on I E (GST_STATE_NULL, 0, Null, gap w) w1" "gap w = 0" for w1
    by (rule yields_bind2, rule start_begins [OF assms(1) that(1)]) (use that(2) in \<open>auto intro: ended_next\<close>)
  have "yields (do { w \<leftarrow> bp_finish E True w;
      if gap w \<noteq> 0
      then (case g_timeout_add (pe_gst E) (c_uint (1000 * gap w)) cb_gap_timeout (ext w) of (i, d) \<Rightarrow> Some (w\<lparr>ext := d, gap_id := i\<rparr>))
      else do { (r, w) \<leftarrow> bp_start E w; Some w } }) ?Q"
  proof (rule yields_bind [OF finish_stops [OF assms]])
    fix w1 assume w1: "on I E (GST_STATE_NULL, 0, Null, gap w) w1"
    then have g: "gap w1 = gap w" using on_sel by metis
    show "yields (if gap w1 \<noteq> 0
      then (case g_timeout_add (pe_gst E) (c_uint (1000 * gap w1)) cb_gap_timeout (ext w1) of (i, d) \<Rightarrow> Some (w1\<lparr>ext := d, gap_id := i\<rparr>))
      else do { (r, w) \<leftarrow> bp_start E w1; Some w }) ?Q"
      using t [OF w1, of "c_uint (1000 * gap w)"] s [OF w1] by (cases "gap w = 0") (auto simp: g split: prod.splits)
  qed
  then show ?thesis using d by (auto simp: answers_def player_event_def cb_bus_def yields_def)
qed

lemma error_answers:
  assumes "player_laws I E" "in_mode I E m w"
  shows "answers I E Pipe_error m w"
proof -
  have "curtrack w \<noteq> Dangling" using in_mode_on [OF assms(2)] on_sel by metis
  moreover have "yields (do { w \<leftarrow> bp_finish E False w; notify (player_func_stop (pe_hooks E)) w })
      (on I E (GST_STATE_NULL, 0, Null, gap w))"
    by (rule yields_bind [OF finish_stops [OF assms]], rule quiet_yields [OF lawsD(6) [OF assms(1)]])
  then have "yields (do { w \<leftarrow> bp_finish E False w; notify (player_func_stop (pe_hooks E)) w }) (in_mode I E Stopped)"
    by (rule yields_mono) (auto intro: on_stopped)
  ultimately show ?thesis using error_stops by (fastforce simp: answers_def player_event_def cb_bus_def yields_def)
qed

lemma gap_answers:
  assumes "player_laws I E" "in_mode I E InGap w"
  shows "answers I E Gap_over InGap w"
proof -
  obtain s g t where o: "on I E (s, g, t, gap w) w" using in_mode_on [OF assms(2)] by metis
  then have c: "s \<in> {GST_STATE_NULL, GST_STATE_READY}" "t = Null" using assms(2) pmode_on(2) by blast+
  have "on I E (s, 0, Null, gap w) (w\<lparr>gap_id := 0\<rparr>)" using on_gap_id [OF lawsD(4) [OF assms(1)] o] c by simp
  then have "yields (gap_timeout E w) (\<lambda>w'. \<exists>m'. in_mode I E m' w' \<and> started m')"
    unfolding gap_timeout_def by (intro yields_bind2 [OF start_begins [OF assms(1) _ c(1)]]) auto
  then show ?thesis using gap_next by (fastforce simp: answers_def player_event_def yields_def)
qed

lemma event_answers:
  assumes "player_laws I E" "in_mode I E m w" "ev = Gap_over \<longrightarrow> m = InGap"
  shows "answers I E ev m w"
  using assms(2,3) gap_answers [OF assms(1)]
    start_answers [OF assms(1)] pause_answers [OF assms(1)] stop_answers [OF assms(1)] next_answers [OF assms(1)]
    ended_answers [OF assms(1)] error_answers [OF assms(1)] by (cases ev) auto

text \<open>The states that events lead to from a stopped player.\<close>

inductive preach :: "(('d, 'z) pstate \<Rightarrow> bool) \<Rightarrow> ('d, 'z) env \<Rightarrow> ('d, 'z) pstate \<Rightarrow> bool" for I E where
  stopped: "I w \<Longrightarrow> pmode E w = Some Stopped \<Longrightarrow> preach I E w"
| event: "preach I E w \<Longrightarrow> ev = Gap_over \<longrightarrow> pmode E w = Some InGap \<Longrightarrow> player_event E ev w = Some (r, w') \<Longrightarrow> preach I E w'"

lemma preach_mode: "preach I E w \<Longrightarrow> player_laws I E \<Longrightarrow> \<exists>m. in_mode I E m w"
proof (induction rule: preach.induct)
  case (stopped w)
  then show ?case by (auto simp: in_mode_def)
next
  case (event w ev r w')
  then obtain m where m: "in_mode I E m w" by blast
  then have "ev = Gap_over \<longrightarrow> m = InGap" using event by (auto simp: in_mode_def)
  from event_answers [OF "event.prems" m this] event(3) show ?case by (auto simp: answers_def yields_def)
qed

section \<open>A player to run\<close>

text \<open>A pipeline that does what it is told, a database that answers every statement with a row of threes.\<close>

definition demo_row :: pgres where
  "demo_row = \<lparr>PQresultStatus = PGRES_TUPLES_OK, PQntuples = 1, PQfnumber = \<lambda>n. 0, PQgetvalue = \<lambda>t f. Some ''3'', PQcmdTuples = []\<rparr>"

definition demo_gst :: "gstate gst" where
  "demo_gst = \<lparr>g_state = \<lambda>d. d, g_set_state = \<lambda>s d. (True, s), g_get_state = \<lambda>d. d, g_seek = \<lambda>p u d. (True, d),
     g_position = \<lambda>d. Some 0, g_location = \<lambda>s d. d, g_volume = \<lambda>v d. d, g_timeout_add = \<lambda>n t d. (1, d), g_source_remove = \<lambda>i d. d\<rparr>"

definition demo_env :: "(gstate, unit) env" where
  "demo_env = \<lparr>pe_query = \<lambda>q w. Some (Some demo_row, w), pe_libc = \<lparr>c_random = \<lambda>w. (5, w), c_time = \<lambda>w. (100, w), c_crypt = \<lambda>p s. None\<rparr>,
     pe_opens = \<lambda>f w. True, pe_gst = demo_gst, pe_opt = demo_opts,
     pe_hooks = \<lparr>player_func_resume = None, player_func_newtrack = None, player_func_pause = None, player_func_stop = None,
       player_func_random = None, player_func_elapsed = None, queue_func_fetch = None, sleep_func_set = None\<rparr>\<rparr>"

definition demo_player :: "gstate plst" where
  "demo_player = \<lparr>ext = GST_STATE_READY, dbcon = True, inprogress = 0, rfilter = None, heap = (\<lambda>p. None), fresh = 0,
     clients = \<lparr>it_clients = [], it_cur = 0\<rparr>, maxid = 0, tabbuf = [], do_random = 0, gap = 2, cut = 0, rgtype = rg_none, rgpreamp = D_int 0,
     gap_id = 0, elapsed_id = 0, curtrack = Null, curuid = 0, sleep_at = 0, sleep_id = 0\<rparr>"

lemma demo_pipeline: "pipeline_ok demo_gst" "plays demo_gst"
  by (simp_all add: pipeline_ok_def plays_def demo_gst_def)

lemma demo_row_converts:
  "user_convert demo_row 0 \<noteq> None \<and> the (user_convert demo_row 0) \<noteq> None"
  "track_convert demo_row 0 \<noteq> None \<and> the (track_convert demo_row 0) \<noteq> None"
  by code_simp+

lemma demo_row_sel: "tuples_ok (Some demo_row) = Some demo_row" "PQntuples demo_row = 1" "PQfnumber demo_row n = 0"
  "pgint demo_row k f = Some 3"
  by (simp_all add: demo_row_def pgint_def tuples_ok_def) code_simp

lemmas fetch_defs = queue_fetch_def queue_convert_def queue_select_def getfield_w_def user_get_def track_get_def db_get_one_def
  db_get_def call_hook_def demo_row_sel

lemma demo_fetch: "\<exists>q. queue_fetch (pe_query demo_env) None w = Some (Some q, w)"
  using demo_row_converts by (auto simp: fetch_defs demo_env_def)

lemma demo_getnext: "getnext_ends I demo_env"
proof -
  have h: "queue_func_fetch (pe_hooks demo_env) = None" by (simp add: demo_env_def)
  have "track_exists (pe_query demo_env) (pe_opens demo_env) (pe_opt demo_env) t w = Some (True, w)" for t w
    by (simp add: track_exists_def demo_env_def)
  then have "yields (db_getnext demo_env w) (\<lambda>w'. curtrack w' \<noteq> Dangling)" if "curtrack w = Null" for w
    using that demo_fetch [of w] by (auto simp: db_getnext_def getnext_queue.simps h)
  then show ?thesis by (simp add: getnext_ends_def)
qed

lemma demo_laws: "player_laws (\<lambda>w. True) demo_env"
proof -
  have "db_ok (\<lambda>w. True) demo_env"
    by (simp add: db_ok_def) (simp add: demo_env_def demo_row_def)
  moreover have "quiet (\<lambda>w. True) demo_env None" by (simp add: quiet_def notify_def)
  ultimately show ?thesis
    using demo_pipeline demo_getnext by (simp add: player_laws_def player_free_def) (simp add: demo_env_def)
qed

lemma demo_stopped: "pmode demo_env demo_player = Some Stopped"
  by (simp add: pmode_def demo_player_def state_def demo_env_def demo_gst_def)

section \<open>Properties\<close>





text \<open>
  C35: A jump returns in every mode but the gap between two tracks, where \<open>bp_seek\<close> looks at the track there is
  not; a stopped player answers that there is nothing to do.
\<close>

theorem player_jump_returns:
  assumes "pmode E w = Some m"
  shows "(player_jump E to_sec w = None \<longleftrightarrow> m = InGap) \<and> (m = Stopped \<longrightarrow> player_jump E to_sec w = Some (PE_NOTHING, w))"
  using assms
  by (auto simp: pmode_def player_jump_def bp_status_def bp_seek_def deref_def Let_def split_beta split: trackptr.splits gstate.splits if_splits)

theorem player_jump_returns_witness:
  "pmode demo_env (demo_player\<lparr>gap_id := 1\<rparr>) = Some InGap \<and> player_jump demo_env 5 (demo_player\<lparr>gap_id := 1\<rparr>) = None"
proof -
  have "pmode demo_env (demo_player\<lparr>gap_id := 1\<rparr>) = Some InGap"
    by (simp add: pmode_def demo_player_def state_def demo_env_def demo_gst_def)
  with player_jump_returns [OF this, of 5] show ?thesis by simp
qed

text \<open>The search for a random track, given up after \<open>k\<close> picks.\<close>

fun random_tries :: "('d, 'z) env \<Rightarrow> nat \<Rightarrow> ('d, 'z) pstate \<Rightarrow> ('d, 'z) pstate option" where
  "random_tries E 0 w = None"
| "random_tries E (Suc k) w =
     do { (t, w) \<leftarrow> random_fetch (pe_query E) (pe_libc E) w;
          (case t of
             None \<Rightarrow> Some (w\<lparr>curtrack := Null\<rparr>)
           | Some t \<Rightarrow> do {
               let w = w\<lparr>curtrack := Track t\<rparr>;
               (ok, w) \<leftarrow> track_exists (pe_query E) (pe_opens E) (pe_opt E) t w;
               if ok then Some w else random_tries E k (w\<lparr>curtrack := Dangling\<rparr>) }) }"


text \<open>
  Setting the type or the amplification of the volume correction always answers with an error, although the
  setting is made: \<open>bp_volume\<close> returns \<open>PE_OK\<close>, which is 0, and the callers take 0 for failure.
\<close>

theorem player_setrg_fails:
  "player_setrgtype E g w = map_option (\<lambda>(r, w'). (PE_FAIL, w')) (bp_volume E (w\<lparr>rgtype := g\<rparr>)) \<and>
   player_setrgpreamp E p w = map_option (\<lambda>(r, w'). (PE_FAIL, w')) (bp_volume E (w\<lparr>rgpreamp := p\<rparr>))"
proof -
  have "bp_volume E v = Some (r, v') \<Longrightarrow> r = 0" for v r v'
    by (auto simp: bp_volume_def bind_eq_Some_conv split: if_splits)
  then show ?thesis
    by (cases "bp_volume E (w\<lparr>rgtype := g\<rparr>)"; cases "bp_volume E (w\<lparr>rgpreamp := p\<rparr>)")
      (auto simp: player_setrgtype_def player_setrgpreamp_def)
qed

text \<open>
  C36: When the last queued track is missing on disk and random play is off, \<open>db_getnext\<close> leaves the pointer to
  the freed track in \<open>curtrack\<close>, and starting the player uses it.
\<close>

theorem player_start_dangling:
  assumes "bp_status E w = pl_stop" "curtrack w = Null"
    and "queue_fetch (pe_query E) (queue_func_fetch (pe_hooks E)) w = Some (Some q, w1)"
    and "track_exists (pe_query E) (pe_opens E) (pe_opt E) (qu_track q)
      (w1\<lparr>curtrack := Track (qu_track q), curuid := us_id (qu_user q)\<rparr>) = Some (False, w2)"
    and "queue_fetch (pe_query E) (queue_func_fetch (pe_hooks E)) (w2\<lparr>curtrack := Dangling\<rparr>) = Some (None, w3)"
    and "curtrack w3 = Dangling" "do_random w3 = 0"
  shows "(\<exists>w'. db_getnext E w = Some w' \<and> player_track w' = None) \<and> player_start E w = None"
proof -
  have "getnext_queue E w = Some (False, w3)"
    using assms(3-5) by (simp add: getnext_queue.simps [of E w] getnext_queue.simps [of E "w2\<lparr>curtrack := Dangling\<rparr>"])
  then have "db_getnext E w = Some (w3\<lparr>curuid := 0\<rparr>)" using assms(2,7) by (simp add: db_getnext_def)
  then show ?thesis using assms(1,6) by (simp add: player_track_def player_start_def bp_start_def deref_def)
qed

text \<open>A database whose queue has one entry; the world counts what is left of it.\<close>

definition demo_missing :: "(nat, unit) env" where
  "demo_missing = \<lparr>pe_query = \<lambda>q w. if take 6 q = ''DELETE'' then Some (Some demo_row, w\<lparr>ext := 0\<rparr>)
       else Some (if ext w = 0 then None else Some demo_row, w),
     pe_libc = \<lparr>c_random = \<lambda>w. (5, w), c_time = \<lambda>w. (100, w), c_crypt = \<lambda>p s. None\<rparr>,
     pe_opens = \<lambda>f w. False,
     pe_gst = \<lparr>g_state = \<lambda>d. GST_STATE_NULL, g_set_state = \<lambda>s d. (True, d), g_get_state = \<lambda>d. d, g_seek = \<lambda>p u d. (True, d),
       g_position = \<lambda>d. Some 0, g_location = \<lambda>s d. d, g_volume = \<lambda>v d. d, g_timeout_add = \<lambda>n t d. (1, d), g_source_remove = \<lambda>i d. d\<rparr>,
     pe_opt = demo_opts,
     pe_hooks = \<lparr>player_func_resume = None, player_func_newtrack = None, player_func_pause = None, player_func_stop = None,
       player_func_random = None, player_func_elapsed = None, queue_func_fetch = None, sleep_func_set = None\<rparr>\<rparr>"

definition demo_queued :: "nat plst" where
  "demo_queued = \<lparr>ext = 1, dbcon = True, inprogress = 0, rfilter = None, heap = (\<lambda>p. None), fresh = 0,
     clients = \<lparr>it_clients = [], it_cur = 0\<rparr>, maxid = 0, tabbuf = [], do_random = 0, gap = 0, cut = 0, rgtype = rg_none, rgpreamp = D_int 0,
     gap_id = 0, elapsed_id = 0, curtrack = Null, curuid = 0, sleep_at = 0, sleep_id = 0\<rparr>"

theorem player_start_dangling_witness: "player_start demo_missing demo_queued = None"
proof -
  let ?w = "demo_queued\<lparr>ext := 0\<rparr>"
  have h: "queue_func_fetch (pe_hooks demo_missing) = None" by (simp add: demo_missing_def)
  obtain q where q: "queue_fetch (pe_query demo_missing) None demo_queued = Some (Some q, ?w)"
    using demo_row_converts by (auto simp: fetch_defs demo_missing_def demo_queued_def)
  have n: "queue_fetch (pe_query demo_missing) None (?w\<lparr>curuid := u, curtrack := Dangling\<rparr>) = Some (None, ?w\<lparr>curuid := u, curtrack := Dangling\<rparr>)" for u
    by (simp add: fetch_defs demo_missing_def tuples_ok_def)
  have t: "track_exists (pe_query demo_missing) (pe_opens demo_missing) (pe_opt demo_missing) x (?w\<lparr>curtrack := Track x, curuid := u\<rparr>) =
      Some (False, ?w\<lparr>curtrack := Track x, curuid := u\<rparr>)" for x u
    by (simp add: track_exists_def demo_missing_def)
  have s: "bp_status demo_missing demo_queued = pl_stop" "curtrack demo_queued = Null" "do_random demo_queued = 0"
    by (simp_all add: bp_status_def state_def demo_missing_def demo_queued_def)
  show ?thesis
    using player_start_dangling [OF s(1,2), unfolded h, OF q t, of "?w\<lparr>curuid := us_id (qu_user q), curtrack := Dangling\<rparr>"]
      n [of "us_id (qu_user q)"] s(3) by simp
qed

text \<open>
  The sleep timer works: after \<open>sleep_in\<close> the time that remains is the one asked for, or none for a value that
  is not positive.
\<close>

lemma sleep_in_remain:
  assumes "\<And>v. c_time (pe_libc E) v = (now, v)" "0 < now"
    and "\<And>v. \<exists>v'. notify (sleep_func_set (pe_hooks E)) v = Some v' \<and> sleep_at v' = sleep_at v"
  shows "\<exists>w'. sleep_in E sek w = Some w' \<and> fst (sleep_remain E w') = max 0 sek"
proof -
  define w0 where "w0 = (if sleep_id w \<noteq> 0 then source_remove E (sleep_id w) w else w)\<lparr>sleep_id := 0, sleep_at := 0\<rparr>"
  define w1 where "w1 = (if sek > 0
      then (case g_timeout_add (pe_gst E) (c_uint (sek * 1000)) sleep_event (ext w0) of (i, d) \<Rightarrow>
              (case c_time (pe_libc E) (w0\<lparr>ext := d, sleep_id := i\<rparr>) of (now, w) \<Rightarrow> w\<lparr>sleep_at := now + sek\<rparr>))
      else w0)"
  have e: "sleep_in E sek w = (if sleep_at w \<noteq> sleep_at w1 then notify (sleep_func_set (pe_hooks E)) w1 else Some w1)"
    unfolding sleep_in_def w1_def w0_def Let_def by simp
  have a: "sleep_at w1 = (if sek > 0 then now + sek else 0)"
    by (simp add: w1_def w0_def assms(1) split: prod.splits)
  obtain w' where w': "sleep_in E sek w = Some w'" "sleep_at w' = sleep_at w1"
    using assms(3) [of w1] unfolding e by (cases "sleep_at w \<noteq> sleep_at w1") auto
  have "fst (sleep_remain E w') = max 0 sek"
    using assms(1,2) w'(2) a by (auto simp: sleep_remain_def max_def)
  with w'(1) show ?thesis by blast
qed

lemma sleep_in_remain_demo:
  "\<exists>w'. sleep_in demo_env 90 demo_player = Some w' \<and> fst (sleep_remain demo_env w') = 90"
  using sleep_in_remain [of demo_env 100 90 demo_player] by (simp add: demo_env_def notify_def)



end
