(* ===== verification/Dbframe.thy ===== *)
theory Dbframe
  imports Randomplay Returns
begin

text \<open>
  What a query keeps of the state, every operation of the database layer keeps: the operations touch the state
  only through the queries they send and the hooks they call.
\<close>

definition keeps_hook :: "('w \<Rightarrow> bool) \<Rightarrow> ('w, 'a) hook \<Rightarrow> bool" where
  "keeps_hook I h \<longleftrightarrow> (\<forall>f x w. h = Some f \<longrightarrow> I w \<longrightarrow> ks I (f x w))"

definition keeps_notify :: "('w \<Rightarrow> bool) \<Rightarrow> 'w notify \<Rightarrow> bool" where
  "keeps_notify I h \<longleftrightarrow> (\<forall>f w. h = Some f \<longrightarrow> I w \<longrightarrow> ks I (f w))"

lemma hook_keeps: "keeps_hook I h \<Longrightarrow> h = Some f \<Longrightarrow> I w \<Longrightarrow> ks I (f x w)"
  and notify_keeps: "keeps_notify I g \<Longrightarrow> g = Some k \<Longrightarrow> I w \<Longrightarrow> ks I (k w)"
  by (simp_all add: keeps_hook_def keeps_notify_def)

lemma call_hook_keeps: "keeps_hook I h \<Longrightarrow> I w \<Longrightarrow> ks I (call_hook h x w)"
  unfolding call_hook_def by (rule k_intros hook_keeps | assumption)+

lemma notify_call_keeps: "keeps_notify I h \<Longrightarrow> I w \<Longrightarrow> ks I (notify h w)"
  unfolding notify_def by (rule k_intros notify_keeps | assumption)+

locale db_frame =
  fixes I :: "'w \<Rightarrow> bool" and query :: "'w query"
  assumes query: "I w \<Longrightarrow> kp I (query q w)"
begin

lemma query_keeps: "keeps I query"
  using query unfolding keeps_def kp_def by blast

lemma basics:
  assumes "I w"
  shows "kp I (db_command query q w)" "kp I (db_get query conv q w)" "kp I (db_get_one query conv' q w)"
    "kp I (db_get_id query q w)" "kp I (db_nextval query q w)" "kp I (db_iterate query conv'' q w)"
  unfolding db_command_def db_get_def db_get_one_def db_get_id_def db_nextval_def db_iterate_def
  by (rule assms query k_intros | assumption)+

text \<open>Operations that send one statement.\<close>

lemma statements:
  assumes "I w"
  shows "kp I (user_get query i w)" "kp I (user_getn query s w)" "kp I (user_id query s w)" "kp I (user_setright query i j w)"
    "kp I (user_del query i w)" "kp I (track_get query i w)" "kp I (track_id query i j w)" "kp I (track_setname query i s w)"
    "kp I (track_setartist query i j w)" "kp I (tracks query w)" "kp I (tag_get query i w)" "kp I (tag_id query s w)"
    "kp I (track_tagged query i j w)" "kp I (track_tagdel query i j w)" "kp I (album_get query i w)" "kp I (album_setname query i s w)"
    "kp I (album_setartist query i j w)" "kp I (album_setyear query i j w)" "kp I (artist_get query i w)" "kp I (artist_setname query i s w)"
    "kp I (artist_del query i w)" "kp I (artist_add query s w)" "kp I (sfilter_get query i w)" "kp I (sfilter_id query s w)"
    "kp I (sfilter_add query s w)" "kp I (sfilter_del query i w)" "kp I (sfilter_setname query i s w)" "kp I (sfilter_setfilter query i s w)"
    "kp I (random_filterstat query w)" "kp I (queue_sum query w)" "kp I (create_cache query w)" "kp I (random_init query w)"
    "kp I (random_cache_update query i j w)"
  unfolding user_get_def user_getn_def user_id_def user_setright_def user_del_def track_get_def track_id_def track_setname_def
    track_setartist_def tracks_def tag_get_def tag_id_def track_tagged_def track_tagdel_def album_get_def album_setname_def
    album_setartist_def album_setyear_def artist_get_def artist_setname_def artist_del_def artist_add_def sfilter_get_def
    sfilter_id_def sfilter_add_def sfilter_del_def sfilter_setname_def sfilter_setfilter_def random_filterstat_def queue_sum_def
    create_cache_def random_init_def random_cache_update_def
  by (rule assms query basics k_intros | assumption)+

lemma track_tagadd_keeps: "I w \<Longrightarrow> kp I (track_tagadd query i j w)"
  unfolding track_tagadd_def by (rule query statements basics k_intros | assumption)+

lemma track_exists_keeps: "I w \<Longrightarrow> kp I (track_exists query op opt t w)"
  unfolding track_exists_def by (rule query k_intros | assumption)+

lemma artist_merge_keeps: "I w \<Longrightarrow> kp I (artist_merge query i j w)"
  unfolding artist_merge_def merge_rollback_def by (rule query basics k_intros | assumption)+

lemma queue_convert_keeps:
  assumes "I w"
  shows "kp I (queue_convert query res tup w)"
proof -
  have g: "kp I (getfield_w res n w k)" if "\<And>f. kp I (k f)" for n and k :: "int \<Rightarrow> (queue option \<times> 'w) option"
    using assms that by (simp add: getfield_w_def kp_def)
  show ?thesis unfolding queue_convert_def by (rule assms g statements k_intros | assumption)+
qed

lemma history_convert_keeps:
  assumes "I w"
  shows "kp I (history_convert query res tup w)"
proof -
  have g: "kp I (getfield_w res n w k)" if "\<And>f. kp I (k f)" for n and k :: "int \<Rightarrow> (history option \<times> 'w) option"
    using assms that by (simp add: getfield_w_def kp_def)
  show ?thesis unfolding history_convert_def by (rule assms g statements k_intros | assumption)+
qed

lemma pure_conv_keeps: "I w \<Longrightarrow> kp I (pure_conv f res tup w)"
  unfolding pure_conv_def by (rule k_map)

lemma queue_get_keeps: "I w \<Longrightarrow> kp I (queue_get query i w)"
  unfolding queue_get_def by (rule query queue_convert_keeps k_intros | assumption)+

text \<open>Operations with hooks.\<close>

lemma queue_fetch_keeps: "keeps_hook I h \<Longrightarrow> I w \<Longrightarrow> kp I (queue_fetch query h w)"
  unfolding queue_fetch_def by (rule query queue_convert_keeps call_hook_keeps k_intros | assumption)+

lemma queue_add_keeps: "keeps_hook I h \<Longrightarrow> I w \<Longrightarrow> kp I (queue_add query h i j w)"
  unfolding queue_add_def by (rule query basics queue_get_keeps hook_keeps k_intros | assumption)+

lemma queue_clear_keeps: "keeps_notify I h \<Longrightarrow> I w \<Longrightarrow> kp I (queue_clear query h w)"
  unfolding queue_clear_def by (rule query notify_keeps k_intros | assumption)+

lemma queue_del_keeps:
  assumes "keeps_hook I h" "I w"
  shows "kp I (queue_del query h i j w)"
proof -
  have c: "ks I (case (h, q) of (Some f, Some q) \<Rightarrow> f q w | _ \<Rightarrow> Some w)" if "I w" for q w
    using hook_keeps [OF assms(1)] that by (auto simp: k_Some split: option.split)
  show ?thesis unfolding queue_del_def by (rule assms query queue_get_keeps c k_intros | assumption)+
qed

lemma tag_announce_keeps: "keeps_hook I h \<Longrightarrow> I w \<Longrightarrow> ks I (tag_announce query h i w)"
  unfolding tag_announce_def by (rule statements hook_keeps k_intros | assumption)+

lemma tag_add_keeps: "keeps_hook I h \<Longrightarrow> I w \<Longrightarrow> kp I (tag_add query h s w)"
  unfolding tag_add_def by (rule query basics tag_announce_keeps k_intros | assumption)+

lemma tag_update_keeps: "keeps_hook I h \<Longrightarrow> I w \<Longrightarrow> kp I (tag_setname query h i s w)"
  "keeps_hook I h \<Longrightarrow> I w \<Longrightarrow> kp I (tag_setdesc query h i s w)"
  unfolding tag_setname_def tag_setdesc_def tag_update_def
  by (rule query basics tag_announce_keeps k_intros | assumption)+

lemma tag_del_keeps:
  assumes "keeps_hook I h" "I w"
  shows "kp I (tag_del query h g i w)"
proof -
  have c: "kp I (case (g, t) of (Some _, Some t) \<Rightarrow> do { f \<leftarrow> h; w \<leftarrow> f t w; Some (0, w) } | _ \<Rightarrow> Some (0, w))"
    if "I w" for t w
    using hook_keeps [OF assms(1)] that
    by (cases g; cases t; cases h) (auto simp: k_Some k_None intro!: k_bind_s(2))
  show ?thesis unfolding tag_del_def by (rule assms query statements c k_intros | assumption)+
qed

lemma sql_where_kp: "I w \<Longrightarrow> kp I (sql_where query e w)"
  using sql_where_keeps [OF query_keeps] unfolding kp_def by blast

lemma fill_cache_kp: "I w \<Longrightarrow> kp I (fill_cache query e w)"
  using fill_cache_keeps [OF query_keeps] unfolding kp_def by blast

end

text \<open>The operations that also need the time or random numbers.\<close>

locale db_libc_frame = db_frame +
  fixes C :: "'a libc"
  assumes time: "I w \<Longrightarrow> c_time C w = (t, w') \<Longrightarrow> I w'"
    and random: "I w \<Longrightarrow> c_random C w = (r, w') \<Longrightarrow> I w'"
begin

lemma history_add_keeps: "I w \<Longrightarrow> kp I (history_add query C t uid completed w)"
  unfolding history_add_def by (rule query statements k_intros | assumption | erule (1) time)+

lemma random_fetch_keeps: "I w \<Longrightarrow> kp I (random_fetch query C w)"
  unfolding random_fetch_def Let_def by (rule query statements k_intros | assumption | blast intro: random)+

lemma pass_gen_keeps: "I w \<Longrightarrow> pass_gen C pass w = (cp, w') \<Longrightarrow> I w'"
  using random by (auto simp: pass_gen_def split: prod.splits)

lemma user_add_keeps: "I w \<Longrightarrow> kp I (user_add query C n r p w)"
  unfolding user_add_def Let_def by (rule query basics k_intros | assumption | erule (1) pass_gen_keeps)+

lemma user_setpass_keeps: "I w \<Longrightarrow> kp I (user_setpass query C i p w)"
  unfolding user_setpass_def Let_def by (rule query basics k_intros | assumption | erule (1) pass_gen_keeps)+

end

end
