(* ===== verification/Netframe.thy ===== *)
theory Netframe
  imports Protosend Dbframe
begin

text \<open>
  What connections and protocol output keep: a property of the state that depends on the clients only through
  their login (\<open>pstate\<close>, \<open>user\<close>, \<open>pdata\<close>) and survives the loss of clients is kept by every function of \<open>client.c\<close>, by
  all replies, dumps and broadcasts, and by the hook that runs when a client is freed. What is put together from
  sending, broadcasting and closing (replies, dumps, broadcasts of records) keeps whatever these three keep: that is
  the locale \<open>wire_frame\<close>, which also invariants of another kind can use.
\<close>

locale wire_frame =
  fixes I :: "('d, 'z) netst_scheme \<Rightarrow> bool" and N :: "'d netlib" and disc :: "('d, 'z) disc"
  assumes buffered: "I w \<Longrightarrow> I (w\<lparr>tabbuf := m\<rparr>)"
    and send_keeps: "I w \<Longrightarrow> kp I (client_send N disc p buf w)"
    and bcast_keeps: "I w \<Longrightarrow> ks I (client_bcast N disc buf func w)"
    and close_keeps: "I w \<Longrightarrow> ks I (client_close N disc p w)"
begin

section \<open>Records, replies and broadcasts\<close>

lemma mktab_kp: "I w \<Longrightarrow> kp I (mktab fs w)"
  unfolding mktab_def by (rule k_intros buffered | assumption)+

lemma mk_kp:
  assumes "I w"
  shows "kp I (mkuser u w)" "kp I (mktag tg w)" "kp I (mkartist ar w)" "kp I (mksfilter sf w)"
  unfolding mkuser_def mktag_def mkartist_def mksfilter_def by (rule assms mktab_kp k_intros)+

lemma mkalbum_kp: "I w \<Longrightarrow> kp I (mkalbum al w)"
  unfolding mkalbum_def by (rule mktab_kp mk_kp k_intros | assumption)+

lemma mktrack_kp: "I w \<Longrightarrow> kp I (mktrack t w)"
  unfolding mktrack_def by (rule mktab_kp mk_kp mkalbum_kp k_intros | assumption)+

lemma mkrow_kp: "I w \<Longrightarrow> kp I (mkclient c w)" "I w \<Longrightarrow> kp I (mkhistory h w)" "I w \<Longrightarrow> kp I (mkqueue q w)"
  unfolding mkclient_def mkhistory_def mkqueue_def by (rule mktab_kp mk_kp mktrack_kp k_intros | assumption)+

lemma line_kp: "I w \<Longrightarrow> kp I (proto_rline N disc p code body w)"
  "I w \<Longrightarrow> kp I (proto_rlast N disc p code body w)"
  unfolding proto_rline_def proto_rlast_def proto_vline_def by (rule send_keeps k_intros | assumption)+

lemma reply_ks: "I w \<Longrightarrow> ks I (reply N disc p code body w)"
  unfolding reply_def by (rule k_map line_kp | assumption)+

lemma player_reply_ks: "I w \<Longrightarrow> ks I (proto_player_reply N disc p r code body w)"
  unfolding proto_player_reply_def by (cases r; simp only: playerror.case) (rule reply_ks; assumption)+

lemma proto_bcast_ks: "I w \<Longrightarrow> ks I (proto_bcast N disc right code body w)"
  unfolding proto_bcast_def client_bcast_perm_def by (rule bcast_keeps k_intros | assumption)+

lemma bcast_row_ks: "I w \<Longrightarrow> kp I (mk w) \<Longrightarrow> ks I (bcast_row N disc right code mk w)"
  unfolding bcast_row_def by (rule proto_bcast_ks k_intros | assumption)+

lemma dump_one_ks: "I w \<Longrightarrow> kp I (mk w) \<Longrightarrow> ks I (dump_one N disc p code mk w)"
  unfolding dump_one_def by (rule reply_ks k_intros | assumption)+

lemma dump_step_kp:
  assumes "I w" "\<And>t w. I w \<Longrightarrow> kp I (mk t w)" "\<And>t w. I w \<Longrightarrow> ks I (row_free t w)"
  shows "kp I (dump_step N disc p code mk row_free t w)"
  unfolding dump_step_def by (rule assms line_kp k_intros | assumption)+

lemma dump_end_ks: "kp I (Some r) \<Longrightarrow> ks I (dump_end N disc p code r)"
  by (cases r; cases "fst r") (auto simp: dump_end_def kp_def intro!: reply_ks k_Some)

lemma dump_rows_ks:
  fixes it :: "(('d, 'z) netst_scheme, 'r) it_db option"
  assumes "I w" "\<And>t w. I w \<Longrightarrow> kp I (mk t w)"
    and "\<And>i res tup w. it = Some i \<Longrightarrow> I w \<Longrightarrow> kp I (it_conv i res tup w)"
  shows "ks I (dump_rows N disc p code mk it w)"
proof -
  define J where "J j \<longleftrightarrow> (\<forall>i res tup w. j = Some i \<longrightarrow> I w \<longrightarrow> kp I (it_conv i res tup w))"
    for j :: "(('d, 'z) netst_scheme, 'r) it_db option"
  have n: "kt I (rows_next j w)" "kt I (rows_begin j w)" if "J j" "I w" for j w
    using that unfolding rows_next_def rows_begin_def it_db_next_def it_db_begin_def it_db_cur_def Let_def J_def
    by (cases j; auto simp: k_defs bind_eq_Some_conv split: if_splits)+
  have J: "J j'" if "J j" "rows_next j w = Some (x, j', w') \<or> rows_begin j w = Some (x, j', w')" for j w x j' w'
    using that unfolding J_def rows_next_def rows_begin_def it_db_next_def it_db_begin_def Let_def
    by (cases j) (auto simp: bind_eq_Some_conv split: if_splits)
  have it: "J it" using assms(3) by (simp add: J_def)
  have s: "kp I (dump_step N disc p code mk (\<lambda>t w. Some w) t w)" if "I w" for t w
    by (rule dump_step_kp assms that k_intros | assumption)+
  show ?thesis unfolding ks_def
  proof safe
    fix w' assume "dump_rows N disc p code mk it w = Some w'"
    then obtain x j w1 r w2 where b: "rows_begin it w = Some (x, j, w1)"
      and l: "for_until rows_next (dump_step N disc p code mk (\<lambda>t w. Some w)) x j w1 = Some (r, w2)"
      and e: "dump_end N disc p code (r, w2) = Some w'"
      by (auto simp: dump_rows_def bind_eq_Some_conv)
    have 1: "I w1" "J j" using n(2) [OF it assms(1)] b J [OF it, of w x j w1] by (auto simp: kt_def)
    have "I w2" by (rule for_until_keeps [where I = I and J = J, OF l 1]) (use n(1) s J in blast)+
    then show "I w'" using dump_end_ks [of "(r, w2)"] e by (auto simp: k_defs)
  qed
qed

text \<open>A list that comes from the database and is sent right away.\<close>

lemma dump_query_ks:
  assumes "I w" "kp I (query q w)" "\<And>t w. I w \<Longrightarrow> kp I (mk t w)" "\<And>res tup w. I w \<Longrightarrow> kp I (conv res tup w)"
  shows "ks I (do { (it, w) \<leftarrow> db_iterate query conv q w; dump_rows N disc p code mk it w })"
  unfolding ks_def
proof safe
  fix w' assume "do { (it, w) \<leftarrow> db_iterate query conv q w; dump_rows N disc p code mk it w } = Some w'"
  then obtain it w1 where i: "db_iterate query conv q w = Some (it, w1)" and d: "dump_rows N disc p code mk it w1 = Some w'"
    by (auto simp: bind_eq_Some_conv)
  have c: "it_conv j = conv" if "it = Some j" for j
    using i that by (auto simp: db_iterate_def bind_eq_Some_conv split: option.splits if_splits)
  have "I w1" using i assms(2) by (auto simp: db_iterate_def kp_def bind_eq_Some_conv split: option.splits)
  then have "ks I (dump_rows N disc p code mk it w1)"
    by (rule dump_rows_ks [OF _ assms(3)]) (use c assms(4) in auto)
  with d show "I w'" by (simp add: ks_def)
qed


end

section \<open>Properties of the logins\<close>

locale net_frame =
  fixes I :: "('d, 'z) netst_scheme \<Rightarrow> bool"
  assumes outside: "I w \<Longrightarrow> I (w\<lparr>ext := d\<rparr>)"
    and same_login: "I w \<Longrightarrow> heap w p = Some c \<Longrightarrow> c_pstate c' = c_pstate c \<Longrightarrow> c_user c' = c_user c \<Longrightarrow> c_pdata c' = c_pdata c \<Longrightarrow>
          I (put p c' w)"
    and freed: "I w \<Longrightarrow> I (w\<lparr>ext := d, heap := (heap w)(p := None)\<rparr>)"
    and relisted: "I w \<Longrightarrow> I (w\<lparr>clients := it\<rparr>)"
    and formatted: "I w \<Longrightarrow> I (w\<lparr>tabbuf := m\<rparr>)"
begin

lemma put_counts: "I w \<Longrightarrow> heap w p = Some c \<Longrightarrow> I (put p (c\<lparr>c_refs := r\<rparr>) w)" "I w \<Longrightarrow> heap w p = Some c \<Longrightarrow> I (put p (c\<lparr>c_del := r\<rparr>) w)"
  "I w \<Longrightarrow> heap w p = Some c \<Longrightarrow> I (put p (c\<lparr>c_ifunc := b\<rparr>) w)" "I w \<Longrightarrow> heap w p = Some c \<Longrightarrow> I (put p (c\<lparr>c_ibuf := m, c_ilen := i\<rparr>) w)"
  by (erule (1) same_login; simp)+

lemma addref_ks: "I w \<Longrightarrow> ks I (client_addref p w)"
  unfolding client_addref_def by (rule k_intros put_counts | assumption)+

lemma release_ks: "keeps_hook I disc \<Longrightarrow> I w \<Longrightarrow> ks I (client_release N disc p w)"
  unfolding client_release_def Let_def by (rule k_intros put_counts freed hook_keeps | assumption)+

lemma delref_ks: "keeps_hook I disc \<Longrightarrow> I w \<Longrightarrow> ks I (client_delref N disc p w)"
  unfolding client_delref_def Let_def by (rule k_intros put_counts release_ks | assumption)+

lemma it_add_kp: "I w \<Longrightarrow> kp I (it_client_add it p w)"
  unfolding it_client_add_def by (rule k_intros addref_ks | assumption)+

lemma it_fill_kp: "I w \<Longrightarrow> kp I (it_client_fill func ps it w)"
  by (induction ps arbitrary: it w) (simp_all only: it_client_fill.simps, (rule k_intros it_add_kp | assumption)+)

lemma it_new_kp: "I w \<Longrightarrow> kp I (it_client_new src func w)"
  unfolding it_client_new_def by (rule it_fill_kp)

lemma lists_kp: "I w \<Longrightarrow> kp I (clients_list w)" "I w \<Longrightarrow> kp I (clients_uid uid w)"
  unfolding clients_list_def clients_uid_def by (rule it_new_kp, assumption)+

lemma it_cur_kt: "I w \<Longrightarrow> kt I (it_client_cur it w)"
  unfolding it_client_cur_def by (rule k_intros addref_ks | assumption)+

lemma it_steps_kt: "I w \<Longrightarrow> kt I (it_client_begin it w)" "I w \<Longrightarrow> kt I (it_client_next it w)"
  unfolding it_client_begin_def it_client_next_def by (rule k_intros it_cur_kt | assumption)+

lemma clients_steps_kt: "I w \<Longrightarrow> kt I (clients_begin u w)" "I w \<Longrightarrow> kt I (clients_next u w)"
  unfolding clients_begin_def clients_next_def by (rule k_intros it_steps_kt relisted | assumption)+

lemma delref_all_ks:
  assumes "keeps_hook I disc"
  shows "I w \<Longrightarrow> ks I (delref_all N disc ps w)"
  by (induction ps arbitrary: w) (simp_all only: delref_all.simps, (rule k_intros delref_ks assms | assumption)+)

lemma it_done_ks: "keeps_hook I disc \<Longrightarrow> I w \<Longrightarrow> ks I (it_client_done N disc it w)"
  unfolding it_client_done_def by (rule delref_all_ks)

lemma it_del_ks: "keeps_hook I disc \<Longrightarrow> I w \<Longrightarrow> ks I (it_client_del N disc w)"
  unfolding it_client_del_def Let_def by (rule k_intros delref_ks relisted | assumption)+

lemma loop_ks:
  assumes "I w" "\<And>i w. I w \<Longrightarrow> kt I (nxt i w)" "\<And>x w. I w \<Longrightarrow> ks I (body x w)"
  shows "ks I (for_each nxt body x i w)"
  unfolding ks_def
proof safe
  fix w' assume "for_each nxt body x i w = Some w'"
  then show "I w'" by (rule for_each_keeps [where J = "\<lambda>i. True"]) (use assms in auto)
qed

lemma loop_kp:
  assumes "I w" "\<And>i w. I w \<Longrightarrow> kt I (nxt i w)" "\<And>x w. I w \<Longrightarrow> kp I (body x w)"
  shows "kp I (for_until nxt body x i w)"
  unfolding kp_def
proof safe
  fix r w' assume "for_until nxt body x i w = Some (r, w')"
  then show "I w'" by (rule for_until_keeps [where J = "\<lambda>i. True"]) (use assms in auto)
qed

lemma close_step_kp: "keeps_hook I disc \<Longrightarrow> I w \<Longrightarrow> kp I (close_step N disc p i w)"
  unfolding close_step_def by (rule k_intros it_del_ks delref_ks | assumption)+

lemma close_ks: "keeps_hook I disc \<Longrightarrow> I w \<Longrightarrow> ks I (client_close N disc p w)"
  unfolding client_close_def by (rule k_intros clients_steps_kt loop_kp close_step_kp | assumption)+

lemma send_kp: "keeps_hook I disc \<Longrightarrow> I w \<Longrightarrow> kp I (client_send N disc p buf w)"
  unfolding client_send_def Let_def by (rule k_intros close_ks outside | assumption)+

lemma bcast_step_ks: "keeps_hook I disc \<Longrightarrow> I w \<Longrightarrow> ks I (bcast_step N disc buf func p w)"
  unfolding bcast_step_def by (rule k_intros send_kp delref_ks | assumption)+

lemma bcast_ks: "keeps_hook I disc \<Longrightarrow> I w \<Longrightarrow> ks I (client_bcast N disc buf func w)"
  unfolding client_bcast_def by (rule k_intros clients_steps_kt loop_ks bcast_step_ks | assumption)+

lemma get_kp: "keeps_hook I disc \<Longrightarrow> I w \<Longrightarrow> kp I (client_get N disc i w)"
  unfolding client_get_def by (rule k_intros clients_steps_kt loop_kp delref_ks | assumption)+

lemma getline_kp: "keeps_hook I disc \<Longrightarrow> I w \<Longrightarrow> kp I (client_getline N disc p w)"
  unfolding client_getline_def Let_def by (rule k_intros send_kp close_ks put_counts | assumption)+

lemma wires: "keeps_hook I disc \<Longrightarrow> wire_frame I N disc"
  by unfold_locales (rule formatted send_kp bcast_ks close_ks; assumption)+

lemma dump_clients_ks:
  assumes "keeps_hook I disc" "I w"
  shows "ks I (dump_clients N disc p code it w)"
proof -
  have l: "kp I (for_until it_client_next
      (dump_step N disc p code (\<lambda>t w. do { c \<leftarrow> heap w t; mkclient c w }) (client_delref N disc)) x i w1)" if "I w1" for x i w1
    by (rule loop_kp wire_frame.dump_step_kp [OF wires] delref_ks it_steps_kt wire_frame.mkrow_kp [OF wires] assms(1) that k_intros | assumption)+
  have e: "ks I (for_until it_client_next
      (dump_step N disc p code (\<lambda>t w. do { c \<leftarrow> heap w t; mkclient c w }) (client_delref N disc)) x i w1 \<bind>
      dump_end N disc p code)" if "I w1" for x i w1
    by (rule k_bind_r [OF l [OF that] wire_frame.dump_end_ks [OF wires [OF assms(1)]]])
  show ?thesis unfolding dump_clients_def by (rule k_bind_t(1) [OF it_steps_kt(1) [OF assms(2)]], rule e)
qed

section \<open>The hook\<close>

lemma proto_delclient_ks: "keeps_hook I h \<Longrightarrow> I w \<Longrightarrow> ks I (proto_delclient N h p w)"
  unfolding proto_delclient_def proto_bcast_logout_def
  by (rule wire_frame.bcast_row_ks [OF wires] wire_frame.mkrow_kp [OF wires] k_intros | assumption)+

lemma disconnect_ks: "I w \<Longrightarrow> ks I (disconnect N k p w)"
proof (induction k arbitrary: p w)
  case (Suc k)
  have h: "keeps_hook I (Some (disconnect N k))" using Suc.IH by (simp add: keeps_hook_def)
  show ?case unfolding disconnect.simps by (rule proto_delclient_ks [OF h Suc.prems])
qed (simp add: k_None)

lemma client_hook_keeps: "keeps_hook I (client_hook N)"
proof -
  have "keeps_hook I (Some (disconnect N k))" for k using disconnect_ks by (simp add: keeps_hook_def)
  then show ?thesis using proto_delclient_ks by (simp add: keeps_hook_def client_hook_def)
qed

end

sublocale net_frame \<subseteq> wired: wire_frame I N "client_hook N" for N
  by (rule wires [OF client_hook_keeps])

end
