(* ===== verification/Protocmd.thy ===== *)
theory Protocmd
  imports Protosend
begin

text \<open>
  The commands of the protocol (\<open>src/proto_cmd.c\<close>), the readers of their arguments (\<open>src/proto_val.c\<close>,
  \<open>proto_arg.h\<close>) and the table of commands, which \<open>src/mkproto.pl\<close> generates. A handler gets the client, the code
  of a successful reply and the arguments; using an argument that is not there, or as another type, is undefined
  behaviour.
\<close>

section \<open>Arguments\<close>

datatype argval = A_int int | A_str string | A_double double | A_replaygain replaygain

definition val_int :: "string \<Rightarrow> int \<times> string" where
  "val_int s = (case strtol s of (v, e) \<Rightarrow> (c_int v, e))"

definition val_uint :: "string \<Rightarrow> int \<times> string" where
  "val_uint s = (case strtoul s of (v, e) \<Rightarrow> (c_uint v, e))"

definition val_name :: "string \<Rightarrow> string option \<times> string" where
  "val_name s =
     (if takeWhile alnum s = [] then (None, s) else (Some (takeWhile alnum s), dropWhile alnum s))"

text \<open>
  \<open>strtod\<close>: after white space and a sign a hexadecimal or decimal number with optional fraction and exponent,
  \<open>inf\<close>, \<open>infinity\<close> or \<open>nan\<close>. The value is left as the text that was read.
\<close>

definition hexdig :: "char \<Rightarrow> bool" where
  "hexdig c \<longleftrightarrow> digit c \<or> lower c \<in> set ''abcdef''"

definition lit_len :: "string \<Rightarrow> string \<Rightarrow> nat" where
  "lit_len l s = (if map lower (take (length l) s) = l then length l else 0)"

definition mantissa_len :: "(char \<Rightarrow> bool) \<Rightarrow> string \<Rightarrow> nat" where
  "mantissa_len d s =
     (let a = length (takeWhile d s); r = drop a s;
          b = (if r \<noteq> [] \<and> hd r = CHR ''.'' then length (takeWhile d (tl r)) else 0)
      in if a + b = 0 then 0 else if r \<noteq> [] \<and> hd r = CHR ''.'' then a + 1 + b else a)"

definition exponent_len :: "char \<Rightarrow> string \<Rightarrow> nat" where
  "exponent_len x s =
     (if s \<noteq> [] \<and> lower (hd s) = x
      then (let t = snd (strip_sign (tl s)); k = length (takeWhile digit t)
            in if k = 0 then 0 else length s - length t + k)
      else 0)"

definition number_len :: "string \<Rightarrow> nat" where
  "number_len s =
     (if lit_len ''infinity'' s > 0 then 8
      else if lit_len ''inf'' s > 0 then 3
      else if lit_len ''nan'' s > 0 then
        (let r = drop 3 s; k = length (takeWhile (\<lambda>c. alnum c \<or> c = CHR ''_'') (tl r))
         in if r \<noteq> [] \<and> hd r = CHR ''('' \<and> drop k (tl r) \<noteq> [] \<and> hd (drop k (tl r)) = CHR '')'' then 3 + k + 2 else 3)
      else if lit_len ''0x'' s > 0 \<and> mantissa_len hexdig (drop 2 s) > 0 then
        (let n = 2 + mantissa_len hexdig (drop 2 s) in n + exponent_len (CHR ''p'') (drop n s))
      else
        (let n = mantissa_len digit s in if n = 0 then 0 else n + exponent_len (CHR ''e'') (drop n s)))"

definition strtod :: "string \<Rightarrow> double \<times> string" where
  "strtod s =
     (let t = snd (strip_sign (dropWhile space s)); n = number_len t
      in if n = 0 then (D_int 0, s) else (D_text (take (length s - length t + n) s), drop n t))"

definition val_double :: "string \<Rightarrow> double \<times> string" where
  "val_double s = strtod s"

definition val_replaygain :: "string \<Rightarrow> replaygain \<times> string" where
  "val_replaygain s =
     (case strtoul s of (v, e) \<Rightarrow>
        if e = s then (rg_none, s)
        else case replaygain_of_int (c_uint v) of Some r \<Rightarrow> (r, e) | None \<Rightarrow> (rg_none, s))"

definition val_string :: "string \<Rightarrow> string \<times> string" where
  "val_string s = (s, [])"

datatype cmd_arg = arg_bool | arg_filter | arg_id | arg_name | arg_num | arg_pass | arg_right | arg_replaygain | arg_sec
  | arg_decibel | arg_string

definition cmd_arg_name :: "cmd_arg \<Rightarrow> string" where
  "cmd_arg_name a =
     (case a of arg_bool \<Rightarrow> ''bool'' | arg_filter \<Rightarrow> ''filter'' | arg_id \<Rightarrow> ''id'' | arg_name \<Rightarrow> ''name'' | arg_num \<Rightarrow> ''num''
      | arg_pass \<Rightarrow> ''pass'' | arg_right \<Rightarrow> ''right'' | arg_replaygain \<Rightarrow> ''replaygain'' | arg_sec \<Rightarrow> ''sec''
      | arg_decibel \<Rightarrow> ''decibel'' | arg_string \<Rightarrow> ''string'')"

text \<open>
  An argument and the rest of the line. The result of \<open>val_uint\<close> is an \<open>int\<close> for the handlers. \<open>val_name\<close> returns
  \<open>NULL\<close> for no name; the caller then looks only at the rest.
\<close>

definition cmd_arg_parse :: "cmd_arg \<Rightarrow> string \<Rightarrow> argval \<times> string" where
  "cmd_arg_parse a s =
     (case a of
        arg_bool \<Rightarrow> (case val_int s of (v, e) \<Rightarrow> (A_int v, e))
      | arg_name \<Rightarrow> (case val_name s of (v, e) \<Rightarrow> (A_str (case v of None \<Rightarrow> [] | Some n \<Rightarrow> n), e))
      | arg_decibel \<Rightarrow> (case val_double s of (v, e) \<Rightarrow> (A_double v, e))
      | arg_replaygain \<Rightarrow> (case val_replaygain s of (v, e) \<Rightarrow> (A_replaygain v, e))
      | arg_filter \<Rightarrow> (case val_string s of (v, e) \<Rightarrow> (A_str v, e))
      | arg_pass \<Rightarrow> (case val_string s of (v, e) \<Rightarrow> (A_str v, e))
      | arg_string \<Rightarrow> (case val_string s of (v, e) \<Rightarrow> (A_str v, e))
      | _ \<Rightarrow> (case val_uint s of (v, e) \<Rightarrow> (A_int (c_int v), e)))"

definition int_arg :: "argval list \<Rightarrow> nat \<Rightarrow> int option" where
  "int_arg argv k = (if k < length argv then (case argv ! k of A_int i \<Rightarrow> Some i | _ \<Rightarrow> None) else None)"

definition str_arg :: "argval list \<Rightarrow> nat \<Rightarrow> string option" where
  "str_arg argv k = (if k < length argv then (case argv ! k of A_str s \<Rightarrow> Some s | _ \<Rightarrow> None) else None)"

definition double_arg :: "argval list \<Rightarrow> nat \<Rightarrow> double option" where
  "double_arg argv k = (if k < length argv then (case argv ! k of A_double d \<Rightarrow> Some d | _ \<Rightarrow> None) else None)"

definition replaygain_arg :: "argval list \<Rightarrow> nat \<Rightarrow> replaygain option" where
  "replaygain_arg argv k = (if k < length argv then (case argv ! k of A_replaygain r \<Rightarrow> Some r | _ \<Rightarrow> None) else None)"

section \<open>The table\<close>

record cmd =
  cmd_name :: string
  cmd_code :: string
  cmd_perm :: int
  cmd_context :: protstate
  cmd_args :: "cmd_arg list"

abbreviation (input) entry :: "string \<Rightarrow> string \<Rightarrow> int \<Rightarrow> protstate \<Rightarrow> cmd_arg list \<Rightarrow> cmd" where
  "entry n c p x a \<equiv> \<lparr>cmd_name = n, cmd_code = c, cmd_perm = p, cmd_context = x, cmd_args = a\<rparr>"

definition proto_cmds :: "cmd list" where
  "proto_cmds = [
     entry ''quit'' ''221'' r_any p_any [],
     entry ''user'' ''320'' r_any p_open [arg_name],
     entry ''pass'' ''221'' r_any p_user [arg_pass],
     entry ''clientlist'' ''230'' r_user p_idle [],
     entry ''clientclose'' ''232'' r_master p_idle [arg_id],
     entry ''clientcloseuser'' ''231'' r_master p_idle [arg_id],
     entry ''userlist'' ''235'' r_user p_idle [],
     entry ''userget'' ''233'' r_user p_idle [arg_id],
     entry ''user2id'' ''234'' r_user p_idle [arg_name],
     entry ''useradd'' ''238'' r_master p_idle [arg_name],
     entry ''usersetpass'' ''236'' r_master p_idle [arg_id, arg_pass],
     entry ''usersetright'' ''237'' r_master p_idle [arg_id, arg_right],
     entry ''userdel'' ''239'' r_master p_idle [arg_id],
     entry ''play'' ''240'' r_user p_idle [],
     entry ''stop'' ''241'' r_user p_idle [],
     entry ''next'' ''240'' r_user p_idle [],
     entry ''prev'' ''240'' r_user p_idle [],
     entry ''pause'' ''242'' r_user p_idle [],
     entry ''elapsed'' ''249'' r_guest p_idle [],
     entry ''jump'' ''248'' r_user p_idle [arg_sec],
     entry ''status'' ''243'' r_guest p_idle [],
     entry ''curtrack'' ''248'' r_guest p_idle [],
     entry ''gap'' ''244'' r_guest p_idle [],
     entry ''gapset'' ''245'' r_user p_idle [arg_sec],
     entry ''cut'' ''244'' r_guest p_idle [],
     entry ''cutset'' ''245'' r_user p_idle [arg_bool],
     entry ''replaygain'' ''244'' r_guest p_idle [],
     entry ''replaygainset'' ''245'' r_user p_idle [arg_replaygain],
     entry ''rgpreamp'' ''244'' r_guest p_idle [],
     entry ''rgpreampset'' ''245'' r_user p_idle [arg_decibel],
     entry ''random'' ''246'' r_guest p_idle [],
     entry ''randomset'' ''247'' r_user p_idle [arg_bool],
     entry ''sleep'' ''215'' r_guest p_idle [],
     entry ''sleepset'' ''216'' r_user p_idle [arg_sec],
     entry ''trackcount'' ''214'' r_guest p_idle [],
     entry ''tracksearch'' ''211'' r_guest p_idle [arg_string],
     entry ''tracksearchf'' ''211'' r_guest p_idle [arg_filter],
     entry ''tracksalbum'' ''212'' r_guest p_idle [arg_id],
     entry ''tracksartist'' ''213'' r_guest p_idle [arg_id],
     entry ''trackget'' ''210'' r_guest p_idle [arg_id],
     entry ''track2id'' ''214'' r_guest p_idle [arg_id, arg_id],
     entry ''tracksetname'' ''283'' r_admin p_idle [arg_id, arg_string],
     entry ''tracksetartist'' ''284'' r_admin p_idle [arg_id, arg_id],
     entry ''filter'' ''250'' r_guest p_idle [],
     entry ''filterset'' ''251'' r_user p_idle [arg_filter],
     entry ''filterstat'' ''253'' r_guest p_idle [],
     entry ''filtertop'' ''252'' r_guest p_idle [arg_num],
     entry ''history'' ''260'' r_guest p_idle [arg_num],
     entry ''historytrack'' ''260'' r_guest p_idle [arg_id, arg_num],
     entry ''queuelist'' ''260'' r_guest p_idle [],
     entry ''queueget'' ''264'' r_user p_idle [arg_id],
     entry ''queueadd'' ''260'' r_user p_idle [arg_id],
     entry ''queuedel'' ''262'' r_user p_idle [arg_id],
     entry ''queueclear'' ''263'' r_master p_idle [],
     entry ''queuesum'' ''265'' r_guest p_idle [],
     entry ''taglist'' ''270'' r_guest p_idle [],
     entry ''tagget'' ''271'' r_guest p_idle [arg_id],
     entry ''tagsartist'' ''270'' r_guest p_idle [arg_id],
     entry ''tag2id'' ''272'' r_guest p_idle [arg_name],
     entry ''tagadd'' ''273'' r_admin p_idle [arg_name],
     entry ''tagsetname'' ''274'' r_admin p_idle [arg_id, arg_name],
     entry ''tagsetdesc'' ''275'' r_admin p_idle [arg_id, arg_string],
     entry ''tagdel'' ''276'' r_admin p_idle [arg_id],
     entry ''tracktaglist'' ''277'' r_guest p_idle [arg_id],
     entry ''tracktagadd'' ''278'' r_admin p_idle [arg_id, arg_id],
     entry ''tracktagdel'' ''279'' r_admin p_idle [arg_id, arg_id],
     entry ''tracktagged'' ''279'' r_guest p_idle [arg_id, arg_id],
     entry ''albumlist'' ''281'' r_guest p_idle [],
     entry ''albumsartist'' ''285'' r_admin p_idle [arg_id],
     entry ''albumstag'' ''285'' r_admin p_idle [arg_id],
     entry ''albumsearch'' ''282'' r_guest p_idle [arg_string],
     entry ''albumget'' ''280'' r_guest p_idle [arg_id],
     entry ''albumsetname'' ''283'' r_admin p_idle [arg_id, arg_string],
     entry ''albumsetartist'' ''284'' r_admin p_idle [arg_id, arg_id],
     entry ''albumsetyear'' ''286'' r_admin p_idle [arg_id, arg_num],
     entry ''artistlist'' ''291'' r_guest p_idle [],
     entry ''artistsearch'' ''292'' r_guest p_idle [arg_string],
     entry ''artiststag'' ''292'' r_guest p_idle [arg_id],
     entry ''artistget'' ''290'' r_guest p_idle [arg_id],
     entry ''artistadd'' ''295'' r_admin p_idle [arg_string],
     entry ''artistsetname'' ''293'' r_admin p_idle [arg_id, arg_string],
     entry ''artistmerge'' ''294'' r_admin p_idle [arg_id, arg_id],
     entry ''artistdel'' ''295'' r_admin p_idle [arg_id],
     entry ''sfilterlist'' ''270'' r_guest p_idle [],
     entry ''sfilterget'' ''254'' r_guest p_idle [arg_id],
     entry ''sfilter2id'' ''255'' r_guest p_idle [arg_name],
     entry ''sfilteradd'' ''256'' r_admin p_idle [arg_name],
     entry ''sfiltersetname'' ''257'' r_admin p_idle [arg_id, arg_name],
     entry ''sfiltersetfilter'' ''258'' r_admin p_idle [arg_id, arg_filter],
     entry ''sfilterdel'' ''259'' r_admin p_idle [arg_id],
     entry ''help'' ''219'' r_any p_any []]"

section \<open>The handlers\<close>

text \<open>
  What the handlers use: connections, database and player, the hooks that \<open>proto_init\<close> installs, and two
  conversions of \<open>printf\<close>: \<open>%f\<close>, and the message for an impossible comparison, which prints an address.
\<close>

record ('d, 'w) cenv =
  ce_net :: "'d netlib"
  ce_env :: "('d, 'w) penv"
  random_func_filter :: "'w notify"
  queue_func_add :: "('w, queue) hook"
  queue_func_del :: "('w, queue) hook"
  queue_func_clear :: "'w notify"
  tag_func_changed :: "('w, tag) hook"
  tag_func_del :: "('w, tag) hook"
  ce_fmt_f :: "double \<Rightarrow> string"
  ce_invalid_match :: "valfield \<Rightarrow> valop \<Rightarrow> valtype \<Rightarrow> string"

type_synonym ('d, 'z) cmdenv = "('d, ('d, 'z) plst_scheme) cenv"

type_synonym ('d, 'z) handler = "('d, 'z) cmdenv \<Rightarrow> ptr \<Rightarrow> string \<Rightarrow> argval list \<Rightarrow> ('d, 'z) pstate \<Rightarrow> ('d, 'z) pstate option"

abbreviation hook_of :: "('d, 'z) cmdenv \<Rightarrow> ('d, 'z plst_ext) disc" where
  "hook_of C \<equiv> client_hook (ce_net C)"

abbreviation ask :: "('d, 'z) cmdenv \<Rightarrow> ('d, 'z) pstate query" where
  "ask C \<equiv> pe_query (ce_env C)"

abbreviation say :: "('d, 'z) cmdenv \<Rightarrow> ptr \<Rightarrow> string \<Rightarrow> string \<Rightarrow> ('d, 'z) pstate \<Rightarrow> ('d, 'z) pstate option" where
  "say C \<equiv> reply (ce_net C) (hook_of C)"

definition playstatus_num :: "playstatus \<Rightarrow> int" where
  "playstatus_num s = (case s of pl_stop \<Rightarrow> 0 | pl_play \<Rightarrow> 1 | pl_pause \<Rightarrow> 2)"

definition replaygain_num :: "replaygain \<Rightarrow> int" where
  "replaygain_num r = (case r of rg_none \<Rightarrow> 0 | rg_track \<Rightarrow> 1 | rg_track_peak \<Rightarrow> 2 | rg_album \<Rightarrow> 3 | rg_album_peak \<Rightarrow> 4)"

definition parse_msg_text :: "('d, 'z) cmdenv \<Rightarrow> parse_msg option \<Rightarrow> string" where
  "parse_msg_text C m = (case m of None \<Rightarrow> null_text | Some (Msg s) \<Rightarrow> s | Some (Msg_invalid_match f p t) \<Rightarrow> ce_invalid_match C f p t)"

definition filter_error :: "('d, 'z) cmdenv \<Rightarrow> ptr \<Rightarrow> int \<Rightarrow> parse_msg option \<Rightarrow> ('d, 'z) pstate \<Rightarrow> ('d, 'z) pstate option" where
  "filter_error C client pos m w =
     say C client ''511'' (''error at pos '' @ fmt_d pos @ '' in filter: '' @ parse_msg_text C m) w"

definition cmd_quit :: "('d, 'z) handler" where
  "cmd_quit C client code argv w =
     do { w \<leftarrow> say C client code ''bye'' w; client_close (ce_net C) (hook_of C) client w }"

definition cmd_user :: "('d, 'z) handler" where
  "cmd_user C client code argv w =
     do { user \<leftarrow> str_arg argv 0;
          c \<leftarrow> heap w client;
          say C client code ''user ok, use PASS for password'' (put client (c\<lparr>c_pdata := Some user, c_pstate := p_user\<rparr>) w) }"

text \<open>The labels \<open>clean1\<close> and \<open>final\<close> of \<open>cmd_pass\<close>. \<open>strlen\<close> of a missing name is undefined behaviour.\<close>

definition pass_final :: "ptr \<Rightarrow> ('d, 'z) pstate \<Rightarrow> ('d, 'z) pstate option" where
  "pass_final client w = do { c \<leftarrow> heap w client; Some (put client (c\<lparr>c_pdata := None\<rparr>) w) }"

definition pass_failed :: "('d, 'z) cmdenv \<Rightarrow> ptr \<Rightarrow> ('d, 'z) pstate \<Rightarrow> ('d, 'z) pstate option" where
  "pass_failed C client w =
     do { c \<leftarrow> heap w client;
          w \<leftarrow> say C client ''501'' ''login failed'' (put client (c\<lparr>c_user := None, c_pstate := p_open\<rparr>) w);
          pass_final client w }"

definition cmd_pass :: "('d, 'z) handler" where
  "cmd_pass C client code argv w =
     do { pass \<leftarrow> str_arg argv 0;
          c \<leftarrow> heap w client;
          name \<leftarrow> c_pdata c;
          (u, w) \<leftarrow> user_getn (ask C) name w;
          (case u of
             None \<Rightarrow> pass_failed C client w
           | Some u \<Rightarrow>
               if \<not> user_ok (pe_libc (ce_env C)) u pass then pass_failed C client w
               else do {
                 c \<leftarrow> heap w client;
                 w \<leftarrow> say C client code ''successfully logged in'' (put client (c\<lparr>c_user := Some u, c_pstate := p_idle\<rparr>) w);
                 w \<leftarrow> proto_bcast_login (ce_net C) (hook_of C) client w;
                 pass_final client w }) }"

definition cmd_clientlist :: "('d, 'z) handler" where
  "cmd_clientlist C client code argv w =
     do { (it, w) \<leftarrow> clients_list w;
          w \<leftarrow> dump_clients (ce_net C) (hook_of C) client code it w;
          it_client_done (ce_net C) (hook_of C) it w }"

definition cmd_clientclose :: "('d, 'z) handler" where
  "cmd_clientclose C client code argv w =
     do { i \<leftarrow> int_arg argv 0;
          (c, w) \<leftarrow> client_get (ce_net C) (hook_of C) i w;
          (case c of
             None \<Rightarrow> say C client ''501'' ''session not found'' w
           | Some c \<Rightarrow> do {
               w \<leftarrow> say C c ''632'' ''disconnected'' w;
               w \<leftarrow> client_close (ce_net C) (hook_of C) c w;
               w \<leftarrow> client_delref (ce_net C) (hook_of C) c w;
               say C client code ''disconnected'' w }) }"

text \<open>The loop of \<open>cmd_clientcloseuser\<close> goes over its own copy of the list; the state of the loop is whether it ran.\<close>

definition kick_step :: "('d, 'z) cmdenv \<Rightarrow> ptr \<Rightarrow> ('d, 'z) pstate \<Rightarrow> ('d, 'z) pstate option" where
  "kick_step C t w =
     do { w \<leftarrow> say C t ''632'' ''kicked'' w;
          w \<leftarrow> client_close (ce_net C) (hook_of C) t w;
          client_delref (ce_net C) (hook_of C) t w }"

definition cmd_clientcloseuser :: "('d, 'z) handler" where
  "cmd_clientcloseuser C client code argv w =
     do { i \<leftarrow> int_arg argv 0;
          (it, w) \<leftarrow> clients_uid i w;
          (t, it', w) \<leftarrow> it_client_begin it w;
          let found = (t \<noteq> None);
          w \<leftarrow> for_each it_client_next (kick_step C) t it' w;
          w \<leftarrow> it_client_done (ce_net C) (hook_of C) it w;
          if found then say C client code ''kicked'' w else say C client ''501'' ''user not found'' w }"

definition cmd_userlist :: "('d, 'z) handler" where
  "cmd_userlist C client code argv w =
     do { (it, w) \<leftarrow> users_list (ask C) w;
          dump_users (ce_net C) (hook_of C) client code it w }"

definition cmd_userget :: "('d, 'z) handler" where
  "cmd_userget C client code argv w =
     do { i \<leftarrow> int_arg argv 0;
          (t, w) \<leftarrow> user_get (ask C) i w;
          (case t of None \<Rightarrow> say C client ''501'' ''user not found'' w | Some t \<Rightarrow> dump_user (ce_net C) (hook_of C) client code t w) }"

definition cmd_user2id :: "('d, 'z) handler" where
  "cmd_user2id C client code argv w =
     do { s \<leftarrow> str_arg argv 0;
          (r, w) \<leftarrow> user_id (ask C) s w;
          if r < 0 then say C client ''501'' ''no such user'' w else say C client code (fmt_d r) w }"

definition cmd_useradd :: "('d, 'z) handler" where
  "cmd_useradd C client code argv w =
     do { s \<leftarrow> str_arg argv 0;
          (r, w) \<leftarrow> user_add (ask C) (pe_libc (ce_env C)) s 1 [] w;
          if r < 0 then say C client ''530'' ''failed'' w else say C client code (fmt_d r) w }"

definition cmd_usersetpass :: "('d, 'z) handler" where
  "cmd_usersetpass C client code argv w =
     do { i \<leftarrow> int_arg argv 0;
          s \<leftarrow> str_arg argv 1;
          (r, w) \<leftarrow> user_setpass (ask C) (pe_libc (ce_env C)) i s w;
          if r < 0 then say C client ''530'' ''failed'' w else say C client code ''password changed'' w }"

definition cmd_usersetright :: "('d, 'z) handler" where
  "cmd_usersetright C client code argv w =
     do { i \<leftarrow> int_arg argv 0;
          right \<leftarrow> int_arg argv 1;
          (r, w) \<leftarrow> user_setright (ask C) i right w;
          if r < 0 then say C client ''530'' ''failed'' w else say C client code ''right changed'' w }"

definition cmd_userdel :: "('d, 'z) handler" where
  "cmd_userdel C client code argv w =
     do { i \<leftarrow> int_arg argv 0;
          (r, w) \<leftarrow> user_del (ask C) i w;
          if r < 0 then say C client ''530'' ''failed'' w else say C client code ''deleted'' w }"

definition cmd_play :: "('d, 'z) handler" where
  "cmd_play C client code argv w =
     do { (r, w) \<leftarrow> player_start (ce_env C) w; proto_player_reply (ce_net C) (hook_of C) client r code ''playing'' w }"

definition cmd_stop :: "('d, 'z) handler" where
  "cmd_stop C client code argv w =
     do { (r, w) \<leftarrow> player_stop (ce_env C) w; proto_player_reply (ce_net C) (hook_of C) client r code ''stopped'' w }"

definition cmd_next :: "('d, 'z) handler" where
  "cmd_next C client code argv w =
     do { (r, w) \<leftarrow> player_next (ce_env C) w; proto_player_reply (ce_net C) (hook_of C) client r code ''playing next'' w }"

definition cmd_prev :: "('d, 'z) handler" where
  "cmd_prev C client code argv w =
     (case player_prev w of (r, w) \<Rightarrow> proto_player_reply (ce_net C) (hook_of C) client r code ''playing previous'' w)"

definition cmd_pause :: "('d, 'z) handler" where
  "cmd_pause C client code argv w =
     do { (r, w) \<leftarrow> player_pause (ce_env C) w; proto_player_reply (ce_net C) (hook_of C) client r code ''paused'' w }"

definition cmd_elapsed :: "('d, 'z) handler" where
  "cmd_elapsed C client code argv w =
     say C client code (fmt_d (player_elapsed (ce_env C) w)) w"

definition cmd_jump :: "('d, 'z) handler" where
  "cmd_jump C client code argv w =
     do { sec \<leftarrow> int_arg argv 0;
          (r, w) \<leftarrow> player_jump (ce_env C) sec w;
          proto_player_reply (ce_net C) (hook_of C) client r code ''jumped'' w }"

definition cmd_status :: "('d, 'z) handler" where
  "cmd_status C client code argv w =
     say C client code (fmt_d (playstatus_num (player_status (ce_env C) w))) w"

definition cmd_curtrack :: "('d, 'z) handler" where
  "cmd_curtrack C client code argv w =
     do { t \<leftarrow> player_track w;
          (case t of
             None \<Rightarrow> say C client ''541'' ''nothing playing (maybe in a gap?)'' w
           | Some t \<Rightarrow> dump_track (ce_net C) (hook_of C) client code t w) }"

definition cmd_gap :: "('d, 'z) handler" where
  "cmd_gap C client code argv w =
     say C client code (fmt_d (player_gap w)) w"

definition cmd_gapset :: "('d, 'z) handler" where
  "cmd_gapset C client code argv w =
     do { sec \<leftarrow> int_arg argv 0; say C client code ''gap adjusted'' (snd (player_setgap sec w)) }"

definition cmd_cut :: "('d, 'z) handler" where
  "cmd_cut C client code argv w =
     say C client code (fmt_d (player_cut w)) w"

definition cmd_cutset :: "('d, 'z) handler" where
  "cmd_cutset C client code argv w =
     do { b \<leftarrow> int_arg argv 0; say C client code ''cutting adjusted'' (snd (player_setcut b w)) }"

definition cmd_replaygain :: "('d, 'z) handler" where
  "cmd_replaygain C client code argv w =
     say C client code (fmt_d (replaygain_num (player_rgtype w))) w"

definition cmd_replaygainset :: "('d, 'z) handler" where
  "cmd_replaygainset C client code argv w =
     do { g \<leftarrow> replaygain_arg argv 0;
          (r, w) \<leftarrow> player_setrgtype (ce_env C) g w;
          say C client code ''replaygain type adjusted'' w }"

definition cmd_rgpreamp :: "('d, 'z) handler" where
  "cmd_rgpreamp C client code argv w =
     say C client code (ce_fmt_f C (player_rgpreamp w)) w"

definition cmd_rgpreampset :: "('d, 'z) handler" where
  "cmd_rgpreampset C client code argv w =
     do { g \<leftarrow> double_arg argv 0;
          (r, w) \<leftarrow> player_setrgpreamp (ce_env C) g w;
          say C client code ''replaygain preamplification adjusted'' w }"

definition cmd_random :: "('d, 'z) handler" where
  "cmd_random C client code argv w =
     say C client code (fmt_d (player_random w)) w"

definition cmd_randomset :: "('d, 'z) handler" where
  "cmd_randomset C client code argv w =
     do { b \<leftarrow> int_arg argv 0;
          (r, w) \<leftarrow> player_setrandom (ce_env C) b w;
          say C client code ''random adjusted'' w }"

definition cmd_sleep :: "('d, 'z) handler" where
  "cmd_sleep C client code argv w =
     (case sleep_remain (ce_env C) w of (r, w) \<Rightarrow> say C client code (fmt_d (c_int r)) w)"

definition cmd_sleepset :: "('d, 'z) handler" where
  "cmd_sleepset C client code argv w =
     do { sec \<leftarrow> int_arg argv 0;
          w \<leftarrow> sleep_in (ce_env C) sec w;
          say C client code (''ok, will stop in '' @ fmt_d sec @ '' seconds'') w }"

definition cmd_trackcount :: "('d, 'z) handler" where
  "cmd_trackcount C client code argv w =
     do { (r, w) \<leftarrow> tracks (ask C) w;
          if r < 0 then say C client ''510'' ''internal error'' w else say C client code (fmt_d r) w }"

definition cmd_tracksearch :: "('d, 'z) handler" where
  "cmd_tracksearch C client code argv w =
     do { s \<leftarrow> str_arg argv 0;
          (it, w) \<leftarrow> tracks_search (ask C) s w;
          dump_tracks (ce_net C) (hook_of C) client code it w }"

definition cmd_tracksearchf :: "('d, 'z) handler" where
  "cmd_tracksearchf C client code argv w =
     do { s \<leftarrow> str_arg argv 0;
          (e, pos, m) \<leftarrow> expr_parse_str s;
          (case e of
             None \<Rightarrow> filter_error C client pos m w
           | Some e \<Rightarrow> do {
               (it, w) \<leftarrow> tracks_searchf (ask C) e w;
               dump_tracks (ce_net C) (hook_of C) client code it w }) }"

definition cmd_tracksalbum :: "('d, 'z) handler" where
  "cmd_tracksalbum C client code argv w =
     do { i \<leftarrow> int_arg argv 0;
          (it, w) \<leftarrow> tracks_albumid (ask C) i w;
          dump_tracks (ce_net C) (hook_of C) client code it w }"

definition cmd_tracksartist :: "('d, 'z) handler" where
  "cmd_tracksartist C client code argv w =
     do { i \<leftarrow> int_arg argv 0;
          (it, w) \<leftarrow> tracks_artistid (ask C) i w;
          dump_tracks (ce_net C) (hook_of C) client code it w }"

definition cmd_trackget :: "('d, 'z) handler" where
  "cmd_trackget C client code argv w =
     do { i \<leftarrow> int_arg argv 0;
          (t, w) \<leftarrow> track_get (ask C) i w;
          (case t of None \<Rightarrow> say C client ''511'' ''no such track'' w | Some t \<Rightarrow> dump_track (ce_net C) (hook_of C) client code t w) }"

definition cmd_track2id :: "('d, 'z) handler" where
  "cmd_track2id C client code argv w =
     do { i \<leftarrow> int_arg argv 0;
          pos \<leftarrow> int_arg argv 1;
          (r, w) \<leftarrow> track_id (ask C) i pos w;
          if r < 0 then say C client ''501'' ''no such track found'' w else say C client code (fmt_d r) w }"

definition cmd_tracksetname :: "('d, 'z) handler" where
  "cmd_tracksetname C client code argv w =
     do { i \<leftarrow> int_arg argv 0;
          s \<leftarrow> str_arg argv 1;
          (r, w) \<leftarrow> track_setname (ask C) i s w;
          if r \<noteq> 0 then say C client ''511'' ''failed'' w else say C client code ''name changed'' w }"

definition cmd_tracksetartist :: "('d, 'z) handler" where
  "cmd_tracksetartist C client code argv w =
     do { i \<leftarrow> int_arg argv 0;
          artist \<leftarrow> int_arg argv 1;
          (r, w) \<leftarrow> track_setartist (ask C) i artist w;
          if r \<noteq> 0 then say C client ''511'' ''failed'' w else say C client code ''artist changed'' w }"

definition cmd_filter :: "('d, 'z) handler" where
  "cmd_filter C client code argv w =
     do { s \<leftarrow> filter_text (random_filter w); say C client code s w }"

definition cmd_filterset :: "('d, 'z) handler" where
  "cmd_filterset C client code argv w =
     do { s \<leftarrow> str_arg argv 0;
          (e, pos, m) \<leftarrow> expr_parse_str s;
          (case e of
             None \<Rightarrow> filter_error C client pos m w
           | Some e \<Rightarrow> do {
               (r, w) \<leftarrow> random_setfilter (ask C) (random_func_filter C) (Some e) w;
               if r \<noteq> 0 then say C client ''511'' ''failed to apply (correct) filter'' w
               else say C client code ''filter changed'' w }) }"

definition cmd_filterstat :: "('d, 'z) handler" where
  "cmd_filterstat C client code argv w =
     do { (r, w) \<leftarrow> random_filterstat (ask C) w;
          if r < 0 then say C client ''511'' ''filter error'' w else say C client code (fmt_d r) w }"

definition cmd_filtertop :: "('d, 'z) handler" where
  "cmd_filtertop C client code argv w =
     do { num \<leftarrow> int_arg argv 0;
          (it, w) \<leftarrow> random_top (ask C) num w;
          dump_tracks (ce_net C) (hook_of C) client code it w }"

definition cmd_history :: "('d, 'z) handler" where
  "cmd_history C client code argv w =
     do { num \<leftarrow> int_arg argv 0;
          (it, w) \<leftarrow> history_list (ask C) num w;
          dump_history (ce_net C) (hook_of C) client code it w }"

definition cmd_historytrack :: "('d, 'z) handler" where
  "cmd_historytrack C client code argv w =
     do { i \<leftarrow> int_arg argv 0;
          num \<leftarrow> int_arg argv 1;
          (it, w) \<leftarrow> history_tracklist (ask C) i num w;
          dump_history (ce_net C) (hook_of C) client code it w }"

definition cmd_queuelist :: "('d, 'z) handler" where
  "cmd_queuelist C client code argv w =
     do { (it, w) \<leftarrow> queue_list (ask C) w;
          dump_queues (ce_net C) (hook_of C) client code it w }"

definition cmd_queueget :: "('d, 'z) handler" where
  "cmd_queueget C client code argv w =
     do { i \<leftarrow> int_arg argv 0;
          (t, w) \<leftarrow> queue_get (ask C) i w;
          (case t of None \<Rightarrow> say C client ''501'' ''queue entry not found'' w | Some t \<Rightarrow> dump_queue (ce_net C) (hook_of C) client code t w) }"

definition cmd_queueadd :: "('d, 'z) handler" where
  "cmd_queueadd C client code argv w =
     do { i \<leftarrow> int_arg argv 0;
          c \<leftarrow> heap w client;
          u \<leftarrow> c_user c;
          (qid, w) \<leftarrow> queue_add (ask C) (queue_func_add C) i (us_id u) w;
          if qid = - 1 then say C client ''561'' ''failed to add track to queue'' w
          else say C client code (fmt_d qid) w }"

definition cmd_queuedel :: "('d, 'z) handler" where
  "cmd_queuedel C client code argv w =
     do { i \<leftarrow> int_arg argv 0;
          c \<leftarrow> heap w client;
          u \<leftarrow> c_user c;
          (r, w) \<leftarrow> queue_del (ask C) (queue_func_del C) i (if us_right u = r_master then 0 else us_id u) w;
          if r \<noteq> 0 then say C client ''562'' ''failed to delete from queue'' w
          else say C client code ''track removed from queue'' w }"

definition cmd_queueclear :: "('d, 'z) handler" where
  "cmd_queueclear C client code argv w =
     do { (r, w) \<leftarrow> queue_clear (ask C) (queue_func_clear C) w;
          if r \<noteq> 0 then say C client ''563'' ''failed to clear queue'' w else say C client code ''queue cleared'' w }"

definition cmd_queuesum :: "('d, 'z) handler" where
  "cmd_queuesum C client code argv w =
     do { (r, w) \<leftarrow> queue_sum (ask C) w;
          if r < 0 then say C client ''510'' ''internal error'' w else say C client code (fmt_d r) w }"

definition cmd_taglist :: "('d, 'z) handler" where
  "cmd_taglist C client code argv w =
     do { (it, w) \<leftarrow> tags_list (ask C) w;
          dump_tags (ce_net C) (hook_of C) client code it w }"

definition cmd_tagget :: "('d, 'z) handler" where
  "cmd_tagget C client code argv w =
     do { i \<leftarrow> int_arg argv 0;
          (t, w) \<leftarrow> tag_get (ask C) i w;
          (case t of None \<Rightarrow> say C client ''511'' ''no such tag'' w | Some t \<Rightarrow> dump_tag (ce_net C) (hook_of C) client code t w) }"

definition cmd_tagsartist :: "('d, 'z) handler" where
  "cmd_tagsartist C client code argv w =
     do { i \<leftarrow> int_arg argv 0;
          (it, w) \<leftarrow> tags_artist (ask C) i w;
          dump_tags (ce_net C) (hook_of C) client code it w }"

definition cmd_tag2id :: "('d, 'z) handler" where
  "cmd_tag2id C client code argv w =
     do { s \<leftarrow> str_arg argv 0;
          (r, w) \<leftarrow> tag_id (ask C) s w;
          if r < 0 then say C client ''511'' ''no such tag'' w else say C client code (fmt_d r) w }"

definition cmd_tagadd :: "('d, 'z) handler" where
  "cmd_tagadd C client code argv w =
     do { s \<leftarrow> str_arg argv 0;
          (r, w) \<leftarrow> tag_add (ask C) (tag_func_changed C) s w;
          if r < 0 then say C client ''511'' ''failed'' w else say C client code (fmt_d r) w }"

definition cmd_tagsetname :: "('d, 'z) handler" where
  "cmd_tagsetname C client code argv w =
     do { i \<leftarrow> int_arg argv 0;
          s \<leftarrow> str_arg argv 1;
          (r, w) \<leftarrow> tag_setname (ask C) (tag_func_changed C) i s w;
          if r \<noteq> 0 then say C client ''511'' ''failed'' w else say C client code ''name changed'' w }"

definition cmd_tagsetdesc :: "('d, 'z) handler" where
  "cmd_tagsetdesc C client code argv w =
     do { i \<leftarrow> int_arg argv 0;
          s \<leftarrow> str_arg argv 1;
          (r, w) \<leftarrow> tag_setdesc (ask C) (tag_func_changed C) i s w;
          if r \<noteq> 0 then say C client ''511'' ''failed'' w else say C client code ''desc changed'' w }"

definition cmd_tagdel :: "('d, 'z) handler" where
  "cmd_tagdel C client code argv w =
     do { i \<leftarrow> int_arg argv 0;
          (r, w) \<leftarrow> tag_del (ask C) (tag_func_changed C) (tag_func_del C) i w;
          if r \<noteq> 0 then say C client ''511'' ''failed'' w else say C client code ''deleted'' w }"

definition cmd_tracktaglist :: "('d, 'z) handler" where
  "cmd_tracktaglist C client code argv w =
     do { i \<leftarrow> int_arg argv 0;
          (it, w) \<leftarrow> track_tags (ask C) i w;
          dump_tags (ce_net C) (hook_of C) client code it w }"

definition cmd_tracktagadd :: "('d, 'z) handler" where
  "cmd_tracktagadd C client code argv w =
     do { i \<leftarrow> int_arg argv 0;
          tagid \<leftarrow> int_arg argv 1;
          (r, w) \<leftarrow> track_tagadd (ask C) i tagid w;
          if r \<noteq> 0 then say C client ''511'' ''failed'' w else say C client code ''tag added to track (or already exists)'' w }"

definition cmd_tracktagdel :: "('d, 'z) handler" where
  "cmd_tracktagdel C client code argv w =
     do { i \<leftarrow> int_arg argv 0;
          tagid \<leftarrow> int_arg argv 1;
          (r, w) \<leftarrow> track_tagdel (ask C) i tagid w;
          if r \<noteq> 0 then say C client ''511'' ''failed'' w else say C client code ''tag deleted from track'' w }"

definition cmd_tracktagged :: "('d, 'z) handler" where
  "cmd_tracktagged C client code argv w =
     do { i \<leftarrow> int_arg argv 0;
          tagid \<leftarrow> int_arg argv 1;
          (r, w) \<leftarrow> track_tagged (ask C) i tagid w;
          if r < 0 then say C client ''511'' ''failed'' w else say C client code (fmt_d r) w }"

definition cmd_albumlist :: "('d, 'z) handler" where
  "cmd_albumlist C client code argv w =
     do { (it, w) \<leftarrow> albums_list (ask C) w;
          dump_albums (ce_net C) (hook_of C) client code it w }"

definition cmd_albumsartist :: "('d, 'z) handler" where
  "cmd_albumsartist C client code argv w =
     do { i \<leftarrow> int_arg argv 0;
          (it, w) \<leftarrow> albums_artistid (ask C) i w;
          dump_albums (ce_net C) (hook_of C) client code it w }"

definition cmd_albumstag :: "('d, 'z) handler" where
  "cmd_albumstag C client code argv w =
     do { i \<leftarrow> int_arg argv 0;
          (it, w) \<leftarrow> albums_tag (ask C) i w;
          dump_albums (ce_net C) (hook_of C) client code it w }"

definition cmd_albumsearch :: "('d, 'z) handler" where
  "cmd_albumsearch C client code argv w =
     do { s \<leftarrow> str_arg argv 0;
          (it, w) \<leftarrow> albums_search (ask C) s w;
          dump_albums (ce_net C) (hook_of C) client code it w }"

definition cmd_albumget :: "('d, 'z) handler" where
  "cmd_albumget C client code argv w =
     do { i \<leftarrow> int_arg argv 0;
          (t, w) \<leftarrow> album_get (ask C) i w;
          (case t of None \<Rightarrow> say C client ''580'' ''failed'' w | Some t \<Rightarrow> dump_album (ce_net C) (hook_of C) client code t w) }"

definition cmd_albumsetname :: "('d, 'z) handler" where
  "cmd_albumsetname C client code argv w =
     do { i \<leftarrow> int_arg argv 0;
          s \<leftarrow> str_arg argv 1;
          (r, w) \<leftarrow> album_setname (ask C) i s w;
          if r \<noteq> 0 then say C client ''511'' ''failed'' w else say C client code ''name changed'' w }"

definition cmd_albumsetartist :: "('d, 'z) handler" where
  "cmd_albumsetartist C client code argv w =
     do { i \<leftarrow> int_arg argv 0;
          artist \<leftarrow> int_arg argv 1;
          (r, w) \<leftarrow> album_setartist (ask C) i artist w;
          if r \<noteq> 0 then say C client ''511'' ''failed'' w else say C client code ''artist changed'' w }"

definition cmd_albumsetyear :: "('d, 'z) handler" where
  "cmd_albumsetyear C client code argv w =
     do { i \<leftarrow> int_arg argv 0;
          year \<leftarrow> int_arg argv 1;
          (r, w) \<leftarrow> album_setyear (ask C) i year w;
          if r \<noteq> 0 then say C client ''511'' ''failed'' w else say C client code ''year changed'' w }"

definition cmd_artistlist :: "('d, 'z) handler" where
  "cmd_artistlist C client code argv w =
     do { (it, w) \<leftarrow> artists_list (ask C) w;
          dump_artists (ce_net C) (hook_of C) client code it w }"

definition cmd_artistsearch :: "('d, 'z) handler" where
  "cmd_artistsearch C client code argv w =
     do { s \<leftarrow> str_arg argv 0;
          (it, w) \<leftarrow> artists_search (ask C) s w;
          dump_artists (ce_net C) (hook_of C) client code it w }"

definition cmd_artiststag :: "('d, 'z) handler" where
  "cmd_artiststag C client code argv w =
     do { i \<leftarrow> int_arg argv 0;
          (it, w) \<leftarrow> artists_tag (ask C) i w;
          dump_artists (ce_net C) (hook_of C) client code it w }"

definition cmd_artistget :: "('d, 'z) handler" where
  "cmd_artistget C client code argv w =
     do { i \<leftarrow> int_arg argv 0;
          (t, w) \<leftarrow> artist_get (ask C) i w;
          (case t of None \<Rightarrow> say C client ''590'' ''failed'' w | Some t \<Rightarrow> dump_artist (ce_net C) (hook_of C) client code t w) }"

definition cmd_artistadd :: "('d, 'z) handler" where
  "cmd_artistadd C client code argv w =
     do { s \<leftarrow> str_arg argv 0;
          (r, w) \<leftarrow> artist_add (ask C) s w;
          if r < 0 then say C client ''511'' ''failed'' w else say C client code (fmt_d r) w }"

definition cmd_artistsetname :: "('d, 'z) handler" where
  "cmd_artistsetname C client code argv w =
     do { i \<leftarrow> int_arg argv 0;
          s \<leftarrow> str_arg argv 1;
          (r, w) \<leftarrow> artist_setname (ask C) i s w;
          if r \<noteq> 0 then say C client ''511'' ''failed'' w else say C client code ''name changed'' w }"

definition cmd_artistmerge :: "('d, 'z) handler" where
  "cmd_artistmerge C client code argv w =
     do { i \<leftarrow> int_arg argv 0;
          j \<leftarrow> int_arg argv 1;
          (r, w) \<leftarrow> artist_merge (ask C) i j w;
          if r \<noteq> 0 then say C client ''511'' ''failed'' w else say C client code (''merged artist '' @ fmt_d i @ '' into '' @ fmt_d j) w }"

definition cmd_artistdel :: "('d, 'z) handler" where
  "cmd_artistdel C client code argv w =
     do { i \<leftarrow> int_arg argv 0;
          (r, w) \<leftarrow> artist_del (ask C) i w;
          if r \<noteq> 0 then say C client ''511'' ''failed'' w else say C client code ''artist deleted'' w }"

definition cmd_sfilterlist :: "('d, 'z) handler" where
  "cmd_sfilterlist C client code argv w =
     do { (it, w) \<leftarrow> sfilters_list (ask C) w;
          dump_sfilters (ce_net C) (hook_of C) client code it w }"

definition cmd_sfilterget :: "('d, 'z) handler" where
  "cmd_sfilterget C client code argv w =
     do { i \<leftarrow> int_arg argv 0;
          (t, w) \<leftarrow> sfilter_get (ask C) i w;
          (case t of None \<Rightarrow> say C client ''511'' ''no such sfilter'' w | Some t \<Rightarrow> dump_sfilter (ce_net C) (hook_of C) client code t w) }"

definition cmd_sfilter2id :: "('d, 'z) handler" where
  "cmd_sfilter2id C client code argv w =
     do { s \<leftarrow> str_arg argv 0;
          (r, w) \<leftarrow> sfilter_id (ask C) s w;
          if r < 0 then say C client ''511'' ''no such sfilter'' w else say C client code (fmt_d r) w }"

definition cmd_sfilteradd :: "('d, 'z) handler" where
  "cmd_sfilteradd C client code argv w =
     do { s \<leftarrow> str_arg argv 0;
          (r, w) \<leftarrow> sfilter_add (ask C) s w;
          if r < 0 then say C client ''511'' ''failed'' w else say C client code (fmt_d r) w }"

definition cmd_sfiltersetname :: "('d, 'z) handler" where
  "cmd_sfiltersetname C client code argv w =
     do { i \<leftarrow> int_arg argv 0;
          s \<leftarrow> str_arg argv 1;
          (r, w) \<leftarrow> sfilter_setname (ask C) i s w;
          if r \<noteq> 0 then say C client ''511'' ''failed'' w else say C client code ''name changed'' w }"

definition cmd_sfiltersetfilter :: "('d, 'z) handler" where
  "cmd_sfiltersetfilter C client code argv w =
     do { i \<leftarrow> int_arg argv 0;
          s \<leftarrow> str_arg argv 1;
          (e, pos, m) \<leftarrow> expr_parse_str s;
          (case e of
             None \<Rightarrow> filter_error C client pos m w
           | Some e \<Rightarrow> do {
               (r, w) \<leftarrow> sfilter_setfilter (ask C) i s w;
               if r \<noteq> 0 then say C client ''511'' ''failed'' w else say C client code ''filter changed'' w }) }"

definition cmd_sfilterdel :: "('d, 'z) handler" where
  "cmd_sfilterdel C client code argv w =
     do { i \<leftarrow> int_arg argv 0;
          (r, w) \<leftarrow> sfilter_del (ask C) i w;
          if r \<noteq> 0 then say C client ''511'' ''failed'' w else say C client code ''deleted'' w }"

text \<open>\<open>cmd_help\<close> ignores the results of the lines it sends; a client whose connection broke is still there.\<close>

fun help_lines :: "('d, 'z) cmdenv \<Rightarrow> ptr \<Rightarrow> string \<Rightarrow> int \<Rightarrow> cmd list \<Rightarrow> ('d, 'z) pstate \<Rightarrow> ('d, 'z) pstate option" where
  "help_lines C client code perm [] w = Some w"
| "help_lines C client code perm (cmd # cmds) w =
     do { c \<leftarrow> heap w client;
          w \<leftarrow> (if cmd_context cmd \<noteq> p_any \<and> cmd_context cmd \<noteq> c_pstate c then Some w
                else if cmd_perm cmd > perm then Some w
                else map_option snd (proto_rline (ce_net C) (hook_of C) client code (cmd_name cmd) w));
          help_lines C client code perm cmds w }"

definition cmd_help :: "('d, 'z) handler" where
  "cmd_help C client code argv w =
     do { c \<leftarrow> heap w client;
          w \<leftarrow> help_lines C client code (case c_user c of None \<Rightarrow> r_any | Some u \<Rightarrow> us_right u) proto_cmds w;
          say C client code [] w }"

text \<open>The column \<open>run\<close> of the table.\<close>

definition cmd_list :: "('d, 'z) cmdenv \<Rightarrow> (string \<times> (ptr \<Rightarrow> string \<Rightarrow> argval list \<Rightarrow> ('d, 'z) pstate \<Rightarrow> ('d, 'z) pstate option)) list" where
  "cmd_list C = [
     (''quit'', cmd_quit C),
     (''user'', cmd_user C),
     (''pass'', cmd_pass C),
     (''clientlist'', cmd_clientlist C),
     (''clientclose'', cmd_clientclose C),
     (''clientcloseuser'', cmd_clientcloseuser C),
     (''userlist'', cmd_userlist C),
     (''userget'', cmd_userget C),
     (''user2id'', cmd_user2id C),
     (''useradd'', cmd_useradd C),
     (''usersetpass'', cmd_usersetpass C),
     (''usersetright'', cmd_usersetright C),
     (''userdel'', cmd_userdel C),
     (''play'', cmd_play C),
     (''stop'', cmd_stop C),
     (''next'', cmd_next C),
     (''prev'', cmd_prev C),
     (''pause'', cmd_pause C),
     (''elapsed'', cmd_elapsed C),
     (''jump'', cmd_jump C),
     (''status'', cmd_status C),
     (''curtrack'', cmd_curtrack C),
     (''gap'', cmd_gap C),
     (''gapset'', cmd_gapset C),
     (''cut'', cmd_cut C),
     (''cutset'', cmd_cutset C),
     (''replaygain'', cmd_replaygain C),
     (''replaygainset'', cmd_replaygainset C),
     (''rgpreamp'', cmd_rgpreamp C),
     (''rgpreampset'', cmd_rgpreampset C),
     (''random'', cmd_random C),
     (''randomset'', cmd_randomset C),
     (''sleep'', cmd_sleep C),
     (''sleepset'', cmd_sleepset C),
     (''trackcount'', cmd_trackcount C),
     (''tracksearch'', cmd_tracksearch C),
     (''tracksearchf'', cmd_tracksearchf C),
     (''tracksalbum'', cmd_tracksalbum C),
     (''tracksartist'', cmd_tracksartist C),
     (''trackget'', cmd_trackget C),
     (''track2id'', cmd_track2id C),
     (''tracksetname'', cmd_tracksetname C),
     (''tracksetartist'', cmd_tracksetartist C),
     (''filter'', cmd_filter C),
     (''filterset'', cmd_filterset C),
     (''filterstat'', cmd_filterstat C),
     (''filtertop'', cmd_filtertop C),
     (''history'', cmd_history C),
     (''historytrack'', cmd_historytrack C),
     (''queuelist'', cmd_queuelist C),
     (''queueget'', cmd_queueget C),
     (''queueadd'', cmd_queueadd C),
     (''queuedel'', cmd_queuedel C),
     (''queueclear'', cmd_queueclear C),
     (''queuesum'', cmd_queuesum C),
     (''taglist'', cmd_taglist C),
     (''tagget'', cmd_tagget C),
     (''tagsartist'', cmd_tagsartist C),
     (''tag2id'', cmd_tag2id C),
     (''tagadd'', cmd_tagadd C),
     (''tagsetname'', cmd_tagsetname C),
     (''tagsetdesc'', cmd_tagsetdesc C),
     (''tagdel'', cmd_tagdel C),
     (''tracktaglist'', cmd_tracktaglist C),
     (''tracktagadd'', cmd_tracktagadd C),
     (''tracktagdel'', cmd_tracktagdel C),
     (''tracktagged'', cmd_tracktagged C),
     (''albumlist'', cmd_albumlist C),
     (''albumsartist'', cmd_albumsartist C),
     (''albumstag'', cmd_albumstag C),
     (''albumsearch'', cmd_albumsearch C),
     (''albumget'', cmd_albumget C),
     (''albumsetname'', cmd_albumsetname C),
     (''albumsetartist'', cmd_albumsetartist C),
     (''albumsetyear'', cmd_albumsetyear C),
     (''artistlist'', cmd_artistlist C),
     (''artistsearch'', cmd_artistsearch C),
     (''artiststag'', cmd_artiststag C),
     (''artistget'', cmd_artistget C),
     (''artistadd'', cmd_artistadd C),
     (''artistsetname'', cmd_artistsetname C),
     (''artistmerge'', cmd_artistmerge C),
     (''artistdel'', cmd_artistdel C),
     (''sfilterlist'', cmd_sfilterlist C),
     (''sfilterget'', cmd_sfilterget C),
     (''sfilter2id'', cmd_sfilter2id C),
     (''sfilteradd'', cmd_sfilteradd C),
     (''sfiltersetname'', cmd_sfiltersetname C),
     (''sfiltersetfilter'', cmd_sfiltersetfilter C),
     (''sfilterdel'', cmd_sfilterdel C),
     (''help'', cmd_help C)]"

definition cmd_run :: "('d, 'z) cmdenv \<Rightarrow> string \<Rightarrow> (ptr \<Rightarrow> string \<Rightarrow> argval list \<Rightarrow> ('d, 'z) pstate \<Rightarrow> ('d, 'z) pstate option) option" where
  "cmd_run C name = map_of (cmd_list C) name"

end
