(* ===== verification/Proto.thy ===== *)
theory Proto
  imports Protocmd
begin

text \<open>
  The protocol (\<open>src/proto.c\<close>): a line of input is split into the name of a command and its arguments, the command
  is looked up for the state of the client, its right is checked, and its handler runs.
\<close>

section \<open>Commands\<close>

definition cmd_find :: "protstate \<Rightarrow> string \<Rightarrow> cmd option" where
  "cmd_find context name =
     find (\<lambda>cmd. \<not> (cmd_context cmd \<noteq> context \<and> cmd_context cmd \<noteq> p_any) \<and> cmd_name cmd = name) proto_cmds"

text \<open>
  The loop of \<open>cmd_parse\<close> over the arguments: the first one that cannot be read, or the values, how many were
  missing, and what is left of the line. Two positions in the line are the same when as much text follows them.
\<close>

fun parse_args :: "cmd_arg list \<Rightarrow> string \<Rightarrow> cmd_arg + argval list \<times> nat \<times> string" where
  "parse_args [] go = Inr ([], 0, go)"
| "parse_args (arg # args) go =
     (let go = dropWhile space go
      in if go = [] then map_sum id (\<lambda>(argv, missing, rest). (argv, missing + 1, rest)) (parse_args args go)
         else case cmd_arg_parse arg go of (data, e) \<Rightarrow>
           if e = go \<or> e \<noteq> [] \<and> \<not> space (hd e) then Inl arg
           else map_sum id (\<lambda>(argv, missing, rest). (data # argv, missing, rest)) (parse_args args e))"

text \<open>\<open>cmd_arg_free\<close>, which runs at the end in every case, only frees the values.\<close>

definition cmd_parse :: "('d, 'z) cmdenv \<Rightarrow> ptr \<Rightarrow> cmd \<Rightarrow> string \<Rightarrow> ('d, 'z) pstate \<Rightarrow> (int \<times> ('d, 'z) pstate) option" where
  "cmd_parse C client cmd line w =
     (case parse_args (cmd_args cmd) line of
        Inl arg \<Rightarrow> do { w \<leftarrow> say C client ''501'' (''invalid data for argument '' @ cmd_arg_name arg) w; Some (- 1, w) }
      | Inr (argv, missing, rest) \<Rightarrow>
          if rest \<noteq> [] then do { w \<leftarrow> say C client ''501'' ''too many arguments'' w; Some (- 1, w) }
          else if missing \<noteq> 0 then do { w \<leftarrow> say C client ''501'' ''missing arguments'' w; Some (- 1, w) }
          else do {
            run \<leftarrow> cmd_run C (cmd_name cmd);
            w \<leftarrow> run client (cmd_code cmd) argv w;
            Some (0, w) })"

section \<open>Lines\<close>

definition proto_line :: "('d, 'z) cmdenv \<Rightarrow> ptr \<Rightarrow> string \<Rightarrow> ('d, 'z) pstate \<Rightarrow> ('d, 'z) pstate option" where
  "proto_line C client line w =
     (case val_name (dropWhile space line) of
        (None, e) \<Rightarrow> say C client ''501'' ''invalid command'' w
      | (Some scmd, line) \<Rightarrow> do {
          c \<leftarrow> heap w client;
          (case cmd_find (c_pstate c) scmd of
             None \<Rightarrow> say C client ''501'' ''no such command'' w
           | Some cmd \<Rightarrow>
               let perm = (case c_user c of None \<Rightarrow> r_any | Some u \<Rightarrow> us_right u)
               in if perm < cmd_perm cmd then say C client ''501'' ''insufficient karma'' w
                  else map_option snd (cmd_parse C client cmd line w)) })"

partial_function (option) proto_input :: "('d, 'z) cmdenv \<Rightarrow> ptr \<Rightarrow> ('d, 'z) pstate \<Rightarrow> ('d, 'z) pstate option" where
  "proto_input C client w =
     do { (line, w) \<leftarrow> client_getline (ce_net C) (hook_of C) client w;
          (case line of
             None \<Rightarrow> Some w
           | Some line \<Rightarrow> do { w \<leftarrow> proto_line C client line w; proto_input C client w }) }"

declare proto_input.simps [code]

section \<open>The hooks\<close>

text \<open>
  \<open>proto_init\<close> sets the hooks of the other parts. The two for connections are \<open>proto_newclient\<close> and
  \<open>client_hook\<close>; of the environment \<open>proto_bcast_sleep\<close> uses only the time.
\<close>

definition proto_init :: "('d, 'z) cmdenv \<Rightarrow> ('d, 'z) cmdenv" where
  "proto_init C =
     C\<lparr>ce_env := (ce_env C)\<lparr>pe_hooks :=
         \<lparr>player_func_resume = Some (proto_bcast_player_resume (ce_net C) (hook_of C)),
          player_func_newtrack = Some (proto_bcast_player_newtrack (ce_net C) (hook_of C)),
          player_func_pause = Some (proto_bcast_player_pause (ce_net C) (hook_of C)),
          player_func_stop = Some (proto_bcast_player_stop (ce_net C) (hook_of C)),
          player_func_random = Some (proto_bcast_player_random (ce_net C) (hook_of C)),
          player_func_elapsed = Some (proto_bcast_player_elapsed (ce_net C) (hook_of C)),
          queue_func_fetch = Some (proto_bcast_queue_fetch (ce_net C) (hook_of C)),
          sleep_func_set = Some (proto_bcast_sleep (ce_net C) (hook_of C) (ce_env C))\<rparr>\<rparr>,
       random_func_filter := Some (proto_bcast_filter (ce_net C) (hook_of C)),
       queue_func_add := Some (proto_bcast_queue_add (ce_net C) (hook_of C)),
       queue_func_del := Some (proto_bcast_queue_del (ce_net C) (hook_of C)),
       queue_func_clear := Some (proto_bcast_queue_clear (ce_net C) (hook_of C)),
       tag_func_changed := Some (proto_bcast_tag_changed (ce_net C) (hook_of C)),
       tag_func_del := Some (proto_bcast_tag_del (ce_net C) (hook_of C))\<rparr>"

section \<open>Induction over the lines of a packet\<close>

lemma proto_input_induct [consumes 1, case_names step]:
  assumes "proto_input C client w = Some y"
    and "\<And>go C client w y. (\<And>C client w y. go C client w = Some y \<Longrightarrow> P C client w y) \<Longrightarrow>
      do { (line, w) \<leftarrow> client_getline (ce_net C) (hook_of C) client w;
           (case line of None \<Rightarrow> Some w | Some line \<Rightarrow> do { w \<leftarrow> proto_line C client line w; go C client w }) } = Some y \<Longrightarrow>
      P C client w y"
  shows "P C client w y"
  using assms(1) by (rule proto_input.raw_induct [rotated]) (fact assms(2))

end
