(* ===== verification/Daemon.thy ===== *)
theory Daemon
  imports Proto
begin

text \<open>
  The program as a whole (\<open>src/main.c\<close>): how \<open>main\<close> connects the parts, brings them up, runs the main loop and takes
  them down; and \<open>player_init\<close> of \<open>src/player.c\<close>. Libraries and the kernel are the record \<open>sys\<close>, they act on the
  external part of the state only. The command line, the signal handlers and the exit status are in \<open>Program\<close>.
\<close>

section \<open>The parts together\<close>

text \<open>
  What \<open>player_init\<close> needs of GStreamer: making an element, the output pipeline from its description, the pipeline
  with its watch, and linking the elements. The lock file is the library liblockfile. \<open>s_fmt_f\<close> and \<open>s_invalid_match\<close> are conversions of \<open>printf\<close>.
\<close>

record 'd sys =
  s_pg :: "'d libpq"
  s_net :: "'d netlib"
  s_gst :: "'d gst"
  s_make :: "string \<Rightarrow> 'd \<Rightarrow> bool \<times> 'd"
  s_parse_bin :: "string \<Rightarrow> 'd \<Rightarrow> bool \<times> 'd"
  s_pipeline :: "'d \<Rightarrow> bool \<times> 'd"
  s_link :: "'d \<Rightarrow> bool \<times> 'd"
  s_lockfile_check :: "string \<Rightarrow> 'd \<Rightarrow> bool \<times> 'd"
  s_lockfile_create :: "string \<Rightarrow> 'd \<Rightarrow> bool \<times> 'd"
  s_lockfile_remove :: "string \<Rightarrow> 'd \<Rightarrow> 'd"
  s_foreground :: bool
  s_daemon :: "'d \<Rightarrow> bool \<times> 'd"
  s_opens :: "string \<Rightarrow> 'd \<Rightarrow> bool"
  s_time :: "'d \<Rightarrow> int \<times> 'd"
  s_random :: "'d \<Rightarrow> int \<times> 'd"
  s_crypt :: "string \<Rightarrow> string \<Rightarrow> string option"
  s_opt :: opts
  s_fmt_f :: "double \<Rightarrow> string"
  s_invalid_match :: "valfield \<Rightarrow> valop \<Rightarrow> valtype \<Rightarrow> string"

definition outside :: "('d \<Rightarrow> 'a \<times> 'd) \<Rightarrow> ('d, 'z) pstate \<Rightarrow> 'a \<times> ('d, 'z) pstate" where
  "outside f w = (case f (ext w) of (x, d) \<Rightarrow> (x, w\<lparr>ext := d\<rparr>))"

definition libc_of :: "'d sys \<Rightarrow> ('d, 'z) pstate libc" where
  "libc_of S = \<lparr>c_random = outside (s_random S), c_time = outside (s_time S), c_crypt = s_crypt S\<rparr>"

text \<open>
  \<open>db_connected\<close> runs while \<open>db_conn\<close> is in progress, so its queries do not reconnect (\<open>db_conn_reentry\<close>). The
  second argument is the value of \<open>random_func_filter\<close>.
\<close>

definition db_connected :: "'d sys \<Rightarrow> ('d, 'z) pstate notify \<Rightarrow> ('d, 'z) pstate \<Rightarrow> ('d, 'z) pstate option" where
  "db_connected S hook w =
     do { let oldfilter = random_filter w;
          (r, w) \<leftarrow> random_init (db_vquery no_conn (s_pg S)) w;
          (r, w) \<leftarrow> random_setfilter (db_vquery no_conn (s_pg S)) hook oldfilter w;
          Some w }"

definition with_db :: "'d sys \<Rightarrow> ('d, 'z) cmdenv \<Rightarrow> ('d, 'z) cmdenv" where
  "with_db S C =
     C\<lparr>ce_env := (ce_env C)\<lparr>pe_query := db_query (s_pg S) (s_opt S) (Some (db_connected S (random_func_filter C)))\<rparr>\<rparr>"

text \<open>The environment before \<open>proto_init\<close>, without hooks, and the one after it.\<close>

definition bare :: "'d sys \<Rightarrow> ('d, 'z) cmdenv" where
  "bare S = with_db S
     \<lparr>ce_net = s_net S,
      ce_env = \<lparr>pe_query = \<lambda>q w. None, pe_libc = libc_of S, pe_opens = \<lambda>f w. s_opens S f (ext w), pe_gst = s_gst S,
        pe_opt = s_opt S,
        pe_hooks = \<lparr>player_func_resume = None, player_func_newtrack = None, player_func_pause = None, player_func_stop = None,
          player_func_random = None, player_func_elapsed = None, queue_func_fetch = None, sleep_func_set = None\<rparr>\<rparr>,
      random_func_filter = None, queue_func_add = None, queue_func_del = None, queue_func_clear = None,
      tag_func_changed = None, tag_func_del = None, ce_fmt_f = s_fmt_f S, ce_invalid_match = s_invalid_match S\<rparr>"

definition serving :: "'d sys \<Rightarrow> ('d, 'z) cmdenv" where
  "serving S = with_db S (proto_init (bare S))"

section \<open>Start\<close>

text \<open>\<open>player_init\<close>: whether it returns, it leaves the program when an element cannot be made.\<close>

fun player_make :: "'d sys \<Rightarrow> string list \<Rightarrow> 'd \<Rightarrow> bool \<times> 'd" where
  "player_make S [] d = (True, d)"
| "player_make S (e # es) d = (case s_make S e d of (ok, d) \<Rightarrow> if ok then player_make S es d else (False, d))"

definition player_init :: "'d sys \<Rightarrow> ('d, 'z) pstate \<Rightarrow> bool \<times> ('d, 'z) pstate" where
  "player_init S w =
     (case outside (player_make S [''filesrc'', ''mad'', ''audioresample'', ''audioconvert'', ''volume'']) w of (ok, w) \<Rightarrow>
        if \<not> ok then (False, w)
        else case outside (s_parse_bin S (opt_pipeline (s_opt S))) w of (ok, w) \<Rightarrow>
          if \<not> ok then (False, w)
          else case outside (s_pipeline S) w of (ok, w) \<Rightarrow>
            if \<not> ok then (False, w)
            else case outside (s_link S) w of (linked, w) \<Rightarrow>
              (True, snd (outside (g_set_state (s_gst S) GST_STATE_READY) w)))"

definition load_filter :: "'d sys \<Rightarrow> ('d, 'z) cmdenv \<Rightarrow> ('d, 'z) pstate \<Rightarrow> ('d, 'z) pstate option" where
  "load_filter S C w =
     do { (e, w) \<leftarrow>
            (if opt_sfilter (s_opt S) = [] then Some (None, w)
             else do {
               (i, w) \<leftarrow> sfilter_id (ask C) (opt_sfilter (s_opt S)) w;
               if i = - 1 then Some (None, w)
               else do {
                 (sf, w) \<leftarrow> sfilter_get (ask C) i w;
                 (case sf of
                    None \<Rightarrow> Some (None, w)
                  | Some sf \<Rightarrow>
                      if sf_filter sf = [] then Some (None, w)
                      else do { (e, pos, m) \<leftarrow> expr_parse_str (sf_filter sf); Some (e, w) }) } });
          (r, w) \<leftarrow> random_setfilter (ask C) (random_func_filter C) e w;
          Some w }"

text \<open>The array of 4096 bytes of \<open>save_filter\<close> holds a string once \<open>expr_fmt\<close> has run.\<close>

definition save_filter :: "'d sys \<Rightarrow> ('d, 'z) cmdenv \<Rightarrow> ('d, 'z) pstate \<Rightarrow> ('d, 'z) pstate option" where
  "save_filter S C w =
     (if opt_sfilter (s_opt S) = [] then Some w
      else do {
        (i, w) \<leftarrow> sfilter_id (ask C) (opt_sfilter (s_opt S)) w;
        if i = - 1 then Some w
        else case random_filter w of
          None \<Rightarrow> Some w
        | Some e \<Rightarrow> do {
            (n, m) \<leftarrow> expr_fmt (replicate 4096 NUL) 0 4096 e;
            (r, w) \<leftarrow> sfilter_setfilter (ask C) i (cstr m 0) w;
            Some w } })"

text \<open>
  \<open>main\<close> up to the main loop: whether it gets there. The first test is that no valid lock file exists. The results
  of \<open>db_init\<close> and of the setters are ignored; up to \<open>proto_init\<close> there are no hooks.
\<close>

definition player_defaults :: "'d sys \<Rightarrow> ('d, 'z) pstate \<Rightarrow> ('d, 'z) pstate option" where
  "player_defaults S w =
     do { let w = snd (player_setcut (opt_cut (s_opt S)) w);
          (r, w) \<leftarrow> player_setrgtype (ce_env (bare S)) (opt_rgtype (s_opt S)) w;
          (r, w) \<leftarrow> player_setrgpreamp (ce_env (bare S)) (opt_rgpreamp (s_opt S)) w;
          let w = snd (player_setgap (opt_gap (s_opt S)) w);
          (r, w) \<leftarrow> player_setrandom (ce_env (bare S)) (opt_random (s_opt S)) w;
          Some w }"

definition main_parts :: "'d sys \<Rightarrow> ('d, 'z) pstate \<Rightarrow> (bool \<times> ('d, 'z) pstate) option" where
  "main_parts S w =
     do { (r, w) \<leftarrow> db_init (s_pg S) (s_opt S) (Some (db_connected S None)) w;
          (case player_init S w of (ok, w) \<Rightarrow>
             if \<not> ok then Some (False, w)
             else do {
               w \<leftarrow> player_defaults S w;
               w \<leftarrow> load_filter S (serving S) w;
               w \<leftarrow> (if opt_start (s_opt S) \<noteq> 0
                     then do { (r, w) \<leftarrow> player_start (ce_env (serving S)) w; Some w } else Some w);
               Some (True, w) }) }"

definition main_init :: "'d sys \<Rightarrow> ('d, 'z) pstate \<Rightarrow> (bool \<times> ('d, 'z) pstate) option" where
  "main_init S w =
     (case outside (s_lockfile_check S (opt_pidfile (s_opt S))) w of (free, w) \<Rightarrow>
        if \<not> free then Some (False, w)
        else do {
          (r, w) \<leftarrow> clients_init (s_net S) (opt_port (s_opt S)) w;
          if r \<noteq> 0 then Some (False, w)
          else case outside (if s_foreground S then Pair True else s_daemon S) w of (detached, w) \<Rightarrow>
            if \<not> detached then Some (False, w)
            else case outside (s_lockfile_create S (opt_pidfile (s_opt S))) w of (locked, w) \<Rightarrow>
              if \<not> locked then Some (False, w) else main_parts S w })"

section \<open>The main loop\<close>

text \<open>
  The callbacks glib may run: input or another condition on the socket for new connections or on the one of a
  client, a message of the pipeline, and the three timers.
\<close>

datatype event = Ev_accept bool | Ev_client bool ptr | Ev_bus gst_message | Ev_timer timer

definition dispatch :: "'d sys \<Rightarrow> event \<Rightarrow> ('d, 'z) pstate \<Rightarrow> ('d, 'z) pstate option" where
  "dispatch S ev w =
     (let C = serving S; N = s_net S
      in case ev of
           Ev_accept has_in \<Rightarrow>
             map_option snd (client_accept N (hook_of C) (Some (proto_newclient N (hook_of C))) has_in w)
         | Ev_client has_in p \<Rightarrow> map_option snd (client_read N (hook_of C) (proto_input C) has_in p w)
         | Ev_bus message \<Rightarrow> cb_bus (ce_env C) message w
         | Ev_timer cb_elapsed_timeout \<Rightarrow> map_option snd (elapsed_timeout (ce_env C) w)
         | Ev_timer cb_gap_timeout \<Rightarrow> gap_timeout (ce_env C) w
         | Ev_timer sleep_event \<Rightarrow> sleep_timeout (ce_env C) w)"

text \<open>States at the top of the main loop. Between two callbacks anything may happen outside the program.\<close>

inductive running :: "'d sys \<Rightarrow> ('d, 'z) pstate \<Rightarrow> ('d, 'z) pstate \<Rightarrow> bool" for S w0 where
  up: "main_init S w0 = Some (True, w) \<Longrightarrow> running S w0 w"
| event: "running S w0 w \<Longrightarrow> dispatch S ev (w\<lparr>ext := d\<rparr>) = Some w' \<Longrightarrow> running S w0 w'"

section \<open>Shutdown\<close>

definition main_done :: "'d sys \<Rightarrow> ('d, 'z) pstate \<Rightarrow> ('d, 'z) pstate option" where
  "main_done S w =
     do { w \<leftarrow> save_filter S (serving S) w;
          w \<leftarrow> player_done (ce_env (serving S)) w;
          w \<leftarrow> clients_done (s_net S) (hook_of (serving S)) w;
          let w = db_done (s_pg S) w;
          Some (w\<lparr>ext := s_lockfile_remove S (opt_pidfile (s_opt S)) (ext w)\<rparr>) }"

end
