(* ===== verification/Serverframe.thy ===== *)
theory Serverframe
  imports Netframe Daemon
begin

text \<open>
  What the program keeps of the connections. A property of the state that depends only on which clients there are,
  and that sending, broadcasting and closing keep, is kept by the player, by all broadcasts, and by every handler
  that neither takes references to clients nor is part of logging in (\<open>server_frame\<close>). A property that depends on the
  clients only through their login and survives the loss of clients is kept by the others as well
  (\<open>Sessionframe\<close>).
\<close>

locale state_frame =
  fixes I :: "('d, 'z) pstate \<Rightarrow> bool"
  assumes elsewhere: "I w \<Longrightarrow> heap w' = heap w \<Longrightarrow> fresh w' = fresh w \<Longrightarrow> clients w' = clients w \<Longrightarrow> I w'"
begin

lemma updates:
  assumes "I w"
  shows "I (w\<lparr>curtrack := a\<rparr>)" "I (w\<lparr>curuid := i\<rparr>)" "I (w\<lparr>gap_id := i\<rparr>)" "I (w\<lparr>elapsed_id := i\<rparr>)" "I (w\<lparr>do_random := i\<rparr>)"
    "I (w\<lparr>rgtype := r\<rparr>)" "I (w\<lparr>rgpreamp := x\<rparr>)" "I (w\<lparr>gap := i\<rparr>)" "I (w\<lparr>cut := i\<rparr>)" "I (w\<lparr>sleep_at := i\<rparr>)"
    "I (w\<lparr>sleep_id := i\<rparr>)" "I (w\<lparr>rfilter := f\<rparr>)" "I (w\<lparr>ext := d\<rparr>)" "I (w\<lparr>dbcon := b\<rparr>)" "I (w\<lparr>inprogress := k\<rparr>)"
  by (rule elsewhere [OF assms]; simp)+

lemma setfilter_kp:
  assumes "db_frame I query" "keeps_notify I h" "I w"
  shows "kp I (random_setfilter query h f w)"
  unfolding random_setfilter_def setfilter_done_def Let_def
  by (rule assms db_frame.fill_cache_kp [OF assms(1)] db_frame.statements [OF assms(1)] db_frame.query [OF assms(1)] updates
      notify_call_keeps k_intros | assumption)+

end

section \<open>The parts of a running program\<close>

definition hooks_keep :: "(('d, 'z) pstate \<Rightarrow> bool) \<Rightarrow> ('d, 'z) cmdenv \<Rightarrow> bool" where
  "hooks_keep I C \<longleftrightarrow>
     (let h = pe_hooks (ce_env C)
      in keeps_notify I (player_func_resume h) \<and> keeps_notify I (player_func_newtrack h) \<and> keeps_notify I (player_func_pause h) \<and>
         keeps_notify I (player_func_stop h) \<and> keeps_notify I (player_func_random h) \<and> keeps_hook I (player_func_elapsed h) \<and>
         keeps_hook I (queue_func_fetch h) \<and> keeps_notify I (sleep_func_set h)) \<and>
     keeps_notify I (random_func_filter C) \<and> keeps_hook I (queue_func_add C) \<and> keeps_hook I (queue_func_del C) \<and>
     keeps_notify I (queue_func_clear C) \<and> keeps_hook I (tag_func_changed C) \<and> keeps_hook I (tag_func_del C)"

locale server_frame = state_frame I + wire_frame I "ce_net C" "hook_of C" + db_libc_frame I "pe_query (ce_env C)" "pe_libc (ce_env C)"
  for I :: "('d, 'z) pstate \<Rightarrow> bool" and C :: "('d, 'z) cmdenv" +
  assumes hooks: "hooks_keep I C"
begin

lemma hook_laws:
  "keeps_notify I (player_func_resume (pe_hooks (ce_env C)))" "keeps_notify I (player_func_newtrack (pe_hooks (ce_env C)))"
  "keeps_notify I (player_func_pause (pe_hooks (ce_env C)))" "keeps_notify I (player_func_stop (pe_hooks (ce_env C)))"
  "keeps_notify I (player_func_random (pe_hooks (ce_env C)))" "keeps_hook I (player_func_elapsed (pe_hooks (ce_env C)))"
  "keeps_hook I (queue_func_fetch (pe_hooks (ce_env C)))" "keeps_notify I (sleep_func_set (pe_hooks (ce_env C)))"
  "keeps_notify I (random_func_filter C)" "keeps_hook I (queue_func_add C)" "keeps_hook I (queue_func_del C)"
  "keeps_notify I (queue_func_clear C)" "keeps_hook I (tag_func_changed C)" "keeps_hook I (tag_func_del C)"
  using hooks by (simp_all add: hooks_keep_def Let_def)

lemma steps:
  assumes "I w"
  shows "I (snd (set_state E s w))" "I (source_remove E i w)" "I (gap_finish E w)" "I (elapsed_add E w)" "I (elapsed_del E w)"
  by (rule elsewhere [OF assms];
      simp add: set_state_def source_remove_def gap_finish_def elapsed_add_def elapsed_del_def split: prod.split)+

lemma set_state_keeps: "set_state E s w = (ok, w') \<Longrightarrow> I w \<Longrightarrow> I w'"
  using steps(1) [of w E s] by simp

section \<open>The player\<close>

lemmas env_rules = query statements hook_laws updates steps notify_call_keeps

lemma getnext_queue_keeps:
  assumes "I w"
  shows "kp I (getnext_queue (ce_env C) w)"
proof -
  have "E = ce_env C \<Longrightarrow> I w \<Longrightarrow> I (snd r)" if "getnext_queue E w = Some r" for E w r
    using that
  proof (induction rule: getnext_queue.raw_induct [rotated, consumes 1, case_names 1])
    case (1 go E w r)
    have go: "kp I (go (ce_env C) w)" if "I w" for w using "1.IH" [of "ce_env C" w] that by (auto simp: kp_def)
    have "kp I (do { (q, w) \<leftarrow> queue_fetch (pe_query (ce_env C)) (queue_func_fetch (pe_hooks (ce_env C))) w;
          (case q of None \<Rightarrow> Some (False, w)
           | Some q \<Rightarrow> do {
               let w = w\<lparr>curtrack := Track (qu_track q), curuid := us_id (qu_user q)\<rparr>;
               (ok, w) \<leftarrow> track_exists (pe_query (ce_env C)) (pe_opens (ce_env C)) (pe_opt (ce_env C)) (qu_track q) w;
               if ok then Some (True, w) else go (ce_env C) (w\<lparr>curtrack := Dangling\<rparr>) }) })"
      unfolding Let_def using 1(4)
      by - (rule queue_fetch_keeps track_exists_keeps go env_rules k_intros | assumption)+
    with 1(2) [unfolded 1(3)] show ?case by (cases r) (simp add: kp_def)
  qed
  from this [OF _ refl assms] show ?thesis by (auto simp: kp_def)
qed

lemma getnext_random_keeps:
  assumes "I w"
  shows "ks I (getnext_random (ce_env C) w)"
proof -
  have "E = ce_env C \<Longrightarrow> I w \<Longrightarrow> I r" if "getnext_random E w = Some r" for E w r
    using that
  proof (induction rule: getnext_random.raw_induct [rotated, consumes 1, case_names 1])
    case (1 go E w r)
    have go: "ks I (go (ce_env C) w)" if "I w" for w using "1.IH" [of "ce_env C" w] that by (auto simp: ks_def)
    have "ks I (do { (t, w) \<leftarrow> random_fetch (pe_query (ce_env C)) (pe_libc (ce_env C)) w;
          (case t of None \<Rightarrow> Some (w\<lparr>curtrack := Null\<rparr>)
           | Some t \<Rightarrow> do {
               let w = w\<lparr>curtrack := Track t\<rparr>;
               (ok, w) \<leftarrow> track_exists (pe_query (ce_env C)) (pe_opens (ce_env C)) (pe_opt (ce_env C)) t w;
               if ok then Some w else go (ce_env C) (w\<lparr>curtrack := Dangling\<rparr>) }) })"
      unfolding Let_def using 1(4)
      by - (rule random_fetch_keeps track_exists_keeps go env_rules k_intros | assumption)+
    then show ?case using 1(2,3) by (auto simp: ks_def)
  qed
  from this [OF _ refl assms] show ?thesis by (auto simp: ks_def)
qed

lemma db_getnext_keeps: "I w \<Longrightarrow> ks I (db_getnext (ce_env C) w)"
  unfolding db_getnext_def Let_def
  by (rule getnext_queue_keeps getnext_random_keeps env_rules k_intros | assumption)+

lemma db_finish_keeps: "I w \<Longrightarrow> ks I (db_finish (ce_env C) completed w)"
  unfolding db_finish_def
  by (rule history_add_keeps track_tagadd_keeps env_rules k_intros | assumption)+

lemma bp_volume_keeps: "I w \<Longrightarrow> kp I (bp_volume (ce_env C) w)"
  unfolding bp_volume_def by (rule env_rules k_intros | assumption)+

lemma bp_seek_keeps: "I w \<Longrightarrow> kp I (bp_seek (ce_env C) pos w)"
  unfolding bp_seek_def Let_def by (rule env_rules k_intros | assumption)+

lemma bp_start_keeps: "I w \<Longrightarrow> kp I (bp_start (ce_env C) w)"
  unfolding bp_start_def Let_def
  by (rule db_getnext_keeps bp_volume_keeps bp_seek_keeps db_finish_keeps env_rules k_intros | assumption | erule (1) set_state_keeps)+

lemma bp_finish_keeps: "I w \<Longrightarrow> ks I (bp_finish (ce_env C) complete w)"
  unfolding bp_finish_def Let_def
  by (rule k_prod, drule set_state_keeps) (simp_all add: steps db_finish_keeps)

lemma bp_switch_keeps: "I w \<Longrightarrow> kp I (bp_resume (ce_env C) w)" "I w \<Longrightarrow> kp I (bp_pause (ce_env C) w)"
  unfolding bp_resume_def bp_pause_def Let_def
  by (rule bp_finish_keeps env_rules k_intros | assumption | erule (1) set_state_keeps)+

lemmas player_rules = bp_start_keeps bp_finish_keeps bp_switch_keeps bp_seek_keeps bp_volume_keeps env_rules k_intros

lemma gap_timeout_keeps: "I w \<Longrightarrow> ks I (gap_timeout (ce_env C) w)"
  unfolding gap_timeout_def by (rule player_rules | assumption)+

lemma elapsed_timeout_keeps: "I w \<Longrightarrow> kp I (elapsed_timeout (ce_env C) w)"
  unfolding elapsed_timeout_def Let_def by (rule hook_keeps player_rules | assumption)+

lemma cb_bus_keeps: "I w \<Longrightarrow> ks I (cb_bus (ce_env C) message w)"
  unfolding cb_bus_def Let_def by (cases message; simp only: gst_message.case) (rule player_rules | assumption)+

lemma player_keeps:
  assumes "I w"
  shows "kp I (player_setrgpreamp (ce_env C) x w)" "kp I (player_setrgtype (ce_env C) r w)"
    "kp I (player_setrandom (ce_env C) i w)" "kp I (player_jump (ce_env C) i w)" "kp I (player_pause (ce_env C) w)"
    "kp I (player_next (ce_env C) w)" "kp I (player_stop (ce_env C) w)"
  unfolding player_setrgpreamp_def player_setrgtype_def player_setrandom_def player_jump_def player_pause_def player_next_def
    player_stop_def Let_def
  by (rule assms player_rules | assumption)+

lemma player_start_keeps: "I w \<Longrightarrow> kp I (player_start (ce_env C) w)"
  unfolding player_start_def by (cases "bp_status (ce_env C) w"; simp only: playstatus.case) (rule player_rules | assumption)+

lemma player_done_keeps: "I w \<Longrightarrow> ks I (player_done (ce_env C) w)"
  unfolding player_done_def by (rule player_keeps player_rules | assumption)+

lemma sleep_keeps: "I w \<Longrightarrow> ks I (sleep_timeout (ce_env C) w)" "I w \<Longrightarrow> ks I (sleep_in (ce_env C) sek w)"
proof -
  assume i: "I w"
  show "ks I (sleep_timeout (ce_env C) w)" unfolding sleep_timeout_def by (rule i player_keeps player_rules | assumption)+
  have t: "I (case g_timeout_add (pe_gst (ce_env C)) x sleep_event (ext w) of (i, d) \<Rightarrow>
      (case c_time (pe_libc (ce_env C)) (w\<lparr>ext := d, sleep_id := i\<rparr>) of (now, w) \<Rightarrow> w\<lparr>sleep_at := now + sek\<rparr>))" if "I w" for w x
  proof -
    obtain i d where g: "g_timeout_add (pe_gst (ce_env C)) x sleep_event (ext w) = (i, d)" by fastforce
    obtain now w2 where c: "c_time (pe_libc (ce_env C)) (w\<lparr>ext := d, sleep_id := i\<rparr>) = (now, w2)" by fastforce
    have "I (w\<lparr>ext := d, sleep_id := i\<rparr>)" by (rule updates that)+
    then have "I w2" by (rule time [OF _ c])
    with g c show ?thesis by (simp add: updates)
  qed
  have r: "ks I (if old \<noteq> sleep_at v then notify (sleep_func_set (pe_hooks (ce_env C))) v else Some v)" if "I v" for old v
    by (rule k_if notify_call_keeps k_Some hook_laws that)+
  have u: "I (if b then x else y)" if "I x" "I y" for b x y using that by simp
  show "ks I (sleep_in (ce_env C) sek w)"
    unfolding sleep_in_def Let_def by (rule r u t updates steps i)+
qed

lemma sleep_remain_keeps: "I w \<Longrightarrow> sleep_remain (ce_env C) w = (r, w') \<Longrightarrow> I w'"
  by (auto simp: sleep_remain_def intro: time split: if_splits prod.splits)

section \<open>Filters\<close>

lemma setfilter_keeps: "keeps_notify I h \<Longrightarrow> I w \<Longrightarrow> kp I (random_setfilter (pe_query (ce_env C)) h f w)"
  by (rule setfilter_kp [OF db_frame_axioms])

section \<open>Handlers\<close>

lemma say_keeps: "I w \<Longrightarrow> ks I (say C p code body w)"
  by (rule reply_ks)

lemma filter_error_keeps: "I w \<Longrightarrow> ks I (filter_error C p pos m w)"
  unfolding filter_error_def by (rule say_keeps)

lemmas handler_rules = say_keeps filter_error_keeps close_keeps player_reply_ks env_rules k_intros

lemma quit_keeps: "I w \<Longrightarrow> ks I (cmd_quit C p code argv w)"
  unfolding cmd_quit_def by (rule handler_rules | assumption)+

lemma player_handlers:
  assumes "I w"
  shows "ks I (cmd_play C p code argv w)" "ks I (cmd_stop C p code argv w)" "ks I (cmd_next C p code argv w)"
    "ks I (cmd_pause C p code argv w)" "ks I (cmd_jump C p code argv w)" "ks I (cmd_elapsed C p code argv w)"
    "ks I (cmd_status C p code argv w)" "ks I (cmd_gap C p code argv w)" "ks I (cmd_cut C p code argv w)"
    "ks I (cmd_replaygain C p code argv w)" "ks I (cmd_replaygainset C p code argv w)" "ks I (cmd_rgpreamp C p code argv w)"
    "ks I (cmd_rgpreampset C p code argv w)" "ks I (cmd_random C p code argv w)" "ks I (cmd_randomset C p code argv w)"
    "ks I (cmd_sleepset C p code argv w)"
  unfolding cmd_play_def cmd_stop_def cmd_next_def cmd_pause_def cmd_jump_def cmd_elapsed_def cmd_status_def cmd_gap_def cmd_cut_def
    cmd_replaygain_def cmd_replaygainset_def cmd_rgpreamp_def cmd_rgpreampset_def cmd_random_def cmd_randomset_def cmd_sleepset_def
  by (rule assms player_start_keeps player_keeps sleep_keeps handler_rules | assumption)+

lemma setting_handlers:
  assumes "I w"
  shows "ks I (cmd_gapset C p code argv w)" "ks I (cmd_cutset C p code argv w)" "ks I (cmd_prev C p code argv w)"
    "ks I (cmd_curtrack C p code argv w)"
  unfolding cmd_gapset_def cmd_cutset_def cmd_prev_def cmd_curtrack_def player_setgap_def player_setcut_def player_prev_def snd_conv
    prod.case dump_track_def
  by (rule assms dump_one_ks mktrack_kp handler_rules | assumption)+

lemma sleep_handler: "I w \<Longrightarrow> ks I (cmd_sleep C p code argv w)"
  unfolding cmd_sleep_def by (rule k_prod say_keeps | erule (1) sleep_remain_keeps)+

lemma statement_handlers:
  assumes "I w"
  shows "ks I (cmd_user2id C p code argv w)" "ks I (cmd_useradd C p code argv w)" "ks I (cmd_usersetpass C p code argv w)"
    "ks I (cmd_usersetright C p code argv w)" "ks I (cmd_userdel C p code argv w)" "ks I (cmd_trackcount C p code argv w)"
    "ks I (cmd_track2id C p code argv w)" "ks I (cmd_tracksetname C p code argv w)" "ks I (cmd_tracksetartist C p code argv w)"
    "ks I (cmd_filterstat C p code argv w)" "ks I (cmd_queuesum C p code argv w)" "ks I (cmd_tag2id C p code argv w)"
    "ks I (cmd_tracktagadd C p code argv w)" "ks I (cmd_tracktagdel C p code argv w)" "ks I (cmd_tracktagged C p code argv w)"
    "ks I (cmd_albumsetname C p code argv w)" "ks I (cmd_albumsetartist C p code argv w)" "ks I (cmd_albumsetyear C p code argv w)"
    "ks I (cmd_artistadd C p code argv w)" "ks I (cmd_artistsetname C p code argv w)" "ks I (cmd_artistmerge C p code argv w)"
    "ks I (cmd_artistdel C p code argv w)" "ks I (cmd_sfilter2id C p code argv w)" "ks I (cmd_sfilteradd C p code argv w)"
    "ks I (cmd_sfiltersetname C p code argv w)" "ks I (cmd_sfilterdel C p code argv w)"
  unfolding cmd_user2id_def cmd_useradd_def cmd_usersetpass_def cmd_usersetright_def cmd_userdel_def cmd_trackcount_def
    cmd_track2id_def cmd_tracksetname_def cmd_tracksetartist_def cmd_filterstat_def cmd_queuesum_def cmd_tag2id_def
    cmd_tracktagadd_def cmd_tracktagdel_def cmd_tracktagged_def cmd_albumsetname_def cmd_albumsetartist_def cmd_albumsetyear_def
    cmd_artistadd_def cmd_artistsetname_def cmd_artistmerge_def cmd_artistdel_def cmd_sfilter2id_def cmd_sfilteradd_def
    cmd_sfiltersetname_def cmd_sfilterdel_def
  by (rule assms user_add_keeps user_setpass_keeps track_tagadd_keeps artist_merge_keeps handler_rules | assumption)+

lemma hook_handlers:
  assumes "I w"
  shows "ks I (cmd_queueadd C p code argv w)" "ks I (cmd_queuedel C p code argv w)" "ks I (cmd_queueclear C p code argv w)"
    "ks I (cmd_tagadd C p code argv w)" "ks I (cmd_tagsetname C p code argv w)" "ks I (cmd_tagsetdesc C p code argv w)"
    "ks I (cmd_tagdel C p code argv w)"
  unfolding cmd_queueadd_def cmd_queuedel_def cmd_queueclear_def cmd_tagadd_def cmd_tagsetname_def cmd_tagsetdesc_def cmd_tagdel_def
  by (rule assms queue_add_keeps queue_del_keeps queue_clear_keeps tag_add_keeps tag_update_keeps tag_del_keeps handler_rules | assumption)+

lemma row_handlers:
  assumes "I w"
  shows "ks I (cmd_userget C p code argv w)" "ks I (cmd_trackget C p code argv w)" "ks I (cmd_queueget C p code argv w)"
    "ks I (cmd_tagget C p code argv w)" "ks I (cmd_albumget C p code argv w)" "ks I (cmd_artistget C p code argv w)"
    "ks I (cmd_sfilterget C p code argv w)"
  unfolding cmd_userget_def cmd_trackget_def cmd_queueget_def cmd_tagget_def cmd_albumget_def cmd_artistget_def cmd_sfilterget_def
    dump_user_def dump_track_def dump_queue_def dump_tag_def dump_album_def dump_artist_def dump_sfilter_def
  by (rule assms dump_one_ks mk_kp mkalbum_kp mktrack_kp mkrow_kp queue_get_keeps handler_rules | assumption)+

lemma list_handlers:
  assumes "I w"
  shows "ks I (cmd_userlist C p code argv w)" "ks I (cmd_tracksearch C p code argv w)" "ks I (cmd_tracksalbum C p code argv w)"
    "ks I (cmd_tracksartist C p code argv w)" "ks I (cmd_filtertop C p code argv w)" "ks I (cmd_history C p code argv w)"
    "ks I (cmd_historytrack C p code argv w)" "ks I (cmd_queuelist C p code argv w)" "ks I (cmd_taglist C p code argv w)"
    "ks I (cmd_tagsartist C p code argv w)" "ks I (cmd_tracktaglist C p code argv w)" "ks I (cmd_albumlist C p code argv w)"
    "ks I (cmd_albumsartist C p code argv w)" "ks I (cmd_albumstag C p code argv w)" "ks I (cmd_albumsearch C p code argv w)"
    "ks I (cmd_artistlist C p code argv w)" "ks I (cmd_artistsearch C p code argv w)" "ks I (cmd_artiststag C p code argv w)"
    "ks I (cmd_sfilterlist C p code argv w)"
  unfolding cmd_userlist_def cmd_tracksearch_def cmd_tracksalbum_def cmd_tracksartist_def cmd_filtertop_def cmd_history_def
    cmd_historytrack_def cmd_queuelist_def cmd_taglist_def cmd_tagsartist_def cmd_tracktaglist_def cmd_albumlist_def
    cmd_albumsartist_def cmd_albumstag_def cmd_albumsearch_def cmd_artistlist_def cmd_artistsearch_def cmd_artiststag_def
    cmd_sfilterlist_def users_list_def tracks_search_def tracks_albumid_def tracks_artistid_def random_top_def history_list_def
    history_tracklist_def queue_list_def tags_list_def tags_artist_def track_tags_def albums_list_def albums_artistid_def
    albums_tag_def albums_search_def artists_list_def artists_search_def artists_tag_def sfilters_list_def dump_users_def
    dump_tracks_def dump_history_def dump_queues_def dump_tags_def dump_albums_def dump_artists_def dump_sfilters_def
  by (rule assms dump_query_ks mk_kp mkalbum_kp mktrack_kp mkrow_kp queue_convert_keeps history_convert_keeps pure_conv_keeps
      query k_bind_v | assumption)+

lemma filter_handlers:
  assumes "I w"
  shows "ks I (cmd_filter C p code argv w)" "ks I (cmd_filterset C p code argv w)" "ks I (cmd_sfiltersetfilter C p code argv w)"
proof -
  have e: "ks I (m \<bind> (\<lambda>(e, pos, m). f e pos m))" if "\<And>e pos m. ks I (f e pos m)" for f :: "_ \<Rightarrow> _ \<Rightarrow> _ \<Rightarrow> _" and m
    using that by (auto simp: ks_def bind_eq_Some_conv)
  show "ks I (cmd_filter C p code argv w)" "ks I (cmd_filterset C p code argv w)" "ks I (cmd_sfiltersetfilter C p code argv w)"
    unfolding cmd_filter_def cmd_filterset_def cmd_sfiltersetfilter_def
    by (rule assms e setfilter_keeps handler_rules | assumption)+
qed

lemma searchf_handler:
  assumes "I w"
  shows "ks I (cmd_tracksearchf C p code argv w)"
proof -
  have d: "ks I (do { (it, w) \<leftarrow> tracks_searchf (ask C) e w; dump_tracks (ce_net C) (hook_of C) p code it w })" for e
  proof -
    have r: "ks I (do { (it, w) \<leftarrow> (if cond = [] then Some (None, w) else db_iterate (ask C) (pure_conv track_convert) (q cond) w);
        dump_rows (ce_net C) (hook_of C) p code mktrack it w })" if "I w" for cond q w
    proof (cases "cond = []")
      case True
      have "ks I (dump_rows (ce_net C) (hook_of C) p code mktrack None w)"
        by (rule dump_rows_ks [OF that mktrack_kp]) auto
      with True show ?thesis by simp
    next
      case False
      have "ks I (do { (it, w) \<leftarrow> db_iterate (ask C) (pure_conv track_convert) (q cond) w;
          dump_rows (ce_net C) (hook_of C) p code mktrack it w })"
        by (rule that dump_query_ks mktrack_kp pure_conv_keeps query | assumption)+
      with False show ?thesis by simp
    qed
    have "ks I (do { (cond, w) \<leftarrow> sql_where (ask C) e w;
        (it, w) \<leftarrow> (if cond = [] then Some (None, w) else db_iterate (ask C) (pure_conv track_convert) (q cond) w);
        dump_rows (ce_net C) (hook_of C) p code mktrack it w })" for q
      by (rule k_bind_p(1) [OF sql_where_kp [OF assms] r])
    then show ?thesis unfolding tracks_searchf_def dump_tracks_def by (simp add: bind_assoc case_prod_unfold)
  qed
  have e: "ks I (m \<bind> (\<lambda>(e, pos, m). f e pos m))" if "\<And>e pos m. ks I (f e pos m)" for f :: "_ \<Rightarrow> _ \<Rightarrow> _ \<Rightarrow> _" and m
    using that by (auto simp: ks_def bind_eq_Some_conv)
  show ?thesis unfolding cmd_tracksearchf_def by (rule assms e d filter_error_keeps k_bind_v k_option | assumption)+
qed

lemma help_keeps: "I w \<Longrightarrow> ks I (cmd_help C p code argv w)"
proof -
  have l: "ks I (help_lines C p code perm cmds w)" if "I w" for perm cmds w
    using that
    by (induction cmds arbitrary: w) (simp_all only: help_lines.simps, (rule line_kp handler_rules | assumption)+)
  show "I w \<Longrightarrow> ks I (cmd_help C p code argv w)"
    unfolding cmd_help_def by (rule l handler_rules | assumption)+
qed

lemmas handlers_keep = quit_keeps player_handlers setting_handlers sleep_handler statement_handlers hook_handlers row_handlers
  list_handlers filter_handlers searchf_handler help_keeps

text \<open>Every command but those of the login and those that look for clients.\<close>

lemma run_others:
  assumes "cmd_run C name = Some run" "name \<notin> {''user'', ''pass'', ''clientlist'', ''clientclose'', ''clientcloseuser''}" "I w"
  shows "ks I (run p code argv w)"
proof -
  have "(name, run) \<in> set [x \<leftarrow> cmd_list C. fst x \<notin> {''user'', ''pass'', ''clientlist'', ''clientclose'', ''clientcloseuser''}]"
    using map_of_SomeD [OF assms(1) [unfolded cmd_run_def]] assms(2) by simp
  then show ?thesis unfolding cmd_list_def by (auto simp: assms(3) handlers_keep)
qed

end

lemma cmd_run_clients:
  "cmd_run C ''clientlist'' = Some (cmd_clientlist C)" "cmd_run C ''clientclose'' = Some (cmd_clientclose C)"
  "cmd_run C ''clientcloseuser'' = Some (cmd_clientcloseuser C)"
  by (simp_all add: cmd_run_def cmd_list_def)

section \<open>The environment of a running program\<close>

text \<open>
  The laws for the environments that \<open>main\<close> builds: the player and the commands before and after \<open>proto_init\<close>.
\<close>

lemma outside_keeps: "outside f w = (x, w') \<Longrightarrow> heap w' = heap w \<and> fresh w' = fresh w \<and> clients w' = clients w"
  by (auto simp: outside_def split: prod.splits)

lemma player_init_keeps: "player_init S w = (ok, w') \<Longrightarrow> heap w' = heap w \<and> fresh w' = fresh w \<and> clients w' = clients w"
  by (auto simp: player_init_def outside_def split: prod.splits if_splits)

locale daemon_frame = state_frame I + wire_frame I "s_net S" "client_hook (s_net S)"
  for I :: "('d, 'z) pstate \<Rightarrow> bool" and S :: "'d sys"
begin

lemma pq_keeps: "I w \<Longrightarrow> pq_exec L q w = (r, w') \<Longrightarrow> I w'" "I w \<Longrightarrow> I (db_done L w)" "I w \<Longrightarrow> db_conn_fail L w = (rc, w') \<Longrightarrow> I w'"
  by (auto simp: pq_exec_def db_done_def db_conn_fail_def updates split: if_splits prod.splits)

lemma vquery_kp:
  assumes "\<And>w. I w \<Longrightarrow> kp I (conn w)" "I w"
  shows "kp I (db_vquery conn L q w)"
proof -
  have e: "kp I (Some (if b then (None, w) else pq_exec L x w))" if "I w" for b x w
    using that pq_keeps(1) [OF that] by (cases "pq_exec L x w") (auto simp: kp_def)
  obtain res w1 where 1: "(if dbcon w then pq_exec L (take (BUFLENQUERY - 1) q) w else (None, w)) = (res, w1)" by fastforce
  then have "I w1" using assms(2) pq_keeps(1) [OF assms(2)] by (auto split: if_splits)
  then show ?thesis
    using assms(2) unfolding db_vquery_def Let_def 1 prod.case by - (rule assms e k_intros | assumption)+
qed

lemma db_frame_inner: "db_frame I (db_vquery no_conn L)"
  by unfold_locales (rule vquery_kp k_intros | assumption)+

lemma conn_kp:
  assumes "keeps_notify I cb" "I w"
  shows "kp I (db_conn L opt cb w)"
proof -
  have f: "kp I (Some (db_conn_fail L w))" if "I w" for w
    using pq_keeps(3) [OF that] by (cases "db_conn_fail L w") (auto simp: kp_def)
  show ?thesis
    unfolding db_conn_def Let_def
    by (rule assms f db_frame.query [OF db_frame_inner] updates pq_keeps(2) notify_keeps k_intros | assumption)+
qed

lemma query_kp: "keeps_notify I cb \<Longrightarrow> I w \<Longrightarrow> kp I (db_query L opt cb q w)"
  unfolding db_query_def by (rule vquery_kp conn_kp | assumption)+

lemma connected_keeps: "keeps_notify I hook \<Longrightarrow> keeps_notify I (Some (db_connected S hook))"
proof -
  assume h: "keeps_notify I hook"
  have "ks I (db_connected S hook w)" if "I w" for w
    unfolding db_connected_def Let_def
    by (rule h that setfilter_kp [OF db_frame_inner] db_frame.statements [OF db_frame_inner] k_intros | assumption)+
  then show ?thesis by (simp add: keeps_notify_def)
qed

lemma time_random: "I w \<Longrightarrow> c_time (libc_of S) w = (t, w') \<Longrightarrow> I w'" "I w \<Longrightarrow> c_random (libc_of S) w = (t, w') \<Longrightarrow> I w'"
  by (auto simp: libc_of_def dest: outside_keeps intro: elsewhere)

lemma init_hooks:
  assumes "\<And>t w w'. I w \<Longrightarrow> c_time (pe_libc (ce_env C)) w = (t, w') \<Longrightarrow> I w'" and net: "ce_net C = s_net S"
  shows "hooks_keep I (proto_init C)"
proof -
  let ?N = "s_net S"
  have r: "sleep_remain (ce_env C) w = (r, w') \<Longrightarrow> I w \<Longrightarrow> I w'" for w r w'
    using assms(1) by (auto simp: sleep_remain_def split: if_splits prod.splits)
  have "ks I (proto_bcast_sleep ?N (client_hook ?N) (ce_env C) w)" if "I w" for w
    unfolding proto_bcast_sleep_def by (rule k_prod proto_bcast_ks | erule r | rule that)+
  moreover have "ks I (proto_bcast_player_resume ?N (client_hook ?N) w)" "ks I (proto_bcast_player_newtrack ?N (client_hook ?N) w)"
    "ks I (proto_bcast_player_pause ?N (client_hook ?N) w)" "ks I (proto_bcast_player_stop ?N (client_hook ?N) w)"
    "ks I (proto_bcast_player_random ?N (client_hook ?N) w)" "ks I (proto_bcast_player_elapsed ?N (client_hook ?N) i w)"
    "ks I (proto_bcast_queue_fetch ?N (client_hook ?N) q w)" "ks I (proto_bcast_filter ?N (client_hook ?N) w)"
    "ks I (proto_bcast_queue_add ?N (client_hook ?N) q w)" "ks I (proto_bcast_queue_del ?N (client_hook ?N) q w)"
    "ks I (proto_bcast_queue_clear ?N (client_hook ?N) w)" "ks I (proto_bcast_tag_changed ?N (client_hook ?N) t w)"
    "ks I (proto_bcast_tag_del ?N (client_hook ?N) t w)" if "I w" for i q t w
    unfolding proto_bcast_player_resume_def proto_bcast_player_newtrack_def proto_bcast_player_pause_def proto_bcast_player_stop_def
      proto_bcast_player_random_def proto_bcast_player_elapsed_def proto_bcast_queue_fetch_def proto_bcast_filter_def
      proto_bcast_queue_add_def proto_bcast_queue_del_def proto_bcast_queue_clear_def proto_bcast_tag_changed_def
      proto_bcast_tag_del_def
    by (rule that proto_bcast_ks bcast_row_ks mkrow_kp mktrack_kp mk_kp k_intros | assumption)+
  ultimately show ?thesis by (simp add: net hooks_keep_def proto_init_def Let_def keeps_hook_def keeps_notify_def)
qed

lemma with_db_frame:
  assumes "hooks_keep I C" "pe_libc (ce_env C) = libc_of S" "ce_net C = s_net S"
  shows "server_frame I (with_db S C)"
proof unfold_locales
  have n: "ce_net (with_db S C) = s_net S" using assms(3) by (simp add: with_db_def)
  show "I (w\<lparr>tabbuf := m\<rparr>)" if "I w" for w m using that by (rule buffered)
  show "kp I (client_send (ce_net (with_db S C)) (hook_of (with_db S C)) p buf w)" if "I w" for p buf w
    unfolding n using that by (rule send_keeps)
  show "ks I (client_bcast (ce_net (with_db S C)) (hook_of (with_db S C)) buf func w)" if "I w" for buf func w
    unfolding n using that by (rule bcast_keeps)
  show "ks I (client_close (ce_net (with_db S C)) (hook_of (with_db S C)) p w)" if "I w" for p w
    unfolding n using that by (rule close_keeps)
  show "hooks_keep I (with_db S C)" using assms(1) by (simp add: hooks_keep_def with_db_def)
  have "keeps_notify I (Some (db_connected S (random_func_filter C)))"
    by (rule connected_keeps) (use assms(1) in \<open>simp add: hooks_keep_def\<close>)
  then show "kp I (ask (with_db S C) q w)" if "I w" for q w using that by (simp add: with_db_def query_kp)
  have l: "pe_libc (ce_env (with_db S C)) = libc_of S" using assms(2) by (simp add: with_db_def)
  show "I w'" if "I w" "c_time (pe_libc (ce_env (with_db S C))) w = (t, w')" for w t w'
    using that(2) unfolding l by (rule time_random(1) [OF that(1)])
  show "I w'" if "I w" "c_random (pe_libc (ce_env (with_db S C))) w = (r, w')" for w r w'
    using that(2) unfolding l by (rule time_random(2) [OF that(1)])
qed

lemma bare_frame: "server_frame I (bare S)"
  unfolding bare_def by (rule with_db_frame) (simp_all add: hooks_keep_def keeps_hook_def keeps_notify_def)

lemma serving_frame: "server_frame I (serving S)"
  unfolding serving_def
proof (rule with_db_frame)
  have l: "pe_libc (ce_env (bare S)) = libc_of S" by (simp add: bare_def with_db_def)
  show "hooks_keep I (proto_init (bare S))" 
    by (rule init_hooks) (unfold l, erule (1) time_random(1), simp add: bare_def with_db_def)
qed (simp_all add: proto_init_def bare_def with_db_def)

end

sublocale daemon_frame \<subseteq> started: server_frame I "bare S"
  by (rule bare_frame)

sublocale daemon_frame \<subseteq> served: server_frame I "serving S"
  by (rule serving_frame)

context daemon_frame
begin

text \<open>Start-up behind the list of clients, and the callbacks that are not those of a socket.\<close>

lemma load_filter_keeps: "I w \<Longrightarrow> ks I (load_filter S (serving S) w)"
  unfolding load_filter_def
  by (rule served.statements served.setfilter_keeps served.hook_laws k_intros | assumption)+

lemma save_filter_keeps: "I w \<Longrightarrow> ks I (save_filter S (serving S) w)"
  unfolding save_filter_def by (rule served.statements k_intros | assumption)+

lemma player_defaults_keeps: "I w \<Longrightarrow> ks I (player_defaults S w)"
  unfolding player_defaults_def player_setcut_def player_setgap_def snd_conv Let_def
  by (rule started.player_keeps updates k_intros | assumption)+

lemma main_parts_keeps:
  assumes "I w"
  shows "kp I (main_parts S w)"
proof -
  have n: "keeps_notify I None" by (simp add: keeps_notify_def)
  have i: "I w'" if "player_init S w = (ok, w')" "I w" for w ok w'
    using elsewhere [OF that(2)] player_init_keeps [OF that(1)] by blast
  show ?thesis
    unfolding main_parts_def db_init_def
    by (rule assms n conn_kp connected_keeps load_filter_keeps player_defaults_keeps served.player_start_keeps k_intros
        | assumption | erule (1) i)+
qed

lemma outside_kp:
  fixes f :: "_ \<Rightarrow> bool \<times> _"
  assumes "I w" "\<And>x w. I w \<Longrightarrow> kp I (g x w)"
  shows "kp I (case outside f w of (x, w) \<Rightarrow> g x w)"
  using assms elsewhere [OF assms(1)] outside_keeps [of f w] by (cases "outside f w") auto

lemma main_init_keeps:
  assumes init: "\<And>port v. heap v = heap w \<Longrightarrow> fresh v = fresh w \<Longrightarrow> clients v = clients w \<Longrightarrow> kp I (clients_init (s_net S) port v)"
    and "I w"
  shows "kp I (main_init S w)"
proof -
  obtain free v where l: "outside (s_lockfile_check S (opt_pidfile (s_opt S))) w = (free, v)" by fastforce
  note v = outside_keeps [OF l]
  have "kp I (clients_init (s_net S) port v)" for port using init v by simp
  moreover have "I v" using elsewhere [OF assms(2)] v by blast
  ultimately show ?thesis
    unfolding main_init_def l prod.case by - (rule main_parts_keeps outside_kp k_intros | assumption)+
qed

lemma callback_keeps:
  assumes "I w" "\<And>b. ev \<noteq> Ev_accept b" "\<And>b q. ev \<noteq> Ev_client b q"
  shows "ks I (dispatch S ev w)"
proof (cases ev)
  case (Ev_bus message)
  then show ?thesis using served.cb_bus_keeps [OF assms(1)] by (simp add: dispatch_def Let_def)
next
  case (Ev_timer t)
  then show ?thesis
    using k_map(1) [OF served.elapsed_timeout_keeps [OF assms(1)]] served.gap_timeout_keeps [OF assms(1)] served.sleep_keeps(1) [OF assms(1)]
    by (cases t) (simp_all add: dispatch_def Let_def)
qed (use assms(2,3) in auto)

end

end
