(* ===== verification/Sessionframe.thy ===== *)
theory Sessionframe
  imports Serverframe
begin

text \<open>
  What the program keeps of the logins: a property of the state that depends only on which clients there are and on
  their login, and that survives the loss of clients, is kept by everything the server does but the commands of the
  login themselves.
\<close>

locale login_frame =
  fixes I :: "('d, 'z) pstate \<Rightarrow> bool"
  assumes heap_only: "I w \<Longrightarrow> heap w' = heap w \<Longrightarrow> fresh w' = fresh w \<Longrightarrow> I w'"
    and login_only: "I w \<Longrightarrow> heap w p = Some c \<Longrightarrow> c_pstate c' = c_pstate c \<Longrightarrow> c_user c' = c_user c \<Longrightarrow> c_pdata c' = c_pdata c \<Longrightarrow>
          I (put p c' w)"
    and lost: "I w \<Longrightarrow> I (w\<lparr>heap := (heap w)(p := None)\<rparr>)"

sublocale login_frame \<subseteq> net_frame I
proof unfold_locales
  fix w d p assume "I w"
  then have "I (w\<lparr>heap := (heap w)(p := None)\<rparr>)" by (rule lost)
  then show "I (w\<lparr>ext := d, heap := (heap w)(p := None)\<rparr>)" by (rule heap_only) simp_all
qed (use heap_only login_only in \<open>auto\<close>)

sublocale login_frame \<subseteq> daemon_frame I S for S
  by (intro daemon_frame.intro state_frame.intro wired.wire_frame_axioms) (rule heap_only)

locale session_frame = login_frame I + server_frame I C
  for I :: "('d, 'z) pstate \<Rightarrow> bool" and C :: "('d, 'z) cmdenv"
begin

lemma client_handlers:
  assumes "I w"
  shows "ks I (cmd_clientlist C p code argv w)" "ks I (cmd_clientclose C p code argv w)" "ks I (cmd_clientcloseuser C p code argv w)"
proof -
  have k: "ks I (kick_step C t w)" if "I w" for t w
    unfolding kick_step_def by (rule that delref_ks client_hook_keeps handler_rules | assumption)+
  show "ks I (cmd_clientlist C p code argv w)" "ks I (cmd_clientclose C p code argv w)" "ks I (cmd_clientcloseuser C p code argv w)"
    unfolding cmd_clientlist_def cmd_clientclose_def cmd_clientcloseuser_def Let_def
    by (rule assms lists_kp it_steps_kt loop_ks k it_done_ks dump_clients_ks get_kp delref_ks client_hook_keeps handler_rules | assumption)+
qed

text \<open>Every command but those of the login.\<close>

lemma run_keeps:
  assumes "cmd_run C name = Some run" "name \<noteq> ''user''" "name \<noteq> ''pass''" "I w"
  shows "ks I (run p code argv w)"
proof (cases "name \<in> {''clientlist'', ''clientclose'', ''clientcloseuser''}")
  case True
  then show ?thesis using assms(1) client_handlers [OF assms(4)] by (auto simp: cmd_run_clients)
next
  case False
  show ?thesis by (rule run_others [OF assms(1) _ assms(4)]) (use False assms(2,3) in auto)
qed

end

end
