(* ===== verification/Login.thy ===== *)
theory Login
  imports Sessionframe
begin

text \<open>
  Who a connection belongs to. The fields \<open>pstate\<close>, \<open>user\<close> and \<open>pdata\<close> of a client encode a session: nobody yet, a
  name without password, or a user. The states of the program refine the machine \<open>session_step\<close>, in which the
  only way to become a user is the password of that user.
\<close>

section \<open>Sessions\<close>

datatype session = Anonymous | Named string | Authenticated user

definition session_of :: "client \<Rightarrow> session option" where
  "session_of c =
     (case (c_pstate c, c_user c) of
        (p_open, None) \<Rightarrow> Some Anonymous
      | (p_user, None) \<Rightarrow> map_option Named (c_pdata c)
      | (p_idle, Some u) \<Rightarrow> Some (Authenticated u)
      | _ \<Rightarrow> None)"

text \<open>The command of a line, and the line behind it without leading blanks.\<close>

definition command :: "string \<Rightarrow> string option" where
  "command line = fst (val_name (dropWhile space line))"

definition operand :: "string \<Rightarrow> string" where
  "operand line = dropWhile space (snd (val_name (dropWhile space line)))"

text \<open>What one line of a client may do to its session.\<close>

inductive session_step :: "'d sys \<Rightarrow> string \<Rightarrow> session \<Rightarrow> session \<Rightarrow> bool" for S :: "'d sys" and line where
  stay: "session_step S line s s"
| name: "command line = Some ''user'' \<Longrightarrow> val_name (operand line) = (Some n, []) \<Longrightarrow> session_step S line Anonymous (Named n)"
| refuse: "command line = Some ''pass'' \<Longrightarrow> session_step S line (Named n) Anonymous"
| login: "command line = Some ''pass'' \<Longrightarrow> user_getn (ask (serving S)) n (w :: 'd plst) = Some (Some u, w') \<Longrightarrow>
    user_ok (libc_of S :: 'd plst libc) u (operand line) \<Longrightarrow> session_step S line (Named n) (Authenticated u)"

inductive_cases session_step_user: "session_step S line s (Authenticated u)"

text \<open>The sessions of all clients, and the addresses they may have: those below the next one that were not given up.\<close>

definition in_use :: "ptr \<times> ptr set \<Rightarrow> ptr \<Rightarrow> bool" where
  "in_use n p \<longleftrightarrow> p < fst n \<and> p \<in> snd n"

definition sessions :: "(ptr \<Rightarrow> session) \<Rightarrow> ptr \<times> ptr set \<Rightarrow> ('d, 'z) pstate \<Rightarrow> bool" where
  "sessions a n w \<longleftrightarrow> fresh w = fst n \<and> (\<forall>p c. heap w p = Some c \<longrightarrow> in_use n p \<and> session_of c = Some (a p))"

lemma session_of_same: "c_pstate c' = c_pstate c \<Longrightarrow> c_user c' = c_user c \<Longrightarrow> c_pdata c' = c_pdata c \<Longrightarrow> session_of c' = session_of c"
  by (simp add: session_of_def split: protstate.split option.split)

lemma sessions_put: "sessions a n w \<Longrightarrow> in_use n p \<Longrightarrow> session_of c = Some s \<Longrightarrow> sessions (a(p := s)) n (put p c w)"
  by (auto simp: sessions_def put_def)

interpretation logins: login_frame "sessions a n" for a n
proof
  fix w :: "('d, 'z) pstate" and p and c c' :: client assume s: "sessions a n w" "heap w p = Some c"
    and "c_pstate c' = c_pstate c" "c_user c' = c_user c" "c_pdata c' = c_pdata c"
  then have "session_of c' = session_of c" by (intro session_of_same)
  then have "sessions (a(p := a p)) n (put p c' w)" using s by (intro sessions_put) (auto simp: sessions_def)
  then show "sessions a n (put p c' w)" by simp
qed (auto simp: sessions_def)

interpretation served: session_frame "sessions a n" "serving S" for a n S
  by (intro session_frame.intro logins.login_frame_axioms logins.serving_frame)

section \<open>One line\<close>

lemma cmd_find_login:
  "cmd_find x ''user'' = (if x = p_open then Some \<lparr>cmd_name = ''user'', cmd_code = ''320'', cmd_perm = r_any, cmd_context = p_open, cmd_args = [arg_name]\<rparr> else None)"
  "cmd_find x ''pass'' = (if x = p_user then Some \<lparr>cmd_name = ''pass'', cmd_code = ''221'', cmd_perm = r_any, cmd_context = p_user, cmd_args = [arg_pass]\<rparr> else None)"
  subgoal by (cases x) (simp_all add: cmd_find_def proto_cmds_def)
  subgoal by (cases x) (simp_all add: cmd_find_def proto_cmds_def)
  done

lemma cmd_find_name: "cmd_find x name = Some cmd \<Longrightarrow> cmd_name cmd = name"
  by (auto simp: cmd_find_def find_Some_iff)

lemma cmd_run_login: "cmd_run C ''user'' = Some (cmd_user C)" "cmd_run C ''pass'' = Some (cmd_pass C)"
  by (simp_all add: cmd_run_def cmd_list_def)

lemma parse_name: "parse_args [arg_name] s = Inr (argv, 0, []) \<Longrightarrow> \<exists>n. argv = [A_str n] \<and> val_name (dropWhile space s) = (Some n, [])"
  by (auto simp: Let_def cmd_arg_parse_def val_name_def split: if_splits prod.splits option.splits)

lemma parse_pass: "parse_args [arg_pass] s = Inr (argv, 0, []) \<Longrightarrow> argv = [A_str (dropWhile space s)]"
  by (auto simp: Let_def cmd_arg_parse_def val_string_def split: if_splits prod.splits option.splits)

text \<open>A line that is not answered with an error runs a handler.\<close>

lemma proto_line_cases:
  assumes "proto_line C p line w = Some w'"
  obtains (reply) code body where "say C p code body w = Some w'"
  | (run) c name cmd argv run where "command line = Some name" "heap w p = Some c" "cmd_find (c_pstate c) name = Some cmd"
      "cmd_perm cmd \<le> (case c_user c of None \<Rightarrow> r_any | Some u \<Rightarrow> us_right u)" "parse_args (cmd_args cmd) (snd (val_name (dropWhile space line))) = Inr (argv, 0, [])"
      "cmd_run C name = Some run" "run p (cmd_code cmd) argv w = Some w'"
proof -
  obtain v e where v: "val_name (dropWhile space line) = (v, e)" by fastforce
  show thesis
  proof (cases v)
    case None
    then show ?thesis using assms v reply by (auto simp: proto_line_def)
  next
    case (Some name)
    then obtain c where c: "heap w p = Some c" using assms v by (auto simp: proto_line_def bind_eq_Some_conv)
    let ?perm = "case c_user c of None \<Rightarrow> r_any | Some u \<Rightarrow> us_right u"
    show ?thesis
    proof (cases "cmd_find (c_pstate c) name")
      case None
      then show ?thesis using assms v Some c reply by (auto simp: proto_line_def)
    next
      case cmd: (Some cmd)
      have r: "(if ?perm < cmd_perm cmd then say C p ''501'' ''insufficient karma'' w else map_option snd (cmd_parse C p cmd e w)) = Some w'"
        using assms v Some c cmd by (simp add: proto_line_def Let_def)
      show ?thesis
      proof (cases "?perm < cmd_perm cmd")
        case True
        then show ?thesis using r reply by simp
      next
        case False
        with r obtain rc where p: "cmd_parse C p cmd e w = Some (rc, w')" by auto
        show ?thesis
          using p False run [of name c cmd] reply v Some c cmd cmd_find_name [OF cmd]
          by (auto simp: cmd_parse_def command_def bind_eq_Some_conv split: sum.splits if_splits)
      qed
    qed
  qed
qed

lemma user_session:
  assumes "sessions a n w" "heap w p = Some c" "c_pstate c = p_open" "cmd_user (serving S) p code [A_str name] w = Some w'"
  shows "a p = Anonymous \<and> sessions (a(p := Named name)) n w'"
proof -
  have c: "in_use n p" "session_of c = Some (a p)" using assms(1,2) by (auto simp: sessions_def)
  then have u: "c_user c = None" "a p = Anonymous" using assms(3) by (auto simp: session_of_def split: option.splits)
  have "sessions (a(p := Named name)) n (put p (c\<lparr>c_pdata := Some name, c_pstate := p_user\<rparr>) w)"
    by (rule sessions_put [OF assms(1) c(1)]) (simp add: session_of_def u)
  then have "ks (sessions (a(p := Named name)) n)
      (say (serving S) p code ''user ok, use PASS for password'' (put p (c\<lparr>c_pdata := Some name, c_pstate := p_user\<rparr>) w))"
    by (rule logins.served.say_keeps)
  then show ?thesis using assms(2,4) u by (simp add: cmd_user_def str_arg_def ks_def)
qed

lemma pass_final_session:
  assumes "sessions a n w" "\<And>name. a p \<noteq> Named name"
  shows "ks (sessions a n) (pass_final p w)"
proof -
  have "sessions a n (put p (c\<lparr>c_pdata := None\<rparr>) w)" if "heap w p = Some c" for c
  proof -
    have c: "in_use n p" "session_of c = Some (a p)" using assms(1) that by (auto simp: sessions_def)
    then have "session_of (c\<lparr>c_pdata := None\<rparr>) = Some (a p)"
      using assms(2) by (cases "a p") (auto simp: session_of_def split: protstate.splits option.splits)
    from sessions_put [OF assms(1) c(1) this] show ?thesis by simp
  qed
  then show ?thesis by (auto simp: pass_final_def ks_def bind_eq_Some_conv)
qed

lemma pass_failed_session:
  assumes "sessions a n w"
  shows "ks (sessions (a(p := Anonymous)) n) (pass_failed (serving S) p w)"
proof -
  have "sessions (a(p := Anonymous)) n (put p (c\<lparr>c_user := None, c_pstate := p_open\<rparr>) w)" if "heap w p = Some c" for c
    using assms that by (intro sessions_put) (auto simp: sessions_def session_of_def)
  then show ?thesis unfolding pass_failed_def
    by (intro k_bind_v(1) k_bind_s(1) logins.served.say_keeps pass_final_session) auto
qed

lemma pass_session:
  fixes w w' :: "'d plst"
  assumes s: "sessions a n w" and c: "heap w p = Some c" "c_pstate c = p_user"
    and run: "cmd_pass (serving S) p code [A_str pass] w = Some w'"
  obtains name where "a p = Named name" "sessions (a(p := Anonymous)) n w'"
  | name u w1 where "a p = Named name" "user_getn (ask (serving S)) name w = Some (Some u, w1)"
      "user_ok (libc_of S :: 'd plst libc) u pass" "sessions (a(p := Authenticated u)) n w'"
proof -
  have p: "in_use n p" "session_of c = Some (a p)" using s c by (auto simp: sessions_def)
  then obtain name where name: "c_pdata c = Some name" "a p = Named name"
    using c(2) by (auto simp: session_of_def split: option.splits)
  obtain u w1 where g: "user_getn (ask (serving S)) name w = Some (u, w1)"
    and r: "(case u of None \<Rightarrow> pass_failed (serving S) p w1
       | Some u \<Rightarrow> if \<not> user_ok (pe_libc (ce_env (serving S :: ('d, unit) cmdenv))) u pass then pass_failed (serving S) p w1
           else do { c \<leftarrow> heap w1 p;
             w \<leftarrow> say (serving S) p code ''successfully logged in'' (put p (c\<lparr>c_user := Some u, c_pstate := p_idle\<rparr>) w1);
             w \<leftarrow> proto_bcast_login (ce_net (serving S :: ('d, unit) cmdenv)) (hook_of (serving S)) p w;
             pass_final p w }) = Some w'"
    using run c(1) name by (auto simp: cmd_pass_def str_arg_def bind_eq_Some_conv)
  have s1: "sessions a n w1" using logins.served.statements(2) [OF s, of S name] g by (simp add: kp_def)
  have lib: "pe_libc (ce_env (serving S)) = (libc_of S :: 'd plst libc)" by (simp add: serving_def proto_init_def bare_def with_db_def)
  have f: "sessions (a(p := Anonymous)) n w'" if "pass_failed (serving S) p w1 = Some w'"
    using pass_failed_session [OF s1, of p S] that by (simp add: ks_def)
  show thesis
  proof (cases u)
    case None
    then show ?thesis using that(1) name(2) f r by simp
  next
    case (Some v)
    show ?thesis
    proof (cases "user_ok (libc_of S :: 'd plst libc) v pass")
      case False
      then show ?thesis using that(1) name(2) f r Some lib by simp
    next
      case True
      have "sessions (a(p := Authenticated v)) n (put p (c\<lparr>c_user := Some v, c_pstate := p_idle\<rparr>) w1)" if "heap w1 p = Some c" for c
        using s1 that by (intro sessions_put) (auto simp: sessions_def session_of_def)
      then have "ks (sessions (a(p := Authenticated v)) n) (do { c \<leftarrow> heap w1 p;
          w \<leftarrow> say (serving S) p code ''successfully logged in'' (put p (c\<lparr>c_user := Some v, c_pstate := p_idle\<rparr>) w1);
          w \<leftarrow> proto_bcast_login (ce_net (serving S :: ('d, unit) cmdenv)) (hook_of (serving S)) p w;
          pass_final p w })"
        unfolding proto_bcast_login_def
        by (intro k_bind_v(1) k_bind_s(1) logins.served.say_keeps logins.wired.bcast_row_ks pass_final_session)
          (auto intro!: k_bind_v logins.wired.mkrow_kp)
      then have "sessions (a(p := Authenticated v)) n w'" using r Some True lib by (simp add: ks_def)
      then show ?thesis using that(2) name(2) g Some True by blast
    qed
  qed
qed

lemma line_session:
  fixes w w' :: "'d plst"
  assumes s: "sessions a n w" and l: "proto_line (serving S) p line w = Some w'"
  shows "\<exists>s. session_step S line (a p) s \<and> sessions (a(p := s)) n w'"
  using l
proof (cases rule: proto_line_cases)
  case (reply code body)
  then have "sessions a n w'" using logins.served.say_keeps [OF s, of S p code body] by (simp add: ks_def)
  then show ?thesis using session_step.stay by (metis fun_upd_triv)
next
  case (run c name cmd argv run)
  note find = run(3) and args = run(5) and h = run(7)
  consider (user) "name = ''user''" | (pass) "name = ''pass''" | (other) "name \<noteq> ''user''" "name \<noteq> ''pass''" by blast
  then show ?thesis
  proof cases
    case user
    then have f: "c_pstate c = p_open" "cmd_args cmd = [arg_name]" "run = cmd_user (serving S)"
      using find run(6) by (auto simp: cmd_find_login cmd_run_login split: if_splits)
    from parse_name [OF args [unfolded f(2)]] obtain v where v: "argv = [A_str v]" "val_name (operand line) = (Some v, [])"
      by (auto simp: operand_def)
    from user_session [OF s run(2) f(1) h [unfolded f(3) v(1)]] show ?thesis
      using session_step.name [of line v S] run(1) user v(2) by auto
  next
    case pass
    then have f: "c_pstate c = p_user" "cmd_args cmd = [arg_pass]" "run = cmd_pass (serving S)"
      using find run(6) by (auto simp: cmd_find_login cmd_run_login split: if_splits)
    have v: "argv = [A_str (operand line)]" using parse_pass [OF args [unfolded f(2)]] by (simp add: operand_def)
    from s run(2) f(1) h [unfolded f(3) v] show ?thesis
      by (cases rule: pass_session) (use session_step.intros run(1) pass in metis)+
  next
    case other
    from served.run_keeps [OF run(6) other s] h have "sessions a n w'" by (simp add: ks_def)
    then show ?thesis using session_step.stay by (metis fun_upd_triv)
  qed
qed

section \<open>One event\<close>

text \<open>
  What a packet may do to the session of its client, and the states in which only that client has moved on. They
  form an invariant of the kind above, which also the lines of that client keep.
\<close>

definition session_steps :: "'d sys \<Rightarrow> session \<Rightarrow> session \<Rightarrow> bool" where
  "session_steps S = (\<lambda>s s'. \<exists>line. session_step S line s s')\<^sup>*\<^sup>*"

definition moved :: "'d sys \<Rightarrow> (ptr \<Rightarrow> session) \<Rightarrow> ptr \<times> ptr set \<Rightarrow> ptr \<Rightarrow> ('d, 'z) pstate \<Rightarrow> bool" where
  "moved S a n p w \<longleftrightarrow> (\<exists>s. session_steps S (a p) s \<and> sessions (a(p := s)) n w)"

lemma moved_refl: "sessions a n w \<Longrightarrow> moved S a n p w"
  unfolding moved_def session_steps_def by (metis fun_upd_triv rtranclp.rtrancl_refl)

interpretation moving: login_frame "moved S a n p" for S a n p
  by unfold_locales (auto simp: moved_def intro: logins.heap_only logins.login_only logins.lost)

lemma line_moves:
  fixes w :: "'d plst"
  assumes "moved S a n p w"
  shows "ks (moved S a n p) (proto_line (serving S) p line w)"
proof -
  obtain s where s: "session_steps S (a p) s" "sessions (a(p := s)) n w" using assms by (auto simp: moved_def)
  have "moved S a n p w'" if l: "proto_line (serving S) p line w = Some w'" for w'
  proof -
    obtain s' where "session_step S line s s'" "sessions (a(p := s')) n w'" using line_session [OF s(2) l] by auto
    then show ?thesis using s(1) unfolding moved_def session_steps_def by (blast intro: rtranclp.rtrancl_into_rtrancl)
  qed
  then show ?thesis by (simp add: ks_def)
qed

lemma input_moves:
  fixes w :: "'d plst"
  assumes "moved S a n p w"
  shows "ks (moved S a n p) (proto_input (serving S) p w)"
proof -
  have "C = serving S \<Longrightarrow> moved S a n p w \<Longrightarrow> moved S a n p w'" if "proto_input C p w = Some w'" for C and w w' :: "'d plst"
    using that
  proof (induction rule: proto_input_induct)
    case (step go C p w w')
    have go: "ks (moved S a n p) (go (serving S) p v)" if "moved S a n p v" for v using step.IH that by (auto simp: ks_def)
    have "ks (moved S a n p) (do { (line, w) \<leftarrow> client_getline (ce_net (serving S :: ('d, unit) cmdenv)) (hook_of (serving S)) p w;
        (case line of None \<Rightarrow> Some w | Some line \<Rightarrow> do { w \<leftarrow> proto_line (serving S) p line w; go (serving S) p w }) })"
      by (rule step.prems(2) moving.getline_kp moving.client_hook_keeps line_moves go k_intros | assumption)+
    with step.hyps [unfolded step.prems(1)] show ?case by (simp add: ks_def)
  qed
  from this [OF _ refl assms] show ?thesis by (simp add: ks_def)
qed

lemma read_moves:
  fixes w :: "'d plst"
  assumes "moved S a n p w"
  shows "kp (moved S a n p) (client_read (s_net S) (client_hook (s_net S)) (proto_input (serving S)) has_in p w)"
proof -
  have p: "moved S a n p (put p (c\<lparr>c_ibuf := m, c_ilen := l\<rparr>) (w\<lparr>ext := d\<rparr>))" if "moved S a n p w" "heap w p = Some c"
    for w :: "'d plst" and c m l d
    using moving.put_counts(4) [OF moving.outside [OF that(1)], of d p c l m] that(2) by simp
  show ?thesis
    unfolding client_read_def client_read_err_def Let_def
    by (rule assms input_moves p moving.addref_ks moving.delref_ks moving.close_ks moving.client_hook_keeps moving.outside k_intros
        | assumption)+
qed

text \<open>A new client is nobody yet.\<close>

lemma accept_session:
  assumes s: "sessions a n w" and r: "client_accept N (client_hook N) (Some (proto_newclient N (client_hook N))) has_in w = Some (b, w')"
  shows "\<exists>n'. sessions (a(fst n := Anonymous)) n' w' \<and> (\<forall>q. in_use n' q \<longrightarrow> in_use n q \<or> q = fst n)"
proof (cases has_in)
  case False
  have "sessions (a(fst n := Anonymous)) n w" using s by (fastforce simp: sessions_def in_use_def)
  then show ?thesis using False r by (intro exI [of _ n]) (simp add: client_accept_def)
next
  case True
  obtain sock addr d where acc: "n_accept N (ext w) = ((sock, addr), d)" by (metis surj_pair)
  define n' where "n' = (fst n + 1, insert (fst n) (snd n))"
  let ?I = "sessions (a(fst n := Anonymous)) n'"
  have n: "fresh w = fst n" "in_use n' (fst n)" using s by (simp_all add: sessions_def n'_def in_use_def)
  have w1: "?I (w\<lparr>ext := d, fresh := fst n + 1\<rparr>)"
    using s by (fastforce simp: sessions_def n'_def in_use_def)
  then have w2: "?I (put (fst n) c (w\<lparr>ext := d, fresh := fst n + 1, maxid := i\<rparr>))" if "session_of c = Some Anonymous" for c i
    using that n(2) by (auto simp: sessions_def put_def)
  have h: "ks ?I (proto_newclient N (client_hook N) p w)" if "?I w" for p w
    unfolding proto_newclient_def
    by (rule that logins.wired.reply_ks logins.put_counts k_intros | assumption)+
  have "kp ?I (client_accept N (client_hook N) (Some (proto_newclient N (client_hook N))) True w)"
    unfolding client_accept_def Let_def acc prod.case n(1) option.case
    by (rule h w1 w2 logins.it_add_kp logins.relisted logins.outside logins.close_ks logins.client_hook_keeps k_intros | assumption |
        simp add: session_of_def)+
  then have "?I w'" using r True by (auto simp: kp_def)
  moreover have "\<forall>q. in_use n' q \<longrightarrow> in_use n q \<or> q = fst n" by (auto simp: n'_def in_use_def)
  ultimately show ?thesis by blast
qed

lemma event_session:
  fixes w w' :: "'d plst"
  assumes s: "sessions a n w" and d: "dispatch S ev w = Some w'"
  shows "\<exists>a' n'. sessions a' n' w' \<and>
    (\<forall>q. in_use n q \<longrightarrow> (if (\<exists>b. ev = Ev_client b q) then session_steps S (a q) (a' q) else a' q = a q)) \<and>
    (\<forall>q. in_use n' q \<longrightarrow> \<not> in_use n q \<longrightarrow> a' q = Anonymous)"
proof -
  have net: "ce_net (serving S :: ('d, unit) cmdenv) = s_net S" by (simp add: serving_def proto_init_def bare_def with_db_def)
  have same: ?thesis if "sessions a n w'" "\<And>b q. ev \<noteq> Ev_client b q"
    using that by (intro exI [of _ a] exI [of _ n]) auto
  show ?thesis
  proof (cases ev)
    case (Ev_accept b)
    then obtain r where "client_accept (s_net S) (client_hook (s_net S)) (Some (proto_newclient (s_net S) (client_hook (s_net S)))) b w = Some (r, w')"
      using d net by (auto simp: dispatch_def Let_def)
    from accept_session [OF s this] obtain n' where "sessions (a(fst n := Anonymous)) n' w'" "\<forall>q. in_use n' q \<longrightarrow> in_use n q \<or> q = fst n"
      by blast
    moreover have "\<not> in_use n (fst n)" by (simp add: in_use_def)
    ultimately show ?thesis using Ev_accept by (intro exI [of _ "a(fst n := Anonymous)"] exI [of _ n']) auto
  next
    case (Ev_client b p)
    then have "map_option snd (client_read (s_net S) (client_hook (s_net S)) (proto_input (serving S)) b p w) = Some w'"
      using d net by (simp add: dispatch_def Let_def)
    then have "moved S a n p w'" using read_moves [OF moved_refl [OF s], of S p b] by (auto simp: kp_def)
    then obtain s' where "session_steps S (a p) s'" "sessions (a(p := s')) n w'" by (auto simp: moved_def)
    then show ?thesis using Ev_client by (intro exI [of _ "a(p := s')"] exI [of _ n]) auto
  next
    case (Ev_bus message)
    show ?thesis by (rule same) (use Ev_bus d logins.callback_keeps [OF s, of ev S] in \<open>auto simp: ks_def\<close>)
  next
    case (Ev_timer t)
    show ?thesis by (rule same) (use Ev_timer d logins.callback_keeps [OF s, of ev S] in \<open>auto simp: ks_def\<close>)
  qed
qed

section \<open>All runs\<close>

lemma init_session:
  fixes w :: "('d, 'z) pstate"
  assumes "sessions a n w" "main_init S w = Some (ok, w')"
  shows "sessions a n w'"
proof -
  have "kp (sessions a n) (main_init S w)"
  proof (rule logins.main_init_keeps)
    fix port and v :: "('d, 'z) pstate" assume "heap v = heap w" "fresh v = fresh w"
    then have "sessions a n v" by (rule logins.heap_only [OF assms(1)])
    then show "kp (sessions a n) (clients_init (s_net S) port v)"
      unfolding clients_init_def Let_def
      by - (rule logins.it_new_kp logins.relisted logins.outside k_intros | assumption)+
  qed (rule assms(1))
  then show ?thesis using assms(2) by (simp add: kp_def)
qed

lemma running_session:
  fixes w0 w :: "'d plst"
  assumes "running S w0 w" "heap w0 = (\<lambda>p. None)"
  shows "\<exists>a n. sessions a n w"
  using assms
proof (induction rule: running.induct)
  case (up w)
  have "sessions (\<lambda>p. Anonymous) (fresh w0, {}) w0" using up.prems by (simp add: sessions_def)
  from init_session [OF this up.hyps] show ?case by blast
next
  case (event w ev d w')
  then obtain a n where "sessions a n w" by blast
  then have "sessions a n (w\<lparr>ext := d\<rparr>)" by (rule logins.outside)
  from event_session [OF this event.hyps(2)] show ?case by blast
qed


text \<open>A machine whose database is down, and a client that sends its name.\<close>

definition demo_sys :: "(int \<times> string) list sys" where
  "demo_sys =
     \<lparr>s_pg = \<lparr>PQconnectdb = \<lambda>s d. (False, d), PQstatus_ok = \<lambda>d. False, PQexec = \<lambda>s d. (None, d), PQfinish = \<lambda>d. d\<rparr>,
      s_net = \<lparr>n_send = \<lambda>s b d. (int (length b), d @ [(s, b)]), n_recv = \<lambda>s n d. (''user 4'' @ [LF], d),
        n_accept = \<lambda>d. ((7, ''10.0.0.1''), d), n_watch = \<lambda>s p d. (True, d), n_close = \<lambda>s p d. d, n_junk = \<lambda>d. replicate 16 NUL,
        n_listen = \<lambda>p d. (True, d), n_channel = \<lambda>d. (True, d), n_unlisten = \<lambda>d. d, n_strerror = \<lambda>d. []\<rparr>,
      s_gst = \<lparr>g_state = \<lambda>d. GST_STATE_READY, g_set_state = \<lambda>s d. (True, d), g_get_state = \<lambda>d. d, g_seek = \<lambda>p u d. (True, d),
        g_position = \<lambda>d. None, g_location = \<lambda>s d. d, g_volume = \<lambda>v d. d, g_timeout_add = \<lambda>n t d. (1, d), g_source_remove = \<lambda>i d. d\<rparr>,
      s_make = \<lambda>e d. (True, d), s_parse_bin = \<lambda>e d. (True, d), s_pipeline = \<lambda>d. (True, d), s_link = \<lambda>d. (True, d),
      s_lockfile_check = \<lambda>f d. (True, d), s_lockfile_create = \<lambda>f d. (True, d), s_lockfile_remove = \<lambda>f d. d, s_foreground = False,
      s_daemon = \<lambda>d. (True, d),
      s_opens = \<lambda>f d. True, s_time = \<lambda>d. (0, d), s_random = \<lambda>d. (0, d), s_crypt = \<lambda>p s. None,
      s_opt = demo_opts, s_fmt_f = \<lambda>d. [], s_invalid_match = \<lambda>f p t. []\<rparr>"

definition demo_state :: "(int \<times> string) list plst" where
  "demo_state =
     \<lparr>ext = [], dbcon = False, inprogress = 0, rfilter = None, heap = (\<lambda>p. None), fresh = 0, clients = \<lparr>it_clients = [], it_cur = 0\<rparr>,
      maxid = 0, tabbuf = [], do_random = 0, gap = 0, cut = 0, rgtype = rg_none, rgpreamp = D_int 0, gap_id = 0,
      elapsed_id = 0, curtrack = Null, curuid = 0, sleep_at = 0, sleep_id = 0\<rparr>"

definition demo_up :: "(bool \<times> (int \<times> string) list plst) option" where
  "demo_up = main_init demo_sys demo_state"

definition demo_connected :: "(int \<times> string) list plst option" where
  "demo_connected = dispatch demo_sys (Ev_accept True) ((snd (the demo_up))\<lparr>ext := []\<rparr>)"

definition demo_named :: "(int \<times> string) list plst option" where
  "demo_named = dispatch demo_sys (Ev_client True 0) ((the demo_connected)\<lparr>ext := []\<rparr>)"

lemma demo_up_runs: "map_option fst demo_up = Some True"
  by code_simp

lemma demo_connected_runs: "map_option (\<lambda>w. map_option session_of (heap w 0)) demo_connected = Some (Some (Some Anonymous))"
  by code_simp

lemma demo_named_runs: "map_option (\<lambda>w. map_option session_of (heap w 0)) demo_named = Some (Some (Some (Named ''4'')))"
  by code_simp

lemmas demo_runs = demo_up_runs demo_connected_runs demo_named_runs


section \<open>Before the login\<close>

lemma cmd_find_context: "cmd_find x name = Some cmd \<Longrightarrow> cmd \<in> set proto_cmds \<and> (cmd_context cmd = x \<or> cmd_context cmd = p_any)"
  by (auto simp: cmd_find_def find_Some_iff)

lemma proto_cmds_open:
  "map cmd_name (filter (\<lambda>cmd. cmd_context cmd = p_open \<or> cmd_context cmd = p_any) proto_cmds) = [''quit'', ''user'', ''help'']"
  by (simp add: proto_cmds_def)

lemma cmd_find_open:
  assumes "cmd_find p_open name = Some cmd"
  shows "name \<in> {''quit'', ''user'', ''help''}"
proof -
  have "cmd \<in> set (filter (\<lambda>cmd. cmd_context cmd = p_open \<or> cmd_context cmd = p_any) proto_cmds)" using cmd_find_context [OF assms] by simp
  then have "cmd_name cmd \<in> set [''quit'', ''user'', ''help'']" unfolding proto_cmds_open [symmetric] set_map by (rule imageI)
  then show ?thesis using cmd_find_name [OF assms] by auto
qed

lemma cmd_run_open:
  "cmd_run C ''quit'' = Some (cmd_quit C)" "cmd_run C ''help'' = Some (cmd_help C)"
  by (simp_all add: cmd_run_def cmd_list_def)

lemma help_lines_net: "ce_net C' = ce_net C \<Longrightarrow> help_lines C' p code perm cmds = help_lines C p code perm cmds"
  by (induction cmds) (rule ext, simp cong: if_cong)+

lemma open_runs:
  assumes "name \<in> {''quit'', ''user'', ''help''}" "ce_net C' = ce_net C" "cmd_run C' name = Some run'" "cmd_run C name = Some run"
  shows "run' p code argv w = run p code argv w"
  using assms(1,3,4)
  by (auto simp: cmd_run_open cmd_run_login cmd_quit_def cmd_user_def cmd_help_def assms(2) help_lines_net [OF assms(2)])

text \<open>
  C5: A client that has not given a name reaches neither the database nor the player: what any line it sends does
  to the whole state is the same for every database, player, set of hooks and C library, it depends on the
  connections alone.
\<close>

theorem stranger_isolated:
  assumes "heap w p = Some c" "c_pstate c = p_open" "ce_net C' = ce_net C"
  shows "proto_line C' p line w = proto_line C p line w"
proof -
  have "cmd_parse C' p cmd rest w = cmd_parse C p cmd rest w" if "cmd_find p_open name = Some cmd" for name cmd rest
  proof -
    have n: "cmd_name cmd \<in> {''quit'', ''user'', ''help''}" using cmd_find_open [OF that] cmd_find_name [OF that] by simp
    then obtain r r' where r: "cmd_run C (cmd_name cmd) = Some r" "cmd_run C' (cmd_name cmd) = Some r'"
      by (auto simp: cmd_run_open cmd_run_login)
    show ?thesis using open_runs [OF n assms(3) r(2,1)] assms(3) r by (simp add: cmd_parse_def split: sum.split)
  qed
  then show ?thesis using assms by (auto simp: proto_line_def Let_def split: prod.split option.split)
qed

theorem stranger_isolated_witness:
  "proto_line ((serving demo_sys)\<lparr>ce_env := (ce_env (serving demo_sys))\<lparr>pe_query := \<lambda>q w. None\<rparr>\<rparr>) 0 ''help'' (the demo_connected) =
   proto_line (serving demo_sys) 0 ''help'' (the demo_connected)"
proof -
  obtain w c where w: "demo_connected = Some w" "heap w 0 = Some c" "session_of c = Some Anonymous" using demo_runs(2) by auto
  then have "c_pstate c = p_open" by (auto simp: session_of_def split: protstate.splits option.splits)
  with w(2) show ?thesis unfolding w(1) option.sel by (rule stranger_isolated) simp
qed

end
