(* ===== verification/Roundtrip.thy ===== *)
theory Roundtrip
  imports Parseexpr_Safe Exprfmt
begin

text \<open>
  Printing and reading filter expressions (\<open>src/commondb/parseexpr.c\<close>): \<open>expr_parse\<close> reads back what
  \<open>expr_fmt\<close> prints. This is what the daemon relies on when it saves the random filter at exit and
  loads it at start. The parser state is seen through the text still in front of it, up to white
  space (\<open>ahead\<close>); each reader consumes exactly its part of the printed text.
\<close>

section \<open>The state by the text in front of it\<close>

definition skip :: "string \<Rightarrow> string" where
  "skip t = dropWhile space t"

lemma skip_Nil [simp]: "skip [] = []"
  by (simp add: skip_def)

lemma skip_Cons [simp]: "skip (c # t) = (if space c then skip t else c # t)"
  by (simp add: skip_def)

lemma skip_idem [simp]: "skip (skip t) = skip t"
  by (simp add: skip_def dropWhile_idem)

definition pend :: "parse_stat \<Rightarrow> string \<Rightarrow> string \<Rightarrow> bool" where
  "pend st d r \<longleftrightarrow> NUL \<notin> set r \<and> (\<exists>p. inp st = pi_zip p d r)"

definition ahead :: "parse_stat \<Rightarrow> string \<Rightarrow> bool" where
  "ahead st t \<longleftrightarrow> (\<exists>d r. pend st d r \<and> skip r = skip t)"

lemma pend_ahead: "pend st d t \<Longrightarrow> ahead st t"
  by (auto simp: ahead_def)

lemma ahead_drop: "ahead st t \<Longrightarrow> skip t = skip t' \<Longrightarrow> ahead st t'"
  by (auto simp: ahead_def)

lemma pend_oob [simp]: "pend (st\<lparr>oob := b\<rparr>) d r = pend st d r"
  by (simp add: pend_def)

lemma pend_next: "pend st d (c # r) \<Longrightarrow> \<exists>st'. ps_next st = (schar c, st') \<and> pend st' (d @ [c]) r"
  by (auto simp: pend_def ps_next_def)

lemma pend_next_end: "pend st d [] \<Longrightarrow> ps_next st = (EOF, st)"
  by (auto simp: pend_def ps_next_def)

lemma pend_done: "pend st d r \<Longrightarrow> pend (ps_done st) [] r"
  by (auto simp: pend_def ps_done_def)

lemma pend_undo: "pend st d r \<Longrightarrow> NUL \<notin> set d \<Longrightarrow> pend (ps_undo st) [] (d @ r)"
  by (auto simp: pend_def ps_undo_def)

lemma parse_nonspace_pend: "pend st d r \<Longrightarrow>
    (case skip r of
       [] \<Rightarrow> \<exists>st'. parse_nonspace st = (EOF, st') \<and> pend st' [] []
     | c # r' \<Rightarrow> \<exists>st'. parse_nonspace st = (schar c, st') \<and> pend st' [c] r')"
proof (induction r arbitrary: st d)
  case Nil
  then show ?case
    using pend_done [OF Nil] pend_next_end [OF pend_done [OF Nil]]
    by (auto simp: parse_nonspace.simps [of st])
next
  case (Cons c r)
  obtain st1 where n: "ps_next (ps_done st) = (schar c, st1)" "pend st1 [c] r"
    using pend_next [OF pend_done [OF Cons.prems]] by auto
  show ?case
  proof (cases "space c")
    case True
    then have "parse_nonspace st = parse_nonspace st1" using n by (simp add: parse_nonspace.simps [of st])
    with True Cons.IH [OF n(2)] show ?thesis by (simp split: list.splits)
  next
    case False
    with n show ?thesis by (simp add: parse_nonspace.simps [of st])
  qed
qed

lemma nonspace_end: "ahead st t \<Longrightarrow> skip t = [] \<Longrightarrow>
    \<exists>st'. parse_nonspace st = (EOF, st') \<and> pend st' [] []"
  by (auto simp: ahead_def dest: parse_nonspace_pend)

lemma nonspace_char: "ahead st t \<Longrightarrow> skip t = c # r \<Longrightarrow>
    \<exists>st'. parse_nonspace st = (schar c, st') \<and> pend st' [c] r"
  by (auto simp: ahead_def dest: parse_nonspace_pend)

text \<open>Looking at the next character that is no white space.\<close>

lemma nonspace_peek: "ahead st t \<Longrightarrow> skip t = c # r \<Longrightarrow> c \<noteq> NUL \<Longrightarrow>
    \<exists>st'. parse_nonspace st = (schar c, st') \<and> pend (ps_undo st') [] (c # r) \<and> pend (ps_done st') [] r"
  using nonspace_char [of st t c r] pend_undo [of _ "[c]" r] pend_done [of _ "[c]" r] by fastforce

section \<open>Names\<close>

lemma filter_name_alnum: "pend st d (c # r) \<Longrightarrow> alnum c \<Longrightarrow>
    \<exists>st'. filter_name st = (schar c, st') \<and> pend st' [] r"
  using pend_next [of st d c r] pend_done by (fastforce simp: filter_name_def dest: alnum_not_EOF)

lemma filter_name_stop: "pend st [] r \<Longrightarrow> r = [] \<or> \<not> alnum (hd r) \<and> schar (hd r) \<noteq> EOF \<Longrightarrow>
    \<exists>st'. filter_name st = (EOF, st') \<and> pend st' [] r"
proof (cases r)
  case Nil
  moreover assume "pend st [] r"
  ultimately show ?thesis using pend_next_end [of st "[]"] pend_done by (fastforce simp: filter_name_def)
next
  case (Cons c r')
  moreover assume p: "pend st [] r" and "r = [] \<or> \<not> alnum (hd r) \<and> schar (hd r) \<noteq> EOF"
  moreover obtain st1 where s: "ps_next st = (schar c, st1)" "pend st1 [c] r'"
    using pend_next [of st "[]" c r'] p Cons by auto
  moreover have "c \<noteq> NUL" using p Cons by (auto simp: pend_def)
  ultimately show ?thesis
    using pend_undo [OF s(2)] by (auto simp: filter_name_def)
qed

text \<open>\<open>_parse_alloc\<close> collects the characters one filter run returns, in lower case.\<close>

lemma alloc_step: "run_filter f st = (schar c, st1) \<Longrightarrow> schar c \<noteq> EOF \<Longrightarrow>
    \<exists>cap' avail' b. parse_alloc_loop f cap avail used acc st =
      parse_alloc_loop f cap' avail' (used + 1) (acc @ [lower c]) (st1\<lparr>oob := b\<rparr>)"
  by (subst parse_alloc_loop.simps) (auto simp: Let_def lower_def)

lemma alloc_stop: "run_filter f st = (EOF, st1) \<Longrightarrow>
    \<exists>b. parse_alloc_loop f cap avail used acc st = (acc, st1\<lparr>oob := b\<rparr>)"
  by (subst parse_alloc_loop.simps) auto

lemma alloc_name: "pend st [] (w @ r) \<Longrightarrow> \<forall>c \<in> set w. alnum c \<Longrightarrow>
    r = [] \<or> \<not> alnum (hd r) \<and> schar (hd r) \<noteq> EOF \<Longrightarrow>
    \<exists>st'. parse_alloc_loop Filter_name cap avail used acc st = (acc @ map lower w, st') \<and> pend st' [] r"
proof (induction w arbitrary: st cap avail used acc)
  case Nil
  obtain st1 where f: "filter_name st = (EOF, st1)" "pend st1 [] r"
    using filter_name_stop [of st r] Nil by auto
  then obtain b where "parse_alloc_loop Filter_name cap avail used acc st = (acc, st1\<lparr>oob := b\<rparr>)"
    using alloc_stop [of Filter_name st st1 cap avail used acc] by auto
  with f show ?case by simp
next
  case (Cons c w)
  obtain st1 where f: "filter_name st = (schar c, st1)" "pend st1 [] (w @ r)"
    using filter_name_alnum [of st "[]" c "w @ r"] Cons.prems by auto
  have c: "schar c \<noteq> EOF" using Cons.prems by (auto dest: alnum_not_EOF)
  then obtain cap' avail' b where "parse_alloc_loop Filter_name cap avail used acc st =
      parse_alloc_loop Filter_name cap' avail' (used + 1) (acc @ [lower c]) (st1\<lparr>oob := b\<rparr>)"
    using alloc_step [of Filter_name st c st1 cap avail used acc] f by auto
  moreover obtain st2 where "parse_alloc_loop Filter_name cap' avail' (used + 1) (acc @ [lower c]) (st1\<lparr>oob := b\<rparr>)
      = ((acc @ [lower c]) @ map lower w, st2)" "pend st2 [] r"
    using Cons.IH [of "st1\<lparr>oob := b\<rparr>"] f Cons.prems by fastforce
  ultimately show ?case by simp
qed

lemma parse_name_text: "ahead st (w @ r) \<Longrightarrow> w \<noteq> [] \<Longrightarrow> \<forall>c \<in> set w. alnum c \<Longrightarrow>
    r = [] \<or> \<not> alnum (hd r) \<and> schar (hd r) \<noteq> EOF \<Longrightarrow>
    \<exists>st'. parse_name st = (map lower w, st') \<and> pend st' [] r"
proof -
  assume a: "ahead st (w @ r)" "w \<noteq> []" "\<forall>c \<in> set w. alnum c" "r = [] \<or> \<not> alnum (hd r) \<and> schar (hd r) \<noteq> EOF"
  then obtain c w' where w: "w = c # w'" by (cases w) auto
  have c: "skip (w @ r) = c # w' @ r" "c \<noteq> NUL"
    using a(3) w by (auto dest: alnum_not_space alnum_not_NUL)
  obtain st1 where n: "parse_nonspace st = (schar c, st1)" "pend (ps_undo st1) [] (w @ r)"
    using nonspace_peek [OF a(1) c] w by auto
  from alloc_name [OF n(2) a(3,4), of 5 5 0 "[]"] n(1) show ?thesis
    by (simp add: parse_name_def parse_alloc_def)
qed

section \<open>Numbers\<close>

lemma parse_num_digits: "ahead st (w @ r) \<Longrightarrow> \<forall>c \<in> set w. digit c \<Longrightarrow>
    skip r = [] \<or> \<not> digit (hd (skip r)) \<and> hd (skip r) \<noteq> NUL \<Longrightarrow>
    0 \<le> n \<Longrightarrow> foldl dval_step n w \<le> INT_MAX \<Longrightarrow>
    \<exists>st'. parse_num_loop n st = (foldl dval_step n w, st') \<and> ahead st' r"
proof (induction w arbitrary: st n)
  case Nil
  show ?case
  proof (cases "skip r")
    case e: Nil
    obtain st1 where "parse_nonspace st = (EOF, st1)" "pend st1 [] []"
      using nonspace_end [of st r] Nil e by auto
    moreover from this have "ahead (ps_undo st1) r"
      using e pend_undo [of st1 "[]" "[]"] by (auto intro: ahead_drop [OF pend_ahead])
    ultimately show ?thesis by (auto simp: parse_num_loop.simps [of n st])
  next
    case (Cons c r')
    with Nil have c: "c \<noteq> NUL" "\<not> digit c" by auto
    obtain st1 where "parse_nonspace st = (schar c, st1)" "pend (ps_undo st1) [] (c # r')"
      using nonspace_peek [of st r c r'] Nil Cons c by auto
    moreover from this have "ahead (ps_undo st1) r"
      using Cons by (metis ahead_drop skip_idem pend_ahead)
    ultimately show ?thesis using c by (auto simp: parse_num_loop.simps [of n st])
  qed
next
  case (Cons c w)
  have c: "digit c" "alnum c" "c \<noteq> NUL" "\<not> space c"
    using Cons.prems by (auto dest: digit_alnum alnum_not_NUL alnum_not_space)
  obtain st1 where s: "parse_nonspace st = (schar c, st1)" "pend (ps_done st1) [] (w @ r)"
    using nonspace_peek [of st "(c # w) @ r" c "w @ r"] Cons.prems c by auto
  let ?n = "dval_step n c"
  have n: "0 \<le> ?n" using Cons.prems(4) c by (auto simp: dval_step_def isdigit_def)
  have mono: "m \<le> foldl dval_step m w" if "0 \<le> m" "\<forall>c \<in> set w. digit c" for m
    using that
  proof (induction w arbitrary: m)
    case (Cons d w)
    then have "m \<le> dval_step m d" "0 \<le> dval_step m d" by (auto simp: dval_step_def isdigit_def)
    with Cons show ?case by fastforce
  qed simp
  have le: "?n \<le> INT_MAX" using mono [OF n] Cons.prems by fastforce
  have "n * 10 \<le> ?n" using c by (auto simp: dval_step_def isdigit_def)
  then have "c_int (c_int (n * 10) + (schar c - schar (CHR ''0''))) = ?n"
    using le n Cons.prems(4) by (simp add: c_int_id dval_step_def schar_def)
  then have "parse_num_loop n st = parse_num_loop ?n (ps_done st1)"
    using s c by (simp add: parse_num_loop.simps [of n st])
  then show ?case using Cons.IH [OF pend_ahead [OF s(2)] _ Cons.prems(3) n] Cons.prems by simp
qed

lemma parse_num_text: "ahead st (fmt_d n @ r) \<Longrightarrow> 0 \<le> n \<Longrightarrow> n \<le> INT_MAX \<Longrightarrow>
    skip r = [] \<or> \<not> digit (hd (skip r)) \<and> hd (skip r) \<noteq> NUL \<Longrightarrow>
    \<exists>st'. parse_num st = (n, st') \<and> ahead st' r"
  using parse_num_digits [of st "dec (nat n)" r 0] dec_digits [of "nat n"] dval_dec [of "nat n"]
  by (simp add: parse_num_def fmt_d_nonneg dval_def)

section \<open>Strings\<close>

text \<open>
  The strings that print to something the reader takes for the same string: characters the reader
  passes unchanged (lower case, no byte 255, no quote), and every backslash followed by a character
  that is no backslash.
\<close>

definition plain_char :: "char \<Rightarrow> bool" where
  "plain_char c \<longleftrightarrow> c \<noteq> NUL \<and> schar c \<noteq> EOF \<and> c \<noteq> DQUOTE \<and> lower c = c"

fun plain_string :: "string \<Rightarrow> bool" where
  "plain_string [] = True"
| "plain_string [c] = (plain_char c \<and> c \<noteq> BACKSLASH)"
| "plain_string (c # d # s) = (plain_char c \<and> (c = BACKSLASH \<longrightarrow> d \<noteq> BACKSLASH) \<and> plain_string (d # s))"

lemma plain_hd: "plain_string (c # s) \<Longrightarrow> plain_char c \<and> plain_string s"
  by (cases s) auto

lemma filter_string_char: "pend st [] (c # r) \<Longrightarrow> plain_char c \<Longrightarrow> c \<noteq> BACKSLASH \<Longrightarrow>
    \<exists>st'. filter_string st = (schar c, st') \<and> pend st' [] r"
  using pend_next [of st "[]" c r] pend_done [of _ "[c]" r]
  by (auto simp: filter_string_def plain_char_def)

lemma filter_string_backslash: "pend st [] (BACKSLASH # d # r) \<Longrightarrow> plain_char d \<Longrightarrow> d \<noteq> BACKSLASH \<Longrightarrow>
    \<exists>st'. filter_string st = (schar BACKSLASH, st') \<and> pend st' [] (d # r)"
proof -
  assume a: "pend st [] (BACKSLASH # d # r)" "plain_char d" "d \<noteq> BACKSLASH"
  then obtain st1 where 1: "ps_next st = (schar BACKSLASH, st1)" "pend (ps_done st1) [] (d # r)"
    using pend_next [of st "[]" BACKSLASH "d # r"] pend_done by fastforce
  then obtain st2 where 2: "ps_next (ps_done st1) = (schar d, st2)" "pend (ps_undo st2) [] (d # r)"
    using pend_next [of "ps_done st1" "[]" d r] pend_undo [of _ "[d]" r] a(2) by (auto simp: plain_char_def)
  from a 1 2 show ?thesis by (auto simp: filter_string_def plain_char_def)
qed

lemma filter_string_stop: "pend st [] (DQUOTE # r) \<Longrightarrow>
    \<exists>st'. filter_string st = (EOF, st') \<and> pend st' [] (DQUOTE # r)"
  using pend_next [of st "[]" DQUOTE r] pend_undo [of _ "[DQUOTE]" r]
  by (auto simp: filter_string_def)

lemma filter_string_plain: "pend st [] (c # s @ DQUOTE # r) \<Longrightarrow> plain_string (c # s) \<Longrightarrow>
    \<exists>st'. filter_string st = (schar c, st') \<and> pend st' [] (s @ DQUOTE # r)"
proof (cases "c = BACKSLASH")
  case True
  moreover assume "pend st [] (c # s @ DQUOTE # r)" "plain_string (c # s)"
  moreover from this True obtain d s' where "s = d # s'" by (cases s) auto
  ultimately show ?thesis
    using filter_string_backslash [of st d "s' @ DQUOTE # r"] plain_hd [of d s'] by auto
next
  case False
  moreover assume "pend st [] (c # s @ DQUOTE # r)" "plain_string (c # s)"
  ultimately show ?thesis using filter_string_char plain_hd by blast
qed

lemma alloc_string: "pend st [] (s @ DQUOTE # r) \<Longrightarrow> plain_string s \<Longrightarrow>
    \<exists>st'. parse_alloc_loop Filter_string cap avail used acc st = (acc @ s, st') \<and> pend st' [] (DQUOTE # r)"
proof (induction s arbitrary: st cap avail used acc)
  case Nil
  obtain st1 where f: "filter_string st = (EOF, st1)" "pend st1 [] (DQUOTE # r)"
    using filter_string_stop [of st r] Nil by auto
  then obtain b where "parse_alloc_loop Filter_string cap avail used acc st = (acc, st1\<lparr>oob := b\<rparr>)"
    using alloc_stop [of Filter_string st st1 cap avail used acc] by auto
  with f show ?case by simp
next
  case (Cons c s)
  obtain st1 where f: "filter_string st = (schar c, st1)" "pend st1 [] (s @ DQUOTE # r)"
    using filter_string_plain [of st c s r] Cons.prems by auto
  have c: "schar c \<noteq> EOF" "lower c = c" using plain_hd [OF Cons.prems(2)] by (auto simp: plain_char_def)
  then obtain cap' avail' b where "parse_alloc_loop Filter_string cap avail used acc st =
      parse_alloc_loop Filter_string cap' avail' (used + 1) (acc @ [c]) (st1\<lparr>oob := b\<rparr>)"
    using alloc_step [of Filter_string st c st1 cap avail used acc] f by auto
  moreover obtain st2 where "parse_alloc_loop Filter_string cap' avail' (used + 1) (acc @ [c]) (st1\<lparr>oob := b\<rparr>)
      = ((acc @ [c]) @ s, st2)" "pend st2 [] (DQUOTE # r)"
    using Cons.IH [of "st1\<lparr>oob := b\<rparr>"] f plain_hd [OF Cons.prems(2)] by fastforce
  ultimately show ?case by simp
qed

lemma parse_string_text: "ahead st (DQUOTE # s @ DQUOTE # r) \<Longrightarrow> plain_string s \<Longrightarrow>
    \<exists>st'. parse_string st = (Some s, st') \<and> ahead st' r"
proof -
  assume a: "ahead st (DQUOTE # s @ DQUOTE # r)" "plain_string s"
  have q: "\<not> space DQUOTE" "schar DQUOTE \<noteq> EOF" by (simp_all add: isspace_def schar_def)
  obtain st1 where 1: "parse_nonspace st = (schar DQUOTE, st1)" "pend (ps_done st1) [] (s @ DQUOTE # r)"
    using nonspace_peek [OF a(1), of DQUOTE "s @ DQUOTE # r"] q by auto
  obtain st2 where 2: "parse_alloc Filter_string (ps_done st1) = (s, st2)" "pend st2 [] (DQUOTE # r)"
    using alloc_string [OF 1(2) a(2), of 5 5 0 "[]"] by (auto simp: parse_alloc_def)
  obtain st3 where 3: "ps_next st2 = (schar DQUOTE, st3)" "pend st3 [DQUOTE] r"
    using pend_next [OF 2(2)] by auto
  from 1 2 3 q show ?thesis by (auto simp: parse_string_def intro: pend_ahead)
qed

section \<open>Values\<close>

text \<open>What may follow a value in a printed expression: the end, a closing brace, a comma.\<close>

definition after_value :: "string \<Rightarrow> bool" where
  "after_value r \<longleftrightarrow> skip r = [] \<or> hd (skip r) = CHR '')'' \<or> hd (skip r) = CHR '',''"

lemma after_value_num: "after_value r \<Longrightarrow> skip r = [] \<or> \<not> digit (hd (skip r)) \<and> hd (skip r) \<noteq> NUL"
  by (auto simp: after_value_def schar_def isdigit_def)

fun plain_value :: "cvalue \<Rightarrow> bool" where
  "plain_value (V_num n) \<longleftrightarrow> 0 \<le> n"
| "plain_value (V_string s) \<longleftrightarrow> plain_string s"
| "plain_value (V_list l) \<longleftrightarrow> (\<forall>v \<in> set l. plain_value v)"

lemma digit_not_DQUOTE: "digit c \<Longrightarrow> c \<noteq> DQUOTE"
  by (auto simp: schar_def isdigit_def)

lemma fmt_d_hd: "0 \<le> n \<Longrightarrow> \<exists>c t. fmt_d n = c # t \<and> digit c"
  using dec_digits [of "nat n"] by (cases "dec (nat n)") (auto simp: fmt_d_nonneg)

lemma parse_value_text:
  assumes "ahead st (value_text v @ r)" "wt_atom v" "plain_value v" "after_value r"
  shows "\<exists>st'. parse_value st = (Some v, st') \<and> ahead st' r"
proof (cases v)
  case (V_num n)
  then obtain c t where ct: "fmt_d n = c # t" "digit c" using fmt_d_hd [of n] assms(3) by auto
  then have c: "c \<noteq> NUL" "\<not> space c" "schar c \<noteq> EOF" "c \<noteq> DQUOTE"
    using digit_alnum alnum_not_NUL alnum_not_space alnum_not_EOF by (auto simp: digit_not_DQUOTE)
  obtain st1 where 1: "parse_nonspace st = (schar c, st1)" "pend (ps_undo st1) [] (fmt_d n @ r)"
    using nonspace_peek [OF assms(1), of c "t @ r"] V_num ct c by auto
  obtain st2 where 2: "parse_num (ps_undo st1) = (n, st2)" "ahead st2 r"
    using parse_num_text [OF pend_ahead [OF 1(2)]] after_value_num [OF assms(4)] assms(2,3) V_num by auto
  from 1 2 c ct V_num show ?thesis by (auto simp: parse_value_def)
next
  case (V_string s)
  have q: "\<not> space DQUOTE" "schar DQUOTE \<noteq> EOF" by (simp_all add: isspace_def schar_def)
  obtain st1 where 1: "parse_nonspace st = (schar DQUOTE, st1)"
      "pend (ps_undo st1) [] (DQUOTE # s @ DQUOTE # r)"
    using nonspace_peek [OF assms(1), of DQUOTE "s @ DQUOTE # r"] V_string q by auto
  obtain st2 where "parse_string (ps_undo st1) = (Some s, st2)" "ahead st2 r"
    using parse_string_text [OF pend_ahead [OF 1(2)]] assms(3) V_string by auto
  with 1 q V_string show ?thesis by (auto simp: parse_value_def)
next
  case (V_list l)
  with assms show ?thesis by simp
qed

lemma parse_vallist_text:
  assumes "skip r = [] \<or> hd (skip r) = CHR '')''"
  shows "ahead st (value_text v @ vallist_text False vs @ r) \<Longrightarrow> \<forall>w \<in> set (v # vs). wt_atom w \<and> plain_value w \<Longrightarrow>
    \<exists>st'. parse_vallist_loop acc st = (Some (V_list (acc @ v # vs)), st') \<and> ahead st' r"
proof (induction vs arbitrary: st v acc)
  case Nil
  have r: "after_value r" using assms by (auto simp: after_value_def)
  obtain st1 where 1: "parse_value st = (Some v, st1)" "ahead st1 r"
    using parse_value_text [of st v r] Nil r by auto
  show ?case
  proof (cases "skip r")
    case e: Nil
    obtain st2 where 2: "parse_nonspace st1 = (EOF, st2)" "pend st2 [] []" using nonspace_end [OF 1(2) e] by auto
    have "ahead (ps_undo st2) r" using pend_undo [OF 2(2)] e by (auto intro: ahead_drop [OF pend_ahead])
    with 1 2 show ?thesis by (auto simp: parse_vallist_loop.simps [of acc st] schar_def)
  next
    case (Cons c r')
    with assms have c: "c = CHR '')''" by simp
    obtain st2 where 2: "parse_nonspace st1 = (schar c, st2)" "pend (ps_undo st2) [] (c # r')"
      using nonspace_peek [OF 1(2) Cons] c by auto
    have "ahead (ps_undo st2) r" using 2 Cons by (metis ahead_drop skip_idem pend_ahead)
    with 1 2 c show ?thesis by (auto simp: parse_vallist_loop.simps [of acc st])
  qed
next
  case (Cons w vs)
  let ?r = "'' '' @ value_text w @ vallist_text False vs @ r"
  have sp: "\<not> space (CHR '','')" "space (CHR '' '')" by (simp_all add: isspace_def schar_def)
  have a: "ahead st (value_text v @ CHR '','' # ?r)" using Cons.prems(1) by simp
  obtain st1 where 1: "parse_value st = (Some v, st1)" "ahead st1 (CHR '','' # ?r)"
    using parse_value_text [OF a] Cons.prems(2) sp by (auto simp: after_value_def)
  obtain st2 where 2: "parse_nonspace st1 = (schar (CHR '',''), st2)" "pend st2 [CHR '',''] ?r"
    using nonspace_char [OF 1(2), of "CHR '',''" ?r] sp by auto
  have "ahead st2 (value_text w @ vallist_text False vs @ r)"
    using 2(2) sp by (auto intro: ahead_drop [OF pend_ahead])
  from Cons.IH [OF this, of "acc @ [v]"] Cons.prems(2) 1 2 show ?case
    by (auto simp: parse_vallist_loop.simps [of acc st])
qed

section \<open>Tests\<close>

lemma parse_valop_text:
  assumes "pend st [] ('' '' @ valop_name oper @ CHR '' '' # r)" "oper \<noteq> vo_none" "oper \<noteq> vo_max"
  shows "\<exists>st'. parse_valop st = (oper, st') \<and> ahead st' r"
proof -
  have sp: "space (CHR '' '')" by (simp add: isspace_def schar_def)
  have op: "valop_name oper \<noteq> []" "\<not> space (hd (valop_name oper))" "hd (valop_name oper) \<noteq> NUL"
    using assms(2,3) by (cases oper; simp add: isspace_def schar_def)+
  define c t where "c = hd (valop_name oper)" and "t = tl (valop_name oper) @ CHR '' '' # r"
  have a: "ahead st (valop_name oper @ CHR '' '' # r)"
    using assms(1) sp by (auto intro: ahead_drop [OF pend_ahead])
  have sk: "skip (valop_name oper @ CHR '' '' # r) = c # t"
    using op by (cases "valop_name oper") (auto simp: c_def t_def)
  obtain st1 where 1: "parse_nonspace st = (schar c, st1)" "pend st1 [c] t"
    using nonspace_char [OF a sk] by auto
  have d: "pend (ps_done st1) [] t" using pend_done [OF 1(2)] .
  have t: "t \<noteq> []" "hd t \<noteq> NUL" using op(3) assms(2,3) by (cases oper; simp add: t_def)+
  obtain st2 where 2: "ps_next (ps_done st1) = (schar (hd t), st2)" "pend st2 [hd t] (tl t)"
    using pend_next [of "ps_done st1" "[]" "hd t" "tl t"] d t by auto
  obtain st3 where 3: "ps_next st1 = (schar (hd t), st3)" "pend st3 ([c] @ [hd t]) (tl t)"
    using pend_next [of st1 "[c]" "hd t" "tl t"] 1 t by auto
  have u: "pend (ps_undo st2) [] t" using pend_undo [OF 2(2)] t by simp
  note ends = d u pend_done [OF 2(2)] pend_done [OF 3(2)]
  show ?thesis
    using assms(2,3) 1 2 3 ends [THEN pend_ahead] sp
    by (cases oper) (auto simp: parse_valop_def c_def t_def schar_def intro: ahead_drop)
qed

lemma find_field_name: "f \<noteq> vf_max \<Longrightarrow> f \<noteq> vf_none \<Longrightarrow> find_field (valfield_name f) = f"
  by (cases f) (simp_all add: find_field_def valfields_def)

lemma valfield_plain: "list_all (\<lambda>c. alnum c \<and> lower c = c) (valfield_name f)"
  by (induct f) code_simp+

lemma valfield_alnum: "c \<in> set (valfield_name f) \<Longrightarrow> alnum c \<and> lower c = c"
  using valfield_plain [of f] by (simp add: list_all_iff)

lemma vttypes_rows: "vttypes_has vttypes f oper t \<Longrightarrow>
    f \<noteq> vf_none \<and> f \<noteq> vf_max \<and> oper \<noteq> vo_none \<and> oper \<noteq> vo_max \<and> (oper = vo_in \<longleftrightarrow> t = vt_list)"
  by (cases f) (auto simp: vttypes_def split: if_splits)

lemma parse_valtest_text:
  assumes "ahead st (valtest_text vt @ r)" "wt_valtest vt" "plain_value (vval vt)"
    and "skip r = [] \<or> hd (skip r) = CHR '')''"
  shows "\<exists>st'. parse_valtest st = (Some vt, st') \<and> ahead st' r"
proof -
  let ?f = "vfield vt" and ?o = "vop vt" and ?v = "vval vt"
  have row: "vttypes_has vttypes ?f ?o (value_type ?v)" and v: "wt_value ?v"
    using assms(2) by (auto simp: wt_valtest_def)
  note rows = vttypes_rows [OF row]
  let ?t = "'' '' @ valop_name ?o @ CHR '' '' # value_text ?v @ r"
  have a: "ahead st (valfield_name ?f @ ?t)" using assms(1) by (simp add: valtest_text_def)
  have w: "valfield_name ?f \<noteq> []" "\<forall>c \<in> set (valfield_name ?f). alnum c" "map lower (valfield_name ?f) = valfield_name ?f"
    using rows valfield_alnum by (cases ?f; simp) (auto simp: valfield_alnum intro: map_idI)
  obtain st1 where 1: "parse_name st = (valfield_name ?f, st1)" "pend st1 [] ?t"
    using parse_name_text [OF a w(1,2)] w(3) by (auto simp: isalnum_def isdigit_def schar_def)
  obtain st2 where 2: "parse_valop st1 = (?o, st2)" "ahead st2 (value_text ?v @ r)"
    using parse_valop_text [of st1 ?o "value_text ?v @ r"] 1 rows by auto
  have "\<exists>st3. (if ?o = vo_in then parse_vallist st2 else parse_value st2) = (Some ?v, st3) \<and> ahead st3 r"
  proof (cases "?o = vo_in")
    case True
    then obtain l where l: "?v = V_list l" using rows by (cases ?v) auto
    then obtain u us where us: "l = u # us" "\<forall>w \<in> set (u # us). wt_atom w \<and> plain_value w"
      using v assms(3) by (cases l) (auto simp: list_all_iff)
    show ?thesis
      using parse_vallist_text [OF assms(4), of st2 u us "[]"] 2 l us True
      by (auto simp: parse_vallist_def)
  next
    case False
    then have "wt_atom ?v" using rows v by (cases ?v) auto
    then show ?thesis
      using parse_value_text [OF 2(2)] assms(3,4) False by (auto simp: after_value_def)
  qed
  then show ?thesis
    using 1 2 rows row find_field_name [of ?f] by (auto simp: parse_valtest_def Let_def)
qed

section \<open>Expressions\<close>

fun plain_expr :: "expr \<Rightarrow> bool" where
  "plain_expr (Op_self vt) \<longleftrightarrow> plain_value (vval vt)"
| "plain_expr (Op_not e) \<longleftrightarrow> plain_expr e"
| "plain_expr (Op_and a b) \<longleftrightarrow> plain_expr a \<and> plain_expr b"
| "plain_expr (Op_or a b) \<longleftrightarrow> plain_expr a \<and> plain_expr b"

text \<open>How deep the parser recurses for a printed expression.\<close>

fun need :: "expr \<Rightarrow> nat" where
  "need (Op_self vt) = 1"
| "need (Op_not e) = need e + 2"
| "need (Op_and a b) = max (need a) (need b) + 1"
| "need (Op_or a b) = max (need a) (need b) + 1"

definition reads :: "expr \<Rightarrow> bool" where
  "reads e \<longleftrightarrow> (\<forall>n st r. need e \<le> n \<longrightarrow> ahead st (expr_text e @ r) \<longrightarrow> skip r = [] \<or> hd (skip r) = CHR '')'' \<longrightarrow>
     (\<exists>st'. parse_expr n st = Some (Some e, st') \<and> ahead st' r))"

text \<open>After an operand: the closing brace ends the expression, and so does the end of the text.\<close>

lemma parse_expr_single:
  assumes "parse_one_expr n st = Some (Some e, st1)" "ahead st1 r" "skip r = [] \<or> hd (skip r) = CHR '')''"
  shows "\<exists>st'. parse_expr n st = Some (Some e, st') \<and> ahead st' r"
proof (cases "skip r")
  case Nil
  obtain st2 where 2: "parse_nonspace st1 = (EOF, st2)" "pend st2 [] []" using nonspace_end [OF assms(2) Nil] by auto
  have u: "pend (ps_undo st2) [] []" using pend_undo [OF 2(2)] by simp
  obtain st3 where 3: "parse_nonspace (ps_undo st2) = (EOF, st3)" "pend st3 [] []"
    using nonspace_end [OF pend_ahead [OF u]] by auto
  have d: "pend (ps_done st3) [] []" using pend_done [OF 3(2)] .
  then have "ps_eof (ps_done st3)" by (auto simp: pend_def ps_eof_def)
  moreover have "ahead (ps_done st3) r" using d Nil by (auto intro: ahead_drop [OF pend_ahead])
  ultimately show ?thesis
    using assms(1) 2 3 by (auto simp: parse_expr.simps parse_operator_def schar_def)
next
  case (Cons c r')
  with assms(3) have c: "c = CHR '')''" by simp
  obtain st2 where 2: "parse_nonspace st1 = (schar c, st2)" "pend (ps_undo st2) [] (c # r')"
    using nonspace_peek [OF assms(2) Cons] c by auto
  have "ahead (ps_undo st2) r" using 2(2) Cons by (metis ahead_drop skip_idem pend_ahead)
  with assms(1) 2 c show ?thesis by (auto simp: parse_expr.simps)
qed

text \<open>An expression in braces.\<close>

lemma parse_one_braced:
  assumes "reads e" "need e \<le> n" "ahead st (''( '' @ expr_text e @ '' )'' @ r)"
  shows "\<exists>st'. parse_one_expr (Suc n) st = Some (Some e, st') \<and> ahead st' r"
proof -
  have sp: "\<not> space (CHR ''('')" "\<not> space (CHR '')'')" "space (CHR '' '')"
    by (simp_all add: isspace_def schar_def)
  obtain st1 where 1: "parse_nonspace st = (schar (CHR ''(''), st1)"
      "pend (ps_done st1) [] ('' '' @ expr_text e @ '' )'' @ r)"
    using nonspace_peek [OF assms(3), of "CHR ''(''" "'' '' @ expr_text e @ '' )'' @ r"] sp by auto
  have "ahead (ps_done st1) (expr_text e @ '' )'' @ r)"
    using 1(2) sp by (auto intro: ahead_drop [OF pend_ahead])
  then obtain st2 where 2: "parse_expr n (ps_done st1) = Some (Some e, st2)" "ahead st2 ('' )'' @ r)"
    using assms(1,2) sp by (fastforce simp: reads_def)
  obtain st3 where 3: "parse_nonspace st2 = (schar (CHR '')''), st3)" "pend (ps_done st3) [] r"
    using nonspace_peek [OF 2(2), of "CHR '')''" r] sp by auto
  from 1 2 3 show ?thesis by (auto simp: parse_one_expr.simps(2) intro: pend_ahead)
qed

lemma valtest_text_first: "wt_valtest vt \<Longrightarrow> \<exists>c t. valtest_text vt = c # t \<and> alnum c"
  using vttypes_rows valfield_alnum [of _ "vfield vt"]
  by (cases "valfield_name (vfield vt)"; cases "vfield vt") (auto simp: wt_valtest_def valtest_text_def)

lemma reads_self: "wt_valtest vt \<Longrightarrow> plain_value (vval vt) \<Longrightarrow> reads (Op_self vt)"
  unfolding reads_def
proof (intro allI impI)
  fix n st r assume w: "wt_valtest vt" "plain_value (vval vt)" and n: "need (Op_self vt) \<le> n"
    and a: "ahead st (expr_text (Op_self vt) @ r)" and r: "skip r = [] \<or> hd (skip r) = CHR '')''"
  obtain c t where c: "valtest_text vt = c # t" "alnum c" using valtest_text_first w by blast
  then have nc: "\<not> space c" "c \<noteq> NUL" "c \<noteq> CHR ''(''" "c \<noteq> CHR '')''" "c \<noteq> CHR ''!''"
    using alnum_not_space alnum_not_NUL by (auto simp: isalnum_def isdigit_def schar_def)
  obtain st1 where 1: "parse_nonspace st = (schar c, st1)" "pend (ps_undo st1) [] (valtest_text vt @ r)"
    using nonspace_peek [OF a, of c "t @ r"] c nc by auto
  obtain st2 where 2: "parse_valtest (ps_undo st1) = (Some vt, st2)" "ahead st2 r"
    using parse_valtest_text [OF pend_ahead [OF 1(2)] w r] by auto
  obtain k where k: "n = Suc k" using n by (cases n) auto
  have "parse_one_expr n st = Some (Some (Op_self vt), st2)"
    using 1 2 nc k by (simp add: parse_one_expr.simps(2) parse_expr_val_def)
  from parse_expr_single [OF this 2(2) r]
  show "\<exists>st'. parse_expr n st = Some (Some (Op_self vt), st') \<and> ahead st' r" .
qed

lemma reads_not: "reads e \<Longrightarrow> reads (Op_not e)"
  unfolding reads_def [of "Op_not e"]
proof (intro allI impI)
  fix n st r assume e: "reads e" and n: "need (Op_not e) \<le> n"
    and a: "ahead st (expr_text (Op_not e) @ r)" and r: "skip r = [] \<or> hd (skip r) = CHR '')''"
  from n obtain k where k: "n = Suc (Suc k)" "need e \<le> k" by (cases n; cases "n - 1") auto
  have sp: "\<not> space (CHR ''!'')" by (simp add: isspace_def schar_def)
  obtain st1 where 1: "parse_nonspace st = (schar (CHR ''!''), st1)"
      "pend (ps_done st1) [] (''( '' @ expr_text e @ '' )'' @ r)"
    using nonspace_peek [OF a, of "CHR ''!''" "''( '' @ expr_text e @ '' )'' @ r"] sp by auto
  obtain st2 where 2: "parse_one_expr (Suc k) (ps_done st1) = Some (Some e, st2)" "ahead st2 r"
    using parse_one_braced [OF e k(2) pend_ahead [OF 1(2)]] by auto
  have "parse_one_expr n st = Some (Some (Op_not e), st2)"
    using 1 2 k by (simp add: parse_one_expr.simps(2) [of "Suc k"] parse_expr_not.simps)
  from parse_expr_single [OF this 2(2) r]
  show "\<exists>st'. parse_expr n st = Some (Some (Op_not e), st') \<and> ahead st' r" .
qed

lemma reads_binary:
  assumes "reads a" "reads b" "need a \<le> k" "need b \<le> k"
    and "ahead st (''( '' @ expr_text a @ '' )'' @ c # ''( '' @ expr_text b @ '' )'' @ r)"
    and "c = CHR ''&'' \<and> oper = op_and \<or> c = CHR ''|'' \<and> oper = op_or"
  shows "\<exists>st'. parse_expr (Suc k) st = Some (Some (mk_binary oper a b), st') \<and> ahead st' r"
proof -
  let ?b = "''( '' @ expr_text b @ '' )'' @ r"
  have sp: "\<not> space c" "c \<noteq> NUL" "c \<noteq> CHR '')''" using assms(6) by (auto simp: isspace_def schar_def)
  obtain st1 where 1: "parse_one_expr (Suc k) st = Some (Some a, st1)" "ahead st1 (c # ?b)"
    using parse_one_braced [OF assms(1,3), of st "c # ?b"] assms(5) by auto
  obtain st2 where 2: "parse_nonspace st1 = (schar c, st2)" "pend (ps_undo st2) [] (c # ?b)"
    using nonspace_peek [OF 1(2), of c ?b] sp by auto
  obtain st3 where 3: "parse_nonspace (ps_undo st2) = (schar c, st3)" "pend (ps_done st3) [] ?b"
    using nonspace_peek [OF pend_ahead [OF 2(2)], of c ?b] sp by auto
  obtain st4 where 4: "parse_one_expr (Suc k) (ps_done st3) = Some (Some b, st4)" "ahead st4 r"
    using parse_one_braced [OF assms(2,4) pend_ahead [OF 3(2)]] by auto
  have "parse_operator (ps_undo st2) = (oper, ps_done st3)" "oper \<noteq> op_none"
    using 3 assms(6) by (auto simp: parse_operator_def)
  with 1 2 4 sp show ?thesis by (auto simp: parse_expr.simps)
qed

lemma expr_reads: "wt_expr e \<Longrightarrow> plain_expr e \<Longrightarrow> reads e"
proof (induction e)
  case (Op_self vt)
  then show ?case by (simp add: reads_self)
next
  case (Op_not e)
  then show ?case by (simp add: reads_not)
next
  case (Op_and a b)
  show ?case unfolding reads_def
  proof (intro allI impI)
    fix n st r assume n: "need (Op_and a b) \<le> n" and s: "ahead st (expr_text (Op_and a b) @ r)"
    then obtain k where k: "n = Suc k" "need a \<le> k" "need b \<le> k" by (cases n) auto
    show "\<exists>st'. parse_expr n st = Some (Some (Op_and a b), st') \<and> ahead st' r"
      using reads_binary [of a b k st "CHR ''&''" r op_and] Op_and k s by (simp add: mk_binary_def)
  qed
next
  case (Op_or a b)
  show ?case unfolding reads_def
  proof (intro allI impI)
    fix n st r assume n: "need (Op_or a b) \<le> n" and s: "ahead st (expr_text (Op_or a b) @ r)"
    then obtain k where k: "n = Suc k" "need a \<le> k" "need b \<le> k" by (cases n) auto
    show "\<exists>st'. parse_expr n st = Some (Some (Op_or a b), st') \<and> ahead st' r"
      using reads_binary [of a b k st "CHR ''|''" r op_or] Op_or k s by (simp add: mk_binary_def)
  qed
qed

lemma need_length: "wt_expr e \<Longrightarrow> need e \<le> length (expr_text e)"
proof (induction e)
  case (Op_self vt)
  then show ?case using valtest_text_first [of vt] by auto
qed auto

lemma wt_full: "wt_expr e \<Longrightarrow> full_expr e"
proof (induction e)
  case (Op_self vt)
  have atom: "wt_atom v \<Longrightarrow> full_value v" for v by (cases v) auto
  from Op_self show ?case by (cases "vval vt") (auto simp: wt_valtest_def list_all_iff atom)
qed auto

lemma plain_string_NUL: "plain_string s \<Longrightarrow> NUL \<notin> set s"
  by (induction s rule: plain_string.induct) (auto simp: plain_char_def)

lemma fmt_d_NUL: "0 \<le> n \<Longrightarrow> NUL \<notin> set (fmt_d n)"
  using dec_digits [of "nat n"] digit_alnum alnum_not_NUL by (fastforce simp: fmt_d_nonneg)

lemma value_text_NUL: "plain_value v \<Longrightarrow> NUL \<notin> set (value_text v)"
proof (induction v)
  case (V_list l)
  then have "\<forall>v \<in> set l. NUL \<notin> set (value_text v)" by auto
  then have "NUL \<notin> set (vallist_text b l)" for b by (induction l arbitrary: b) auto
  then show ?case by simp
qed (auto simp: plain_string_NUL fmt_d_NUL)

lemma expr_text_NUL: "plain_expr e \<Longrightarrow> NUL \<notin> set (expr_text e)"
proof (induction e)
  case (Op_self vt)
  have "NUL \<notin> set (valop_name (vop vt))" by (cases "vop vt") auto
  with Op_self value_text_NUL [of "vval vt"] valfield_alnum [of NUL "vfield vt"] alnum_not_NUL show ?case
    by (auto simp: valtest_text_def)
qed auto

lemma expr_parse_text:
  assumes "wt_expr e" "plain_expr e"
  shows "expr_parse_str (expr_text e) = Some (Some e, - 1, None)"
proof -
  let ?t = "expr_text e" and ?st = "\<lparr>inp = pi_str_new (expr_text e), msg = None, oob = False\<rparr>"
  have "pend ?st [] ?t" using expr_text_NUL [OF assms(2)] by (auto simp: pend_def pi_new_zip)
  then obtain st1 where 1: "parse_expr (Suc (length ?t)) ?st = Some (Some e, st1)" "ahead st1 []"
    using expr_reads [OF assms] need_length [OF assms(1)] pend_ahead [of ?st "[]" ?t]
    unfolding reads_def by (metis append_Nil2 le_SucI skip_Nil)
  obtain st2 where "parse_nonspace st1 = (EOF, st2)" using nonspace_end [OF 1(2)] by auto
  with 1 show ?thesis by (simp add: expr_parse_str_def expr_parse_def pi_str_new_def)
qed

section \<open>Properties\<close>

text \<open>
  C7: A filter that was printed whole is read back as the same filter: when \<open>expr_fmt\<close> returned less
  than the size of the array, \<open>expr_parse_str\<close> on the C string it left gives the expression it was
  called with, for every well typed expression with plain strings and no negative number.
\<close>

theorem expr_roundtrip:
  assumes "wt_expr e" "plain_expr e" "off + len \<le> length m"
    and "expr_fmt m off len e = Some (n, m')" "n < len"
  shows "expr_parse_str (cstr m' off) = Some (Some e, - 1, None)"
proof -
  have "cstr m' off = take (len - 1) (expr_text e)" "length (expr_text e) < len"
    using ef.result [OF wt_full [OF assms(1)] assms(3) _ expr_text_NUL [OF assms(2)] assms(4)] assms(5) by auto
  then have "cstr m' off = expr_text e" by simp
  then show ?thesis using expr_parse_text [OF assms(1,2)] by simp
qed

theorem expr_roundtrip_witness:
  "let e = Op_or (Op_self \<lparr>vfield = vf_title, vop = vo_re, vval = V_string [CHR ''a'', BACKSLASH, CHR ''b'']\<rparr>)
                 (Op_not (Op_self \<lparr>vfield = vf_tag, vop = vo_in, vval = V_list [V_num 4, V_num 17]\<rparr>));
       m = replicate 64 (CHR ''x'')
   in expr_fmt m 2 60 e = Some (39, stamp m 2 60 (expr_text e)) \<and>
      expr_parse_str (cstr (stamp m 2 60 (expr_text e)) 2) = Some (Some e, - 1, None)"
proof -
  let ?e = "Op_or (Op_self \<lparr>vfield = vf_title, vop = vo_re, vval = V_string [CHR ''a'', BACKSLASH, CHR ''b'']\<rparr>)
                 (Op_not (Op_self \<lparr>vfield = vf_tag, vop = vo_in, vval = V_list [V_num 4, V_num 17]\<rparr>))"
  let ?m = "replicate 64 (CHR ''x'')"
  have f: "expr_fmt ?m 2 60 ?e = Some (39, stamp ?m 2 60 (expr_text ?e))" by code_simp
  have h: "wt_expr ?e" "plain_expr ?e" "2 + 60 \<le> length ?m" "(39::nat) < 60"
    by code_simp+
  show ?thesis using expr_roundtrip [OF h(1-3) f h(4)] f by simp
qed


end
