(* ===== verification/Filterstore.thy ===== *)
theory Filterstore
  imports Login Roundtrip
begin

text \<open>
  The filter over a restart (\<open>save_filter\<close> and \<open>load_filter\<close> of \<open>src/main.c\<close>): printing, storing under the name of the
  option \<open>sfilter\<close>, and reading again.
\<close>

lemma bind_snd: "do { (r, w) \<leftarrow> x; Some w } = map_option snd x"
  by (cases x) auto

lemma expr_fmt_text:
  assumes "wt_expr e" "plain_expr e" "length (expr_text e) < len" "off + len \<le> length m"
  shows "\<exists>n m'. expr_fmt m off len e = Some (n, m') \<and> cstr m' off = expr_text e"
proof -
  note full = wt_full [OF assms(1)]
  obtain n m' where f: "expr_fmt m off len e = Some (n, m')" using ef.in_bounds [OF full assms(4)] by blast
  with ef.result [OF full assms(4) _ expr_text_NUL [OF assms(2)] f] assms(3) show ?thesis by auto
qed


text \<open>A database with one stored filter.\<close>

definition demo_filter :: expr where
  "demo_filter = Op_not (Op_self \<lparr>vfield = vf_year, vop = vo_lt, vval = V_num 1990\<rparr>)"

definition demo_store :: "(int \<times> string) list plst query" where
  "demo_store q w = Some (Some \<lparr>PQresultStatus = PGRES_TUPLES_OK, PQntuples = 1, PQfnumber = \<lambda>n. if n = ''filter'' then 1 else 0,
     PQgetvalue = \<lambda>t f. Some (if f = 0 then ''3'' else expr_text demo_filter), PQcmdTuples = ''1''\<rparr>, w)"

definition demo_stored :: "((int \<times> string) list, unit) cmdenv" where
  "demo_stored = (serving demo_sys)\<lparr>ce_env := (ce_env (serving demo_sys))\<lparr>pe_query := demo_store\<rparr>\<rparr>"

definition demo_named_sys :: "(int \<times> string) list sys" where
  "demo_named_sys = demo_sys\<lparr>s_opt := demo_opts\<lparr>opt_sfilter := ''last''\<rparr>\<rparr>"

lemma demo_lookup: "sfilter_id demo_store n w = Some (3, w)"
  "sfilter_get demo_store i w = Some (Some \<lparr>sf_id = 3, sf_name = ''3'', sf_filter = expr_text demo_filter\<rparr>, w)"
proof -
  have "pgint \<lparr>PQresultStatus = PGRES_TUPLES_OK, PQntuples = 1, PQfnumber = \<lambda>n. if n = ''filter'' then 1 else 0,
     PQgetvalue = \<lambda>t f. Some (if f = 0 then ''3'' else expr_text demo_filter), PQcmdTuples = ''1''\<rparr> 0 0 = Some 3"
    "strip_end (expr_text demo_filter) = expr_text demo_filter"
    by code_simp+
  then show "sfilter_id demo_store n w = Some (3, w)"
    "sfilter_get demo_store i w = Some (Some \<lparr>sf_id = 3, sf_name = ''3'', sf_filter = expr_text demo_filter\<rparr>, w)"
    by (simp_all add: sfilter_id_def sfilter_get_def db_get_id_def db_get_def demo_store_def tuples_ok_def sfilter_convert_def
        getfield_def pgstring_def)
qed


end
