(* ===== verification/Rowmem.thy ===== *)
theory Rowmem
  imports Dudl_Prelude
begin

text \<open>
  The memory of database rows: the \<open>_free\<close> and \<open>_use\<close> functions of \<open>src/pgdb\<close> on an explicit store of blocks. The
  other theories treat a row as a value; here every struct and every string is a block with an address, a row owns
  the blocks it points to, and freeing a block twice is undefined behaviour, \<open>None\<close>. The fields that are not
  pointers do not matter and are left out; address 0 is \<open>NULL\<close>.

  The locale \<open>owner\<close> is the contract of a free function: on an object with its footprint it removes exactly the
  footprint.
\<close>

section \<open>Blocks\<close>

type_synonym 'b store = "nat \<rightharpoonup> 'b"

definition free_block :: "nat \<Rightarrow> 'b store \<Rightarrow> 'b store option" where
  "free_block p s = (if p = 0 then Some s else if s p = None then None else Some (s(p := None)))"

definition without :: "'b store \<Rightarrow> nat set \<Rightarrow> 'b store" where
  "without s F = s |` (- F)"

lemma without_simps [simp]: "without s {} = s" "without (without s F) G = without s (F \<union> G)" "p \<notin> F \<Longrightarrow> without s F p = s p"
  "p \<in> F \<Longrightarrow> without s F p = None"
  by (auto simp: without_def restrict_map_def fun_eq_iff)

locale owner =
  fixes release :: "nat \<Rightarrow> 'b store \<Rightarrow> 'b store option" and at :: "'b store \<Rightarrow> nat \<Rightarrow> nat set \<Rightarrow> bool"
  assumes released: "at s p F \<Longrightarrow> release p s = Some (without s F)"
    and footprint: "at s p F \<Longrightarrow> \<forall>q\<in>F. s' q = s q \<Longrightarrow> at s' p F"
begin

lemma kept: "at s p F \<Longrightarrow> F \<inter> G = {} \<Longrightarrow> at (without s G) p F"
  by (erule footprint) (auto simp: without_def restrict_map_def)

text \<open>After other blocks are gone.\<close>

lemma released_after: "at s p F \<Longrightarrow> F \<inter> G = {} \<Longrightarrow> release p (without s G) = Some (without s (G \<union> F))"
  using released [OF kept, of s p F G] by simp

end

text \<open>The block of an object, freed last.\<close>

lemma free_own: "s p \<noteq> None \<Longrightarrow> p \<noteq> 0 \<Longrightarrow> p \<notin> G \<Longrightarrow> free_block p (without s G) = Some (without s (insert p G))"
  by (auto simp: free_block_def without_def restrict_map_def fun_eq_iff)

section \<open>Rows\<close>

datatype row =
    R_str
  | R_artist nat
  | R_album nat nat
  | R_track int nat nat nat nat
  | R_user int nat nat
  | R_queue int nat nat
  | R_history nat nat
  | R_tag nat nat
  | R_sfilter nat nat

text \<open>
  The pointers of the structs: \<open>t_artist\<close> name; \<open>t_album\<close> artist and name; \<open>t_track\<close> references, album, artist, file
  name and title; \<open>t_user\<close> references, password and name; \<open>t_queue\<close> references, user and track; \<open>t_history\<close> user and
  track; \<open>t_tag\<close> description and name; \<open>t_sfilter\<close> name and filter.
\<close>

definition artist_free :: "nat \<Rightarrow> row store \<Rightarrow> row store option" where
  "artist_free p s =
     (if p = 0 then Some s
      else case s p of
        Some (R_artist n) \<Rightarrow> do { s \<leftarrow> free_block n s; free_block p s }
      | _ \<Rightarrow> None)"

definition album_free :: "nat \<Rightarrow> row store \<Rightarrow> row store option" where
  "album_free p s =
     (if p = 0 then Some s
      else case s p of
        Some (R_album a n) \<Rightarrow> do { s \<leftarrow> artist_free a s; s \<leftarrow> free_block n s; free_block p s }
      | _ \<Rightarrow> None)"

definition track_use :: "nat \<Rightarrow> row store \<Rightarrow> (nat \<times> row store) option" where
  "track_use p s =
     (case s p of
        Some (R_track r al ar f t) \<Rightarrow> Some (p, s(p \<mapsto> R_track (r + 1) al ar f t))
      | _ \<Rightarrow> None)"

definition track_free :: "nat \<Rightarrow> row store \<Rightarrow> row store option" where
  "track_free p s =
     (if p = 0 then Some s
      else case s p of
        Some (R_track r al ar f t) \<Rightarrow>
          if r - 1 > 0 then Some (s(p \<mapsto> R_track (r - 1) al ar f t))
          else do {
            s \<leftarrow> album_free al s; s \<leftarrow> artist_free ar s; s \<leftarrow> free_block f s; s \<leftarrow> free_block t s; free_block p s }
      | _ \<Rightarrow> None)"

definition user_free :: "nat \<Rightarrow> row store \<Rightarrow> row store option" where
  "user_free p s =
     (if p = 0 then Some s
      else case s p of
        Some (R_user r pw n) \<Rightarrow>
          if r - 1 > 0 then Some (s(p \<mapsto> R_user (r - 1) pw n))
          else do { s \<leftarrow> free_block pw s; s \<leftarrow> free_block n s; free_block p s }
      | _ \<Rightarrow> None)"

definition queue_use :: "nat \<Rightarrow> row store \<Rightarrow> row store option" where
  "queue_use p s =
     (if p = 0 then Some s
      else case s p of
        Some (R_queue r u t) \<Rightarrow> Some (s(p \<mapsto> R_queue (r + 1) u t))
      | _ \<Rightarrow> None)"

definition queue_free :: "nat \<Rightarrow> row store \<Rightarrow> row store option" where
  "queue_free p s =
     (if p = 0 then Some s
      else case s p of
        Some (R_queue r u t) \<Rightarrow>
          if r - 1 > 0 then Some (s(p \<mapsto> R_queue (r - 1) u t))
          else do { s \<leftarrow> user_free u s; s \<leftarrow> track_free t s; free_block p s }
      | _ \<Rightarrow> None)"

definition queue_track :: "nat \<Rightarrow> row store \<Rightarrow> (nat \<times> row store) option" where
  "queue_track p s =
     (if p = 0 then Some (0, s)
      else case s p of
        Some (R_queue r u t) \<Rightarrow> track_use t s
      | _ \<Rightarrow> None)"

definition history_free :: "nat \<Rightarrow> row store \<Rightarrow> row store option" where
  "history_free p s =
     (if p = 0 then Some s
      else case s p of
        Some (R_history u t) \<Rightarrow> do { s \<leftarrow> user_free u s; s \<leftarrow> track_free t s; free_block p s }
      | _ \<Rightarrow> None)"

definition history_track :: "nat \<Rightarrow> row store \<Rightarrow> (nat \<times> row store) option" where
  "history_track p s = (case s p of Some (R_history u t) \<Rightarrow> track_use t s | _ \<Rightarrow> None)"

definition tag_free :: "nat \<Rightarrow> row store \<Rightarrow> row store option" where
  "tag_free p s =
     (if p = 0 then Some s
      else case s p of
        Some (R_tag d n) \<Rightarrow> do { s \<leftarrow> free_block d s; s \<leftarrow> free_block n s; free_block p s }
      | _ \<Rightarrow> None)"

definition sfilter_free :: "nat \<Rightarrow> row store \<Rightarrow> row store option" where
  "sfilter_free p s =
     (if p = 0 then Some s
      else case s p of
        Some (R_sfilter n f) \<Rightarrow> do { s \<leftarrow> free_block n s; s \<leftarrow> free_block f s; free_block p s }
      | _ \<Rightarrow> None)"

section \<open>Footprints\<close>

definition str_at :: "row store \<Rightarrow> nat \<Rightarrow> nat set \<Rightarrow> bool" where
  "str_at s p F \<longleftrightarrow> p = 0 \<and> F = {} \<or> p \<noteq> 0 \<and> s p = Some R_str \<and> F = {p}"

definition artist_at :: "row store \<Rightarrow> nat \<Rightarrow> nat set \<Rightarrow> bool" where
  "artist_at s p F \<longleftrightarrow> p = 0 \<and> F = {} \<or>
     p \<noteq> 0 \<and> (\<exists>n N. s p = Some (R_artist n) \<and> str_at s n N \<and> p \<notin> N \<and> F = insert p N)"

definition album_at :: "row store \<Rightarrow> nat \<Rightarrow> nat set \<Rightarrow> bool" where
  "album_at s p F \<longleftrightarrow> p = 0 \<and> F = {} \<or>
     p \<noteq> 0 \<and> (\<exists>a n A N. s p = Some (R_album a n) \<and> artist_at s a A \<and> str_at s n N \<and> A \<inter> N = {} \<and> p \<notin> A \<union> N \<and>
       F = insert p (A \<union> N))"

definition track_at :: "int \<Rightarrow> row store \<Rightarrow> nat \<Rightarrow> nat set \<Rightarrow> bool" where
  "track_at r s p F \<longleftrightarrow>
     p \<noteq> 0 \<and> (\<exists>al ar f t A B M N. s p = Some (R_track r al ar f t) \<and> album_at s al A \<and> artist_at s ar B \<and> str_at s f M \<and> str_at s t N \<and>
       B \<inter> A = {} \<and> M \<inter> (A \<union> B) = {} \<and> N \<inter> (A \<union> B \<union> M) = {} \<and> p \<notin> A \<union> B \<union> M \<union> N \<and> F = insert p (A \<union> B \<union> M \<union> N))"

definition user_at :: "int \<Rightarrow> row store \<Rightarrow> nat \<Rightarrow> nat set \<Rightarrow> bool" where
  "user_at r s p F \<longleftrightarrow>
     p \<noteq> 0 \<and> (\<exists>pw n M N. s p = Some (R_user r pw n) \<and> str_at s pw M \<and> str_at s n N \<and> N \<inter> M = {} \<and> p \<notin> M \<union> N \<and> F = insert p (M \<union> N))"

interpretation str: owner free_block str_at
  by unfold_locales (auto simp: str_at_def free_block_def without_def restrict_complement_singleton_eq)

interpretation artist: owner artist_free artist_at
proof
  fix s p F assume "artist_at s p F"
  then show "artist_free p s = Some (without s F)"
    using str.released by (auto simp: artist_at_def artist_free_def free_own)
next
  fix s s' :: "row store" and p F assume at: "artist_at s p F" and eq: "\<forall>q\<in>F. s' q = s q"
  show "artist_at s' p F"
  proof (cases "p = 0")
    case False
    then obtain n N where o: "s p = Some (R_artist n)" "str_at s n N" "p \<notin> N" "F = insert p N" using at by (auto simp: artist_at_def)
    then have "str_at s' n N" using str.footprint [of s n N s'] eq by blast
    then show ?thesis using o eq False by (auto simp: artist_at_def)
  qed (use at in \<open>simp add: artist_at_def\<close>)
qed

interpretation album: owner album_free album_at
proof
  fix s p F assume "album_at s p F"
  then show "album_free p s = Some (without s F)"
    unfolding album_at_def
    by (elim disjE conjE exE) (simp_all add: album_free_def artist.released str.released_after free_own Int_commute)
next
  fix s s' :: "row store" and p F assume at: "album_at s p F" and eq: "\<forall>q\<in>F. s' q = s q"
  show "album_at s' p F"
  proof (cases "p = 0")
    case False
    then obtain a n A N where o: "s p = Some (R_album a n)" "artist_at s a A" "str_at s n N" "A \<inter> N = {}" "p \<notin> A \<union> N"
        "F = insert p (A \<union> N)"
      using at unfolding album_at_def by blast
    then have "artist_at s' a A" "str_at s' n N" using artist.footprint [of s a A s'] str.footprint [of s n N s'] eq by blast+
    moreover have "s' p = Some (R_album a n)" using o eq by simp
    ultimately show ?thesis using o False unfolding album_at_def by blast
  qed (use at in \<open>simp add: album_at_def\<close>)
qed

interpretation track: owner track_free "track_at 1"
proof
  fix s p F assume "track_at 1 s p F"
  then show "track_free p s = Some (without s F)"
    unfolding track_at_def
    by (elim conjE exE) (simp add: track_free_def album.released artist.released_after str.released_after free_own Un_assoc)
next
  fix s s' :: "row store" and p F assume at: "track_at 1 s p F" and eq: "\<forall>q\<in>F. s' q = s q"
  obtain al ar f t A B M N where o: "p \<noteq> 0" "s p = Some (R_track 1 al ar f t)" "album_at s al A" "artist_at s ar B" "str_at s f M"
      "str_at s t N" "B \<inter> A = {}" "M \<inter> (A \<union> B) = {}" "N \<inter> (A \<union> B \<union> M) = {}" "p \<notin> A \<union> B \<union> M \<union> N" "F = insert p (A \<union> B \<union> M \<union> N)"
    using at unfolding track_at_def by blast
  then have "album_at s' al A" "artist_at s' ar B" "str_at s' f M" "str_at s' t N"
    using album.footprint [of s al A s'] artist.footprint [of s ar B s'] str.footprint [of s f M s'] str.footprint [of s t N s'] eq
    by blast+
  moreover have "s' p = Some (R_track 1 al ar f t)" using o eq by simp
  ultimately show "track_at 1 s' p F" using o unfolding track_at_def by blast
qed

interpretation user: owner user_free "user_at 1"
proof
  fix s p F assume "user_at 1 s p F"
  then show "user_free p s = Some (without s F)"
    unfolding user_at_def by (elim conjE exE) (simp add: user_free_def str.released str.released_after free_own)
next
  fix s s' :: "row store" and p F assume at: "user_at 1 s p F" and eq: "\<forall>q\<in>F. s' q = s q"
  obtain pw n M N where o: "p \<noteq> 0" "s p = Some (R_user 1 pw n)" "str_at s pw M" "str_at s n N" "N \<inter> M = {}" "p \<notin> M \<union> N"
      "F = insert p (M \<union> N)"
    using at unfolding user_at_def by blast
  then have "str_at s' pw M" "str_at s' n N" using str.footprint [of s pw M s'] str.footprint [of s n N s'] eq by blast+
  moreover have "s' p = Some (R_user 1 pw n)" using o eq by simp
  ultimately show "user_at 1 s' p F" using o unfolding user_at_def by blast
qed

definition queue_at :: "row store \<Rightarrow> nat \<Rightarrow> nat set \<Rightarrow> bool" where
  "queue_at s p F \<longleftrightarrow>
     p \<noteq> 0 \<and> (\<exists>u t U T. s p = Some (R_queue 1 u t) \<and> user_at 1 s u U \<and> track_at 1 s t T \<and> T \<inter> U = {} \<and> p \<notin> U \<union> T \<and> F = insert p (U \<union> T))"

definition history_at :: "row store \<Rightarrow> nat \<Rightarrow> nat set \<Rightarrow> bool" where
  "history_at s p F \<longleftrightarrow>
     p \<noteq> 0 \<and> (\<exists>u t U T. s p = Some (R_history u t) \<and> user_at 1 s u U \<and> track_at 1 s t T \<and> T \<inter> U = {} \<and> p \<notin> U \<union> T \<and> F = insert p (U \<union> T))"

text \<open>Rows with two strings.\<close>

definition pair_at :: "(nat \<Rightarrow> nat \<Rightarrow> row) \<Rightarrow> row store \<Rightarrow> nat \<Rightarrow> nat set \<Rightarrow> bool" where
  "pair_at R s p F \<longleftrightarrow>
     p \<noteq> 0 \<and> (\<exists>m n M N. s p = Some (R m n) \<and> str_at s m M \<and> str_at s n N \<and> N \<inter> M = {} \<and> p \<notin> M \<union> N \<and> F = insert p (M \<union> N))"

lemma user_track_same:
  assumes "user_at 1 s u U" "track_at 1 s t T" "\<forall>q\<in>U \<union> T. s' q = s q"
  shows "user_at 1 s' u U \<and> track_at 1 s' t T"
  using user.footprint [OF assms(1)] track.footprint [OF assms(2)] assms(3) by blast

interpretation queue: owner queue_free queue_at
proof
  fix s p F assume "queue_at s p F"
  then show "queue_free p s = Some (without s F)"
    unfolding queue_at_def by (elim conjE exE) (simp add: queue_free_def user.released track.released_after free_own)
next
  fix s s' :: "row store" and p F assume at: "queue_at s p F" and eq: "\<forall>q\<in>F. s' q = s q"
  obtain u t U T where o: "p \<noteq> 0" "s p = Some (R_queue 1 u t)" "user_at 1 s u U" "track_at 1 s t T" "T \<inter> U = {}" "p \<notin> U \<union> T"
      "F = insert p (U \<union> T)"
    using at unfolding queue_at_def by blast
  moreover from this have "s' p = Some (R_queue 1 u t)" using eq by simp
  ultimately show "queue_at s' p F" using user_track_same [OF o(3,4)] eq unfolding queue_at_def by blast
qed

interpretation history: owner history_free history_at
proof
  fix s p F assume "history_at s p F"
  then show "history_free p s = Some (without s F)"
    unfolding history_at_def by (elim conjE exE) (simp add: history_free_def user.released track.released_after free_own)
next
  fix s s' :: "row store" and p F assume at: "history_at s p F" and eq: "\<forall>q\<in>F. s' q = s q"
  obtain u t U T where o: "p \<noteq> 0" "s p = Some (R_history u t)" "user_at 1 s u U" "track_at 1 s t T" "T \<inter> U = {}" "p \<notin> U \<union> T"
      "F = insert p (U \<union> T)"
    using at unfolding history_at_def by blast
  moreover from this have "s' p = Some (R_history u t)" using eq by simp
  ultimately show "history_at s' p F" using user_track_same [OF o(3,4)] eq unfolding history_at_def by blast
qed

lemma pair_same:
  assumes at: "pair_at R s p F" and eq: "\<forall>q\<in>F. s' q = s q"
  shows "pair_at R s' p F"
proof -
  obtain m n M N where o: "p \<noteq> 0" "s p = Some (R m n)" "str_at s m M" "str_at s n N" "N \<inter> M = {}" "p \<notin> M \<union> N" "F = insert p (M \<union> N)"
    using at unfolding pair_at_def by blast
  then have "str_at s' m M" "str_at s' n N" using str.footprint [of s m M s'] str.footprint [of s n N s'] eq by blast+
  moreover have "s' p = Some (R m n)" using o eq by simp
  ultimately show ?thesis using o unfolding pair_at_def by blast
qed

interpretation tag: owner tag_free "pair_at R_tag"
proof
  fix s p F assume "pair_at R_tag s p F"
  then show "tag_free p s = Some (without s F)"
    unfolding pair_at_def by (elim conjE exE) (simp add: tag_free_def str.released str.released_after free_own)
qed (rule pair_same)

interpretation sfilter: owner sfilter_free "pair_at R_sfilter"
proof
  fix s p F assume "pair_at R_sfilter s p F"
  then show "sfilter_free p s = Some (without s F)"
    unfolding pair_at_def by (elim conjE exE) (simp add: sfilter_free_def str.released str.released_after free_own)
qed (rule pair_same)

section \<open>References\<close>

lemma track_at_set:
  assumes "track_at r s t T"
  shows "\<exists>al ar f ti. s t = Some (R_track r al ar f ti) \<and> t \<noteq> 0 \<and> t \<in> T \<and> track_at r' (s(t \<mapsto> R_track r' al ar f ti)) t T"
proof -
  obtain al ar f ti A B M N where o: "t \<noteq> 0" "s t = Some (R_track r al ar f ti)" "album_at s al A" "artist_at s ar B" "str_at s f M"
      "str_at s ti N" "B \<inter> A = {}" "M \<inter> (A \<union> B) = {}" "N \<inter> (A \<union> B \<union> M) = {}" "t \<notin> A \<union> B \<union> M \<union> N" "T = insert t (A \<union> B \<union> M \<union> N)"
    using assms unfolding track_at_def by blast
  let ?s = "s(t \<mapsto> R_track r' al ar f ti)"
  have "album_at ?s al A" by (rule album.footprint [OF o(3)]) (use o(10) in auto)
  moreover have "artist_at ?s ar B" by (rule artist.footprint [OF o(4)]) (use o(10) in auto)
  moreover have "str_at ?s f M" "str_at ?s ti N" by (rule str.footprint [OF o(5)] str.footprint [OF o(6)], use o(10) in auto)+
  moreover have "?s t = Some (R_track r' al ar f ti)" by simp
  ultimately have "track_at r' ?s t T" using o unfolding track_at_def by blast
  then show ?thesis using o by auto
qed

text \<open>
  C16: The track of a queue entry outlives the entry. Taking it with \<open>queue_track\<close> and freeing the entry, as
  \<open>db_getnext\<close> does, frees the entry and its user and nothing of the track, which is then held once; freeing the
  track afterwards frees exactly the rest: no block is freed twice, none is left.
\<close>

theorem queue_track_outlives:
  assumes q: "q \<noteq> 0" "s q = Some (R_queue 1 u t)" and u: "user_at 1 s u U" and t: "track_at 1 s t T"
    and disj: "T \<inter> U = {}" "q \<notin> U \<union> T"
  shows "do { (p, s) \<leftarrow> queue_track q s; s \<leftarrow> queue_free q s; Some (p, s) } = Some (t, without s (insert q U)) \<and>
    track_at 1 (without s (insert q U)) t T \<and>
    track_free t (without s (insert q U)) = Some (without s (insert q U \<union> T))"
proof (intro conjI)
  have d: "T \<inter> insert q U = {}" using disj by auto
  show "track_at 1 (without s (insert q U)) t T" by (rule track.kept [OF t d])
  show "track_free t (without s (insert q U)) = Some (without s (insert q U \<union> T))" by (rule track.released_after [OF t d])
  obtain al ar f ti where tr: "s t = Some (R_track 1 al ar f ti)" "t \<noteq> 0" "t \<in> T" using track_at_set [OF t] by blast
  let ?s = "s(t \<mapsto> R_track 2 al ar f ti)"
  have use: "queue_track q s = Some (t, ?s)" using q tr by (simp add: queue_track_def track_use_def)
  have "user_at 1 ?s u U" by (rule user.footprint [OF u]) (use disj tr in auto)
  then have uf: "user_free u ?s = Some (without ?s U)" by (rule user.released)
  have t': "t \<notin> U" "t \<noteq> q" using disj tr by auto
  then have tf: "track_free t (without ?s U) = Some ((without ?s U)(t \<mapsto> R_track 1 al ar f ti))" using tr by (simp add: track_free_def)
  have "(without ?s U)(t \<mapsto> R_track 1 al ar f ti) = without s U"
    using tr t' by (auto simp: without_def restrict_map_def fun_eq_iff)
  moreover have "free_block q (without s U) = Some (without s (insert q U))" using q disj by (intro free_own) auto
  ultimately have "queue_free q ?s = Some (without s (insert q U))" using q t' uf tf by (simp add: queue_free_def)
  with use show "do { (p, s) \<leftarrow> queue_track q s; s \<leftarrow> queue_free q s; Some (p, s) } = Some (t, without s (insert q U))" by simp
qed

text \<open>A queue entry at 1 of user 2 for track 5, without album.\<close>

definition demo_rows :: "row store" where
  "demo_rows = [1 \<mapsto> R_queue 1 2 5, 2 \<mapsto> R_user 1 3 4, 3 \<mapsto> R_str, 4 \<mapsto> R_str, 5 \<mapsto> R_track 1 0 6 8 9, 6 \<mapsto> R_artist 7, 7 \<mapsto> R_str,
     8 \<mapsto> R_str, 9 \<mapsto> R_str]"

lemma demo_rows_at: "user_at 1 demo_rows 2 {2, 3, 4}" "track_at 1 demo_rows 5 {5, 6, 7, 8, 9}"
proof -
  have m: "demo_rows 2 = Some (R_user 1 3 4)" "demo_rows 5 = Some (R_track 1 0 6 8 9)" "demo_rows 6 = Some (R_artist 7)"
    by (simp_all add: demo_rows_def)
  have s: "str_at demo_rows 3 {3}" "str_at demo_rows 4 {4}" "str_at demo_rows 7 {7}" "str_at demo_rows 8 {8}" "str_at demo_rows 9 {9}"
    by (simp_all add: str_at_def demo_rows_def)
  show "user_at 1 demo_rows 2 {2, 3, 4}"
    unfolding user_at_def by (rule conjI, simp, rule exI [of _ 3], rule exI [of _ 4], rule exI [of _ "{3}"], rule exI [of _ "{4}"]) (simp add: m s insert_commute)
  have a: "artist_at demo_rows 6 {6, 7}"
    unfolding artist_at_def by (rule disjI2, rule conjI, simp, rule exI [of _ 7], rule exI [of _ "{7}"]) (simp add: m s)
  have b: "album_at demo_rows 0 {}" by (simp add: album_at_def)
  show "track_at 1 demo_rows 5 {5, 6, 7, 8, 9}"
    unfolding track_at_def
    by (rule conjI, simp, rule exI [of _ 0], rule exI [of _ 6], rule exI [of _ 8], rule exI [of _ 9], rule exI [of _ "{}"],
        rule exI [of _ "{6, 7}"], rule exI [of _ "{8}"], rule exI [of _ "{9}"]) (simp add: m s a b insert_commute)
qed

theorem queue_track_outlives_witness:
  "do { (p, s) \<leftarrow> queue_track 1 demo_rows; s \<leftarrow> queue_free 1 s; track_free p s } = Some (\<lambda>p. None)"
proof -
  have q: "(1::nat) \<noteq> 0" "demo_rows 1 = Some (R_queue 1 2 5)" by (simp_all add: demo_rows_def)
  have d: "{5, 6, 7, 8, 9} \<inter> {2, 3, 4 :: nat} = {}" "(1 :: nat) \<notin> {2, 3, 4} \<union> {5, 6, 7, 8, 9}" by auto
  note r = queue_track_outlives [OF q demo_rows_at d]
  have e: "without demo_rows (insert 1 {2, 3, 4} \<union> {5, 6, 7, 8, 9}) = (\<lambda>p. None)"
    by (auto simp: without_def restrict_map_def demo_rows_def fun_eq_iff)
  obtain p s1 s2 where "queue_track 1 demo_rows = Some (p, s1)" "queue_free 1 s1 = Some s2" "p = 5" "s2 = without demo_rows (insert 1 {2, 3, 4})"
    using conjunct1 [OF r] by (auto simp: bind_eq_Some_conv)
  then show ?thesis using r e by simp
qed

end
