(* ===== verification/Exprmem.thy ===== *)
theory Exprmem
  imports Rowmem Parseexpr
begin

text \<open>
  The memory of filter expressions: \<open>expr_copy\<close> and the free functions of \<open>src/commondb/parseexpr.c\<close> on a store of
  blocks. \<open>Parseexpr\<close> treats an expression as a value; \<open>expr_at\<close> says which blocks the parser's tree for it
  occupies, and the theorems say which of them \<open>expr_free\<close> gives back. The input buffers of
  \<open>src/commondb/parsebuf.c\<close> are blocks too: a \<open>parser_input\<close> with its \<open>pi_str\<close>.
\<close>

section \<open>Blocks of an expression\<close>

text \<open>The union of \<open>value\<close>, with its tag: a number, the address of a string, the address of an array of values.\<close>

datatype vnode = VN_num int | VN_string nat | VN_list nat

text \<open>The union of \<open>expr\<close>, with its tag.\<close>

datatype enode = E_none | E_self nat | E_not nat | E_and nat nat | E_or nat nat | E_max

datatype block =
    B_str string
  | B_array "nat list"
  | B_value vnode
  | B_test valfield valop nat
  | B_expr enode int
  | B_cursor
  | B_input nat

section \<open>Operations\<close>

fun free_blocks :: "nat list \<Rightarrow> 'b store \<Rightarrow> 'b store option" where
  "free_blocks [] s = Some s"
| "free_blocks (p # ps) s = do { s \<leftarrow> free_block p s; free_blocks ps s }"

definition vallist_free :: "nat \<Rightarrow> block store \<Rightarrow> block store option" where
  "vallist_free v s =
     (if v = 0 then Some s
      else case s v of
        Some (B_array ps) \<Rightarrow> do { s \<leftarrow> free_blocks ps s; free_block v s }
      | _ \<Rightarrow> None)"

definition value_free :: "nat \<Rightarrow> block store \<Rightarrow> block store option" where
  "value_free v s =
     (case s v of
        Some (B_value n) \<Rightarrow> do {
          s \<leftarrow> (case n of VN_num i \<Rightarrow> Some s | VN_string p \<Rightarrow> free_block p s | VN_list p \<Rightarrow> vallist_free p s);
          free_block v s }
      | _ \<Rightarrow> None)"

definition valtest_free :: "nat \<Rightarrow> block store \<Rightarrow> block store option" where
  "valtest_free t s =
     (case s t of
        Some (B_test f p v) \<Rightarrow> do { s \<leftarrow> value_free v s; free_block t s }
      | _ \<Rightarrow> None)"

partial_function (option) expr_free :: "nat \<Rightarrow> block store \<Rightarrow> block store option" where
  "expr_free e s =
     (if e = 0 then Some s
      else case s e of
        Some (B_expr n r) \<Rightarrow>
          let s = s(e \<mapsto> B_expr n (r - 1)) in
          if r - 1 > 0 then Some s
          else do {
            s \<leftarrow> (case n of
                  E_self t \<Rightarrow> valtest_free t s
                | E_not x \<Rightarrow> expr_free x s
                | E_and x y \<Rightarrow> do { s \<leftarrow> free_block x s; free_block y s }
                | E_or x y \<Rightarrow> do { s \<leftarrow> free_block x s; free_block y s }
                | E_none \<Rightarrow> Some s
                | E_max \<Rightarrow> Some s);
            free_block e s }
      | _ \<Rightarrow> None)"

definition expr_copy :: "nat \<Rightarrow> block store \<Rightarrow> (nat \<times> block store) option" where
  "expr_copy e s =
     (if e = 0 then Some (0, s)
      else case s e of
        Some (B_expr n r) \<Rightarrow> Some (e, s(e \<mapsto> B_expr n (r + 1)))
      | _ \<Rightarrow> None)"

definition pi_str_free :: "nat \<Rightarrow> block store \<Rightarrow> block store option" where
  "pi_str_free d s = free_block d s"

text \<open>The method \<open>free\<close> of a \<open>parser_input\<close> is always \<open>pi_str_free\<close>.\<close>

definition pi_free :: "nat \<Rightarrow> block store \<Rightarrow> block store option" where
  "pi_free i s =
     (case s i of
        Some (B_input d) \<Rightarrow> do { s \<leftarrow> pi_str_free d s; free_block i s }
      | _ \<Rightarrow> None)"

section \<open>What the free functions give back\<close>

definition array_owned :: "block store \<Rightarrow> nat \<Rightarrow> nat set \<Rightarrow> bool" where
  "array_owned s p F \<longleftrightarrow> p \<noteq> 0 \<and> (\<exists>ps. s p = Some (B_array ps) \<and> distinct ps \<and> (\<forall>q\<in>set ps. q \<noteq> 0 \<and> s q \<noteq> None) \<and> p \<notin> set ps \<and>
     F = insert p (set ps))"

definition value_owned :: "block store \<Rightarrow> nat \<Rightarrow> nat set \<Rightarrow> bool" where
  "value_owned s v F \<longleftrightarrow> v \<noteq> 0 \<and>
     ((\<exists>i. s v = Some (B_value (VN_num i)) \<and> F = {v}) \<or>
      (\<exists>p t. s v = Some (B_value (VN_string p)) \<and> p \<noteq> 0 \<and> s p = Some (B_str t) \<and> p \<noteq> v \<and> F = {v, p}) \<or>
      (\<exists>p G. s v = Some (B_value (VN_list p)) \<and> array_owned s p G \<and> v \<notin> G \<and> F = insert v G))"

definition test_owned :: "block store \<Rightarrow> nat \<Rightarrow> nat set \<Rightarrow> bool" where
  "test_owned s t F \<longleftrightarrow> t \<noteq> 0 \<and> (\<exists>f p v G. s t = Some (B_test f p v) \<and> value_owned s v G \<and> t \<notin> G \<and> F = insert t G)"

definition input_owned :: "block store \<Rightarrow> nat \<Rightarrow> nat set \<Rightarrow> bool" where
  "input_owned s i F \<longleftrightarrow> i \<noteq> 0 \<and> (\<exists>d. s i = Some (B_input d) \<and> d \<noteq> 0 \<and> s d = Some B_cursor \<and> d \<noteq> i \<and> F = {i, d})"

text \<open>Below a conjunction or disjunction only the two nodes themselves are freed.\<close>

inductive expr_owned :: "block store \<Rightarrow> nat \<Rightarrow> nat set \<Rightarrow> bool" where
  own_self: "e \<noteq> 0 \<Longrightarrow> s e = Some (B_expr (E_self t) 1) \<Longrightarrow> test_owned s t G \<Longrightarrow> e \<notin> G \<Longrightarrow> expr_owned s e (insert e G)"
| own_not: "e \<noteq> 0 \<Longrightarrow> s e = Some (B_expr (E_not x) 1) \<Longrightarrow> expr_owned s x G \<Longrightarrow> e \<notin> G \<Longrightarrow> expr_owned s e (insert e G)"
| own_two: "e \<noteq> 0 \<Longrightarrow> s e = Some (B_expr n 1) \<Longrightarrow> n = E_and x y \<or> n = E_or x y \<Longrightarrow> x \<noteq> 0 \<Longrightarrow> y \<noteq> 0 \<Longrightarrow> s x \<noteq> None \<Longrightarrow> s y \<noteq> None \<Longrightarrow>
    distinct [e, x, y] \<Longrightarrow> expr_owned s e {e, x, y}"

lemma free_blocks_without:
  "distinct ps \<Longrightarrow> \<forall>q\<in>set ps. q \<noteq> 0 \<and> s q \<noteq> None \<Longrightarrow> set ps \<inter> F = {} \<Longrightarrow>
    free_blocks ps (without s F) = Some (without s (F \<union> set ps))"
  by (induction ps arbitrary: F) (auto simp: free_own)

lemma free_blocks_all: "distinct ps \<Longrightarrow> \<forall>q\<in>set ps. q \<noteq> 0 \<and> s q \<noteq> None \<Longrightarrow> free_blocks ps s = Some (without s (set ps))"
  using free_blocks_without [of ps s "{}"] by simp

lemma free_one: "p \<noteq> 0 \<Longrightarrow> s p \<noteq> None \<Longrightarrow> free_block p s = Some (without s {p})"
  using free_own [of s p "{}"] by simp

interpretation input: owner pi_free input_owned
  by unfold_locales (auto simp: input_owned_def pi_free_def pi_str_free_def free_one free_own)

interpretation array: owner vallist_free array_owned
proof
  show "vallist_free p s = Some (without s F)" if "array_owned s p F" for s p F
    using that unfolding array_owned_def by (auto simp: vallist_free_def free_blocks_all free_own)
  show "array_owned s' p F" if at: "array_owned s p F" and eq: "\<forall>q\<in>F. s' q = s q" for s s' p F
  proof -
    obtain ps where "p \<noteq> 0" "s p = Some (B_array ps)" "distinct ps" "\<forall>q\<in>set ps. q \<noteq> 0 \<and> s q \<noteq> None" "p \<notin> set ps" "F = insert p (set ps)"
      using at unfolding array_owned_def by blast
    then show ?thesis using eq unfolding array_owned_def by simp
  qed
qed

interpretation val: owner value_free value_owned
proof
  show "value_free v s = Some (without s F)" if "value_owned s v F" for s v F
    using that unfolding value_owned_def
    by (elim conjE disjE exE) (simp_all add: value_free_def free_one array.released free_own insert_commute)
  show "value_owned s' v F" if at: "value_owned s v F" and eq: "\<forall>q\<in>F. s' q = s q" for s s' v F
    using at unfolding value_owned_def
  proof (elim conjE disjE exE)
    fix p G assume o: "s v = Some (B_value (VN_list p))" "array_owned s p G" "v \<notin> G" "F = insert v G" "v \<noteq> 0"
    then have "array_owned s' p G" "s' v = Some (B_value (VN_list p))" using array.footprint [of s p G s'] eq by auto
    then show "v \<noteq> 0 \<and> ((\<exists>i. s' v = Some (B_value (VN_num i)) \<and> F = {v}) \<or>
      (\<exists>p t. s' v = Some (B_value (VN_string p)) \<and> p \<noteq> 0 \<and> s' p = Some (B_str t) \<and> p \<noteq> v \<and> F = {v, p}) \<or>
      (\<exists>p G. s' v = Some (B_value (VN_list p)) \<and> array_owned s' p G \<and> v \<notin> G \<and> F = insert v G))" using o by blast
  qed (use eq in auto)
qed

interpretation test: owner valtest_free test_owned
proof
  show "valtest_free t s = Some (without s F)" if "test_owned s t F" for s t F
    using that unfolding test_owned_def by (elim conjE exE) (simp add: valtest_free_def val.released free_own)
  show "test_owned s' t F" if at: "test_owned s t F" and eq: "\<forall>q\<in>F. s' q = s q" for s s' t F
  proof -
    obtain f p v G where o: "t \<noteq> 0" "s t = Some (B_test f p v)" "value_owned s v G" "t \<notin> G" "F = insert t G"
      using at unfolding test_owned_def by blast
    then have "value_owned s' v G" "s' t = Some (B_test f p v)" using val.footprint [of s v G s'] eq by auto
    then show ?thesis using o unfolding test_owned_def by blast
  qed
qed

lemma expr_owned_same: "expr_owned s e F \<Longrightarrow> \<forall>q\<in>F. s' q = s q \<Longrightarrow> expr_owned s' e F"
proof (induction rule: expr_owned.induct)
  case (own_self e s t G)
  then show ?case using test.footprint [of s t G s'] by (intro expr_owned.own_self) auto
next
  case (own_not e s x G)
  then show ?case by (intro expr_owned.own_not) auto
next
  case (own_two e s n x y)
  then show ?case by (intro expr_owned.own_two) auto
qed

text \<open>The count of the node, which is freed anyway, does not matter.\<close>

lemma without_upd: "e \<in> F \<Longrightarrow> without (s(e \<mapsto> b)) F = without s F"
  by (auto simp: without_def restrict_map_def fun_eq_iff)

lemma free_node: "e \<noteq> 0 \<Longrightarrow> e \<notin> G \<Longrightarrow> free_block e (without (s(e \<mapsto> b)) G) = Some (without s (insert e G))"
  by (simp add: free_own without_upd)

lemma expr_free_owned: "expr_owned s e F \<Longrightarrow> \<forall>q\<in>F. s' q = s q \<Longrightarrow> expr_free e s' = Some (without s' F)"
proof (induction arbitrary: s' rule: expr_owned.induct)
  case (own_self e s t G)
  have "test_owned (s'(e \<mapsto> B_expr (E_self t) 0)) t G" by (rule test.footprint [OF own_self(3)]) (use own_self in auto)
  moreover have "s' e = Some (B_expr (E_self t) 1)" using own_self by simp
  ultimately show ?case using own_self by (simp add: expr_free.simps [of e] test.released free_node)
next
  case (own_not e s x G)
  let ?s = "s'(e \<mapsto> B_expr (E_not x) 0)"
  have "\<forall>q\<in>G. ?s q = s q" using own_not by auto
  then have "expr_free x ?s = Some (without ?s G)" by (rule own_not.IH)
  moreover have "s' e = Some (B_expr (E_not x) 1)" using own_not by simp
  ultimately show ?case using own_not by (simp add: expr_free.simps [of e] free_node)
next
  case (own_two e s n x y)
  then show ?case by (auto simp: expr_free.simps [of e] free_one free_own without_upd insert_commute)
qed

interpretation node: owner expr_free expr_owned
proof
  show "expr_free e s = Some (without s F)" if "expr_owned s e F" for s e F using expr_free_owned [OF that] by simp
qed (rule expr_owned_same)

section \<open>The tree of an expression\<close>

text \<open>The blocks the parser allocates for a value and for an expression.\<close>

inductive val_at :: "block store \<Rightarrow> nat \<Rightarrow> cvalue \<Rightarrow> nat set \<Rightarrow> bool"
  and vals_at :: "block store \<Rightarrow> nat list \<Rightarrow> cvalue list \<Rightarrow> nat set \<Rightarrow> bool" where
  at_num: "v \<noteq> 0 \<Longrightarrow> s v = Some (B_value (VN_num i)) \<Longrightarrow> val_at s v (V_num i) {v}"
| at_string: "v \<noteq> 0 \<Longrightarrow> s v = Some (B_value (VN_string p)) \<Longrightarrow> p \<noteq> 0 \<Longrightarrow> s p = Some (B_str t) \<Longrightarrow> p \<noteq> v \<Longrightarrow>
    val_at s v (V_string t) {v, p}"
| at_list: "v \<noteq> 0 \<Longrightarrow> s v = Some (B_value (VN_list p)) \<Longrightarrow> p \<noteq> 0 \<Longrightarrow> s p = Some (B_array ps) \<Longrightarrow> vals_at s ps vs G \<Longrightarrow> p \<noteq> v \<Longrightarrow>
    p \<notin> G \<Longrightarrow> v \<notin> G \<Longrightarrow> val_at s v (V_list vs) (insert v (insert p G))"
| at_nil: "vals_at s [] [] {}"
| at_cons: "val_at s p v F \<Longrightarrow> vals_at s ps vs G \<Longrightarrow> F \<inter> G = {} \<Longrightarrow> vals_at s (p # ps) (v # vs) (F \<union> G)"

inductive expr_at :: "block store \<Rightarrow> nat \<Rightarrow> expr \<Rightarrow> nat set \<Rightarrow> bool" where
  at_self: "e \<noteq> 0 \<Longrightarrow> s e = Some (B_expr (E_self t) 1) \<Longrightarrow> t \<noteq> 0 \<Longrightarrow> s t = Some (B_test (vfield vt) (vop vt) v) \<Longrightarrow>
    val_at s v (vval vt) G \<Longrightarrow> t \<notin> G \<Longrightarrow> e \<notin> G \<Longrightarrow> e \<noteq> t \<Longrightarrow> expr_at s e (Op_self vt) (insert e (insert t G))"
| at_not: "e \<noteq> 0 \<Longrightarrow> s e = Some (B_expr (E_not p) 1) \<Longrightarrow> expr_at s p x G \<Longrightarrow> e \<notin> G \<Longrightarrow> expr_at s e (Op_not x) (insert e G)"
| at_and: "e \<noteq> 0 \<Longrightarrow> s e = Some (B_expr (E_and p q) 1) \<Longrightarrow> expr_at s p x F \<Longrightarrow> expr_at s q y G \<Longrightarrow> F \<inter> G = {} \<Longrightarrow> e \<notin> F \<union> G \<Longrightarrow>
    expr_at s e (Op_and x y) (insert e (F \<union> G))"
| at_or: "e \<noteq> 0 \<Longrightarrow> s e = Some (B_expr (E_or p q) 1) \<Longrightarrow> expr_at s p x F \<Longrightarrow> expr_at s q y G \<Longrightarrow> F \<inter> G = {} \<Longrightarrow> e \<notin> F \<union> G \<Longrightarrow>
    expr_at s e (Op_or x y) (insert e (F \<union> G))"

text \<open>The expressions that \<open>expr_free\<close> gives back completely: tests, negated or not, whose lists hold numbers only.\<close>

fun is_num :: "cvalue \<Rightarrow> bool" where
  "is_num (V_num i) = True"
| "is_num _ = False"

fun tidy_value :: "cvalue \<Rightarrow> bool" where
  "tidy_value (V_list vs) = list_all is_num vs"
| "tidy_value _ = True"

fun tidy :: "expr \<Rightarrow> bool" where
  "tidy (Op_self vt) = tidy_value (vval vt)"
| "tidy (Op_not x) = tidy x"
| "tidy (Op_and x y) = False"
| "tidy (Op_or x y) = False"

lemma val_at_node: "val_at s v c F \<Longrightarrow> v \<noteq> 0 \<and> s v \<noteq> None \<and> v \<in> F \<and> (F = {v} \<longleftrightarrow> is_num c)"
  by (cases rule: val_at.cases) auto

lemma vals_at_nodes:
  "vals_at s ps vs G \<Longrightarrow> distinct ps \<and> (\<forall>q\<in>set ps. q \<noteq> 0 \<and> s q \<noteq> None) \<and> set ps \<subseteq> G \<and> (set ps = G \<longleftrightarrow> list_all is_num vs)"
proof (induction ps arbitrary: vs G)
  case Nil
  then show ?case by (cases rule: vals_at.cases) auto
next
  case (Cons p ps)
  obtain v F ws H where c: "val_at s p v F" "vals_at s ps ws H" "F \<inter> H = {}" "vs = v # ws" "G = F \<union> H"
    using Cons.prems by (cases rule: vals_at.cases) auto
  note n = val_at_node [OF c(1)] and ih = Cons.IH [OF c(2)]
  have "insert p (set ps) = F \<union> H \<longleftrightarrow> F = {p} \<and> set ps = H" using n ih c(3) by blast
  then show ?case using n ih c by auto
qed

lemma value_at_owned:
  assumes "val_at s v c F"
  shows "\<exists>G. value_owned s v G \<and> G \<subseteq> F \<and> (G = F \<longleftrightarrow> tidy_value c)"
  using assms
proof (cases rule: val_at.cases)
  case (at_list p ps vs G)
  note n = vals_at_nodes [OF at_list(7)]
  then have a: "p \<notin> set ps" "v \<notin> insert p (set ps)" using at_list by auto
  have "array_owned s p (insert p (set ps))" unfolding array_owned_def using at_list(5,6) n a by blast
  then have "value_owned s v (insert v (insert p (set ps)))" unfolding value_owned_def using at_list(3,4) a by blast
  moreover have "insert v (insert p (set ps)) = F \<longleftrightarrow> set ps = G"
    unfolding at_list(2) using at_list(8,9,10) a by (subst insert_ident, blast, blast)+ (rule refl)
  moreover have "insert v (insert p (set ps)) \<subseteq> F" unfolding at_list(2) using n by blast
  ultimately show ?thesis using n at_list(1) by (intro exI [of _ "insert v (insert p (set ps))"]) simp
qed (auto simp: value_owned_def)

lemma expr_at_node: "expr_at s e x F \<Longrightarrow> e \<noteq> 0 \<and> s e \<noteq> None \<and> (\<exists>r. s e = Some (B_expr r 1)) \<and> e \<in> F \<and> F \<noteq> {e}"
proof (induction rule: expr_at.induct)
  case (at_not e s p x G)
  then show ?case by auto
qed auto

lemma expr_at_owned: "expr_at s e x F \<Longrightarrow> \<exists>G. expr_owned s e G \<and> G \<subseteq> F \<and> (G = F \<longleftrightarrow> tidy x)"
proof (induction rule: expr_at.induct)
  case (at_self e s t vt v G)
  obtain H where h: "value_owned s v H" "H \<subseteq> G" "H = G \<longleftrightarrow> tidy_value (vval vt)" using value_at_owned [OF at_self(5)] by blast
  have "test_owned s t (insert t H)" unfolding test_owned_def using at_self h by blast
  then have "expr_owned s e (insert e (insert t H))" using at_self h by (intro own_self) auto
  moreover have "insert e (insert t H) = insert e (insert t G) \<longleftrightarrow> H = G" 
    using at_self(6,7,8) h(2) by (subst insert_ident, blast, blast)+ (rule refl)
  ultimately show ?case using h by (intro exI [of _ "insert e (insert t H)"]) auto
next
  case (at_not e s p x G)
  then obtain H where h: "expr_owned s p H" "H \<subseteq> G" "H = G \<longleftrightarrow> tidy x" by blast
  then have "expr_owned s e (insert e H)" using at_not by (intro own_not) auto
  moreover have "insert e H = insert e G \<longleftrightarrow> H = G" using at_not(4) h(2) by (intro insert_ident) auto
  ultimately show ?case using h by (intro exI [of _ "insert e H"]) auto
next
  case (at_and e s p q x F y G)
  note n = expr_at_node [OF at_and(3)] expr_at_node [OF at_and(4)]
  have "expr_owned s e {e, p, q}" using at_and(1,2,5,6) n by (intro own_two) auto
  moreover have "{e, p, q} \<noteq> insert e (F \<union> G)" using at_and(5,6) n by (auto simp: set_eq_iff)
  moreover have "{e, p, q} \<subseteq> insert e (F \<union> G)" using n by blast
  ultimately show ?case unfolding tidy.simps by blast
next
  case (at_or e s p q x F y G)
  note n = expr_at_node [OF at_or(3)] expr_at_node [OF at_or(4)]
  have "expr_owned s e {e, p, q}" using at_or(1,2,5,6) n by (intro own_two) auto
  moreover have "{e, p, q} \<noteq> insert e (F \<union> G)" using at_or(5,6) n by (auto simp: set_eq_iff)
  moreover have "{e, p, q} \<subseteq> insert e (F \<union> G)" using n by blast
  ultimately show ?case unfolding tidy.simps by blast
qed

text \<open>
  C17: Freeing a filter expression, the only reference to it, ends, frees no block twice and touches no block outside
  the expression's tree; it gives back the whole tree exactly when the expression is a test, negated any number of
  times, whose list, if it has one, holds numbers only. A conjunction or a disjunction leaves its operands' contents
  behind, a list its strings. Freeing a copy restores the store.
\<close>

theorem expr_free_tree:
  assumes "expr_at s e x F"
  shows "(\<exists>G. expr_free e s = Some (without s G) \<and> G \<subseteq> F \<and> (G = F \<longleftrightarrow> tidy x)) \<and>
    do { (p, s) \<leftarrow> expr_copy e s; expr_free p s } = Some s"
proof
  show "\<exists>G. expr_free e s = Some (without s G) \<and> G \<subseteq> F \<and> (G = F \<longleftrightarrow> tidy x)"
    using expr_at_owned [OF assms] node.released by blast
  show "do { (p, s) \<leftarrow> expr_copy e s; expr_free p s } = Some s"
    using expr_at_node [OF assms] by (auto simp: expr_copy_def expr_free.simps [of e] map_upd_triv)
qed

text \<open>The tree of \<open>!dur>=5\<close>.\<close>

definition demo_not :: "block store" where
  "demo_not = [1 \<mapsto> B_expr (E_not 2) 1, 2 \<mapsto> B_expr (E_self 3) 1, 3 \<mapsto> B_test vf_dur vo_ge 4, 4 \<mapsto> B_value (VN_num 5)]"

lemma demo_not_at:
  "expr_at demo_not 1 (Op_not (Op_self \<lparr>vfield = vf_dur, vop = vo_ge, vval = V_num 5\<rparr>)) {1, 2, 3, 4}"
  by (intro at_not [of 1 _ 2 _ "{2, 3, 4}"] at_self [of 2 _ 3 _ 4 "{4}"]) (auto simp: demo_not_def intro!: at_num)

theorem expr_free_tree_witness:
  "expr_free 1 demo_not = Some (\<lambda>p. None)"
proof -
  have "without demo_not {1, 2, 3, 4} = (\<lambda>p. None)" by (auto simp: without_def restrict_map_def demo_not_def fun_eq_iff)
  then show ?thesis using conjunct1 [OF expr_free_tree [OF demo_not_at]] by auto
qed

end
