(* ===== verification/Argmem.thy ===== *)
theory Argmem
  imports Rowmem Protocmd
begin

text \<open>
  The memory of a command's arguments: \<open>cmd_arg_free\<close> of \<open>src/proto.c\<close> on a store of blocks. The vector of arguments
  holds one machine word for each argument, a number or the address of a block, and ends with 0.
\<close>

datatype argblock = A_data | A_vector "nat list"

text \<open>The arguments whose kind has \<open>free\<close> in \<open>src/proto_arg.h\<close>.\<close>

definition cmd_arg_frees :: "cmd_arg \<Rightarrow> bool" where
  "cmd_arg_frees a \<longleftrightarrow> List.member [arg_filter, arg_name, arg_pass, arg_decibel, arg_string] a"

fun args_free :: "cmd_arg list \<Rightarrow> nat list \<Rightarrow> argblock store \<Rightarrow> argblock store option" where
  "args_free args [] s = None"
| "args_free args (ndat # rest) s =
     (if ndat = 0 then Some s
      else case args of
        [] \<Rightarrow> None
      | narg # args \<Rightarrow> do {
          s \<leftarrow> (if cmd_arg_frees narg then free_block ndat s else Some s);
          args_free args rest s })"

definition cmd_arg_free :: "cmd_arg list \<Rightarrow> nat \<Rightarrow> argblock store \<Rightarrow> argblock store option" where
  "cmd_arg_free args argv s =
     (case s argv of
        Some (A_vector ws) \<Rightarrow> do { s \<leftarrow> args_free args ws s; free_block argv s }
      | _ \<Rightarrow> None)"

text \<open>The blocks that hold arguments.\<close>

definition arg_blocks :: "cmd_arg list \<Rightarrow> nat list \<Rightarrow> nat list" where
  "arg_blocks args ws = map snd (filter (\<lambda>(a, w). cmd_arg_frees a) (zip args ws))"

lemma arg_blocks_simps [simp]:
  "arg_blocks [] ws = []" "arg_blocks args [] = []"
  "arg_blocks (a # args) (w # ws) = (if cmd_arg_frees a then w # arg_blocks args ws else arg_blocks args ws)"
  by (simp_all add: arg_blocks_def)

text \<open>An argument of value 0 ends the loop.\<close>

lemma arg_blocks_take: "set (arg_blocks args (takeWhile P ws)) \<subseteq> set (arg_blocks args ws)"
proof (induction args arbitrary: ws)
  case (Cons a args)
  then show ?case by (cases ws) auto
qed simp

lemma args_free_prefix:
  "length ws \<le> length args \<Longrightarrow> distinct (arg_blocks args ws) \<Longrightarrow> set (arg_blocks args ws) \<inter> F = {} \<Longrightarrow>
    \<forall>w\<in>set (arg_blocks args ws). w \<noteq> 0 \<and> s w \<noteq> None \<Longrightarrow>
    args_free args (ws @ [0]) (without s F) = Some (without s (F \<union> set (arg_blocks args (takeWhile (\<lambda>w. w \<noteq> 0) ws))))"
proof (induction ws arbitrary: args F)
  case (Cons w ws)
  then obtain a rest where [simp]: "args = a # rest" by (cases args) auto
  show ?case
  proof (cases "w = 0")
    case False
    show ?thesis
    proof (cases "cmd_arg_frees a")
      case True
      have "args_free rest (ws @ [0]) (without s (insert w F)) =
          Some (without s (insert w F \<union> set (arg_blocks rest (takeWhile (\<lambda>w. w \<noteq> 0) ws))))"
        by (rule Cons.IH) (use Cons.prems True in auto)
      moreover have "free_block w (without s F) = Some (without s (insert w F))"
        by (rule free_own) (use Cons.prems True False in auto)
      ultimately show ?thesis using True False by simp
    next
      case 2: False
      have "args_free rest (ws @ [0]) (without s F) = Some (without s (F \<union> set (arg_blocks rest (takeWhile (\<lambda>w. w \<noteq> 0) ws))))"
        by (rule Cons.IH) (use Cons.prems 2 in auto)
      then show ?thesis using 2 False by simp
    qed
  qed simp
qed simp

lemma cmd_arg_free_prefix:
  assumes "argv \<noteq> 0" "s argv = Some (A_vector (ws @ [0]))" "length ws \<le> length args" "distinct (arg_blocks args ws)"
    "\<forall>w\<in>set (arg_blocks args ws). w \<noteq> 0 \<and> s w \<noteq> None \<and> w \<noteq> argv"
  shows "cmd_arg_free args argv s = Some (without s (insert argv (set (arg_blocks args (takeWhile (\<lambda>w. w \<noteq> 0) ws)))))"
proof -
  have "args_free args (ws @ [0]) s = Some (without s (set (arg_blocks args (takeWhile (\<lambda>w. w \<noteq> 0) ws))))"
    using args_free_prefix [of ws args "{}" s] assms by auto
  moreover have "free_block argv (without s (set (arg_blocks args (takeWhile (\<lambda>w. w \<noteq> 0) ws)))) =
      Some (without s (insert argv (set (arg_blocks args (takeWhile (\<lambda>w. w \<noteq> 0) ws)))))"
    using assms arg_blocks_take [of args "\<lambda>w. w \<noteq> 0" ws] by (intro free_own) auto
  ultimately show ?thesis using assms(2) by (simp add: cmd_arg_free_def)
qed

text \<open>The name given in \<open>tracksetname 0 x\<close>, at 2, is not freed; in \<open>tracksetname 7 x\<close> it is.\<close>

lemma cmd_arg_free_leaks:
  "cmd_arg_free [arg_id, arg_string] 1 [1 \<mapsto> A_vector [0, 2, 0], 2 \<mapsto> A_data] = Some [2 \<mapsto> A_data] \<and>
   cmd_arg_free [arg_id, arg_string] 1 [1 \<mapsto> A_vector [7, 2, 0], 2 \<mapsto> A_data] = Some (\<lambda>p. None)"
  by (auto simp: cmd_arg_free_def free_block_def cmd_arg_frees_def fun_eq_iff)

end
