(* ===== verification/Clientrefs.thy ===== *)
theory Clientrefs
  imports Netframe Netsafe
begin

text \<open>
  The accounting of references to clients, whatever else happens: every function of \<open>client.c\<close>, and what sends
  through it, leaves the counters right if it returns at all. \<open>Clientsafe\<close> shows that these functions return as long as
  the records of the clients fit into a line; here nothing is assumed about the clients, so the invariant holds in
  every state the program can reach.
\<close>

section \<open>The invariant\<close>

text \<open>
  \<open>D\<close> are the clients that are just being freed, \<open>h\<close> the references the functions on the stack hold.
\<close>

definition sound :: "ptr set \<Rightarrow> (ptr \<Rightarrow> nat) \<Rightarrow> ('d, 'z) netst_scheme \<Rightarrow> bool" where
  "sound D h w \<longleftrightarrow> refs_ok h w \<and> (\<forall>p c. heap w p = Some c \<longrightarrow> (c_del c \<noteq> 0 \<longleftrightarrow> p \<in> D) \<and> p < fresh w)"

lemma sound_refs: "sound D h w \<Longrightarrow> refs_ok h w"
  by (simp add: sound_def)

lemma sound_heap: "sound D h w \<Longrightarrow> heap w p = Some c \<Longrightarrow> (c_del c \<noteq> 0 \<longleftrightarrow> p \<in> D) \<and> p < fresh w"
  by (simp add: sound_def)

lemma sound_elsewhere: "sound D h w \<Longrightarrow> heap w' = heap w \<Longrightarrow> fresh w' = fresh w \<Longrightarrow> clients w' = clients w \<Longrightarrow> sound D h w'"
  by (simp add: sound_def refs_ok_def live_def)

lemma sound_calm:
  assumes "sound D h w" "calm h' w w'"
  shows "sound D h' w'"
proof -
  have "(c_del c' \<noteq> 0 \<longleftrightarrow> p \<in> D) \<and> p < fresh w'" if h: "heap w' p = Some c'" for p c'
  proof -
    obtain c where c: "heap w p = Some c" "c' = c\<lparr>c_refs := c_refs c'\<rparr>" using assms(2) h unfolding calm_def shrinks_def by blast
    have "c_del c' = c_del c" by (subst c(2)) simp
    moreover have "fresh w' = fresh w" using assms(2) by (simp add: calm_def shrinks_def)
    ultimately show ?thesis using assms(1) c(1) by (simp add: sound_def)
  qed
  then show ?thesis using assms(2) by (simp add: sound_def calm_def)
qed

lemma sound_put: "sound D h w \<Longrightarrow> heap w p = Some c \<Longrightarrow> c_refs c' = c_refs c \<Longrightarrow> c_del c' = c_del c \<Longrightarrow> sound D h (put p c' w)"
proof -
  assume s: "sound D h w" "heap w p = Some c" "c_refs c' = c_refs c" "c_del c' = c_del c"
  then have "live (put p c' w) q = live w q" for q by (simp add: live_def)
  moreover have "fresh (put p c' w) = fresh w" by (simp add: put_def)
  ultimately show ?thesis using s by (auto simp: sound_def refs_ok_def)
qed

text \<open>A client that is not being freed is listed or held.\<close>

lemma sound_known: "sound D h w \<Longrightarrow> heap w p = Some c \<Longrightarrow> p \<notin> D \<Longrightarrow> p \<in> set (listed w) \<or> 0 < h p"
proof -
  assume s: "sound D h w" "heap w p = Some c" "p \<notin> D"
  then have "c_del c = 0" by (auto simp: sound_def)
  then show ?thesis using sound_refs [OF s(1)] s(2) unfolding refs_ok_def by metis
qed

lemma sound_addref:
  assumes "sound D h w" "p \<in> set (listed w) \<or> 0 < h p"
  obtains w' where "client_addref p w = Some w'" "sound D (take_ref p h) w'" "clients w' = clients w"
proof -
  obtain c where c: "heap w p = Some c" "c_del c = 0" using refs_ok_live [OF sound_refs [OF assms(1)] assms(2)] by blast
  let ?w = "put p (c\<lparr>c_refs := c_refs c + 1\<rparr>) w"
  have "refs_ok (take_ref p h) ?w"
    using refs_ok_put [OF sound_refs [OF assms(1)] c, of "c_refs c + 1" "Suc (h p)"] refs_ok_count [OF sound_refs [OF assms(1)] c] by simp
  then have "calm (take_ref p h) w ?w" using shrinks_put [OF c] by (simp add: calm_def)
  from that [OF _ sound_calm [OF assms(1) this]] show ?thesis using c by (simp add: client_addref_def)
qed

text \<open>The entry a loop is at: the list's cursor points to it and the loop holds a reference.\<close>

definition entry :: "ptr set \<Rightarrow> (ptr \<Rightarrow> nat) \<Rightarrow> ptr option \<Rightarrow> ('d, 'z) netst_scheme \<Rightarrow> bool" where
  "entry D h x w \<longleftrightarrow> (case x of None \<Rightarrow> sound D h w
     | Some p \<Rightarrow> sound D (take_ref p h) w \<and> it_cur (clients w) < length (listed w) \<and> listed w ! it_cur (clients w) = p)"

lemma begin_entry:
  assumes "sound D h w" "clients_begin () w = Some (x, u, w')"
  shows "entry D h x w'"
  using sound_refs [OF assms(1)]
proof (cases rule: clients_begin_ok)
  case (stop w1)
  then show ?thesis using assms(2) sound_calm [OF assms(1) stop(2)] by (simp add: entry_def)
next
  case (item w1)
  then show ?thesis using assms(2) sound_calm [OF assms(1) item(2)] by (auto simp: entry_def)
qed

lemma next_entry:
  assumes "sound D h w" "clients_next () w = Some (x, u, w')"
  shows "entry D h x w'"
  using sound_refs [OF assms(1)]
proof (cases rule: clients_next_ok)
  case (stop w1)
  then show ?thesis using assms(2) sound_calm [OF assms(1) stop(2)] by (simp add: entry_def)
next
  case (item w1)
  then show ?thesis using assms(2) sound_calm [OF assms(1) item(2)] by (auto simp: entry_def)
qed

locale ref_hook =
  fixes N :: "'d netlib" and disc :: "('d, 'z) disc"
  assumes hook_sound: "keeps_hook (sound D h) disc"
begin

lemma release_sound:
  assumes s: "sound D h w" and h: "h p = 1" "p \<notin> set (listed w)" and c: "heap w p = Some c" "c_del c = 0"
  shows "ks (sound D (h(p := 0))) (client_release N disc p (put p (c\<lparr>c_refs := 0\<rparr>) w))"
proof -
  let ?w = "put p (c\<lparr>c_refs := 0, c_del := 1\<rparr>) w" and ?h = "h(p := 0)"
  have s1: "sound (insert p D) ?h ?w"
    using s h c by (auto simp: sound_def refs_ok_def live_def put_def)
  have f: "sound D ?h (w2\<lparr>ext := d, heap := (heap w2)(p := None)\<rparr>)" if "sound (insert p D) ?h w2" "heap w2 p = Some c2" for w2 c2 d
  proof -
    have l: "p \<notin> set (listed w2)"
      using refs_ok_live [OF sound_refs [OF that(1)], of p] sound_heap [OF that] that(2) by auto
    have D: "p \<notin> D" using sound_heap [OF s c(1)] c(2) by simp
    have "(c_del a \<noteq> 0 \<longleftrightarrow> q \<in> D) \<and> q < fresh w2" if "q \<noteq> p" "heap w2 q = Some a" for q a
      using sound_heap [OF \<open>sound (insert p D) ?h w2\<close> that(2)] that(1) by simp
    then show ?thesis using refs_ok_free [OF sound_refs [OF that(1)] l, of d] by (simp add: sound_def)
  qed
  have "ks (sound (insert p D) ?h) (case disc of None \<Rightarrow> Some ?w | Some g \<Rightarrow> g p ?w)"
    using s1 hook_keeps [OF hook_sound] by (auto simp: k_Some split: option.split)
  moreover have "client_release N disc p (put p (c\<lparr>c_refs := 0\<rparr>) w) =
      (case disc of None \<Rightarrow> Some ?w | Some g \<Rightarrow> g p ?w) \<bind> (\<lambda>w. heap w p \<bind> (\<lambda>c.
        Some (w\<lparr>ext := n_close N (c_sock c) p (ext w), heap := (heap w)(p := None)\<rparr>)))"
    using c(2) by (cases disc) (simp_all add: client_release_def Let_def)
  ultimately show ?thesis using f by (auto simp: ks_def bind_eq_Some_conv)
qed

lemma delref_sound:
  assumes "sound D h w" "0 < h p"
  shows "ks (sound D (h(p := h p - 1))) (client_delref N disc p w)"
proof (cases "p \<in> set (listed w) \<or> 1 < h p")
  case True
  from delref_kept [OF sound_refs [OF assms(1)] assms(2) True, of N disc] show ?thesis
    using sound_calm [OF assms(1)] by (metis k_Some(1))
next
  case False
  then have h: "h p = 1" "p \<notin> set (listed w)" using assms(2) by auto
  obtain c where c: "heap w p = Some c" "c_del c = 0" using refs_ok_live [OF sound_refs [OF assms(1)]] assms(2) by blast
  have "c_refs c = 1" using refs_ok_count [OF sound_refs [OF assms(1)] c] h by simp
  then show ?thesis using release_sound [OF assms(1) h c] c h by (simp add: client_delref_def Let_def)
qed

lemma delref_held: "sound D (take_ref p h) w \<Longrightarrow> ks (sound D h) (client_delref N disc p w)"
  using delref_sound [of D "take_ref p h" w p] by simp

section \<open>The loops over the list\<close>

lemma it_del_sound:
  assumes "sound D (take_ref p h) w" "it_cur (clients w) < length (listed w)" "listed w ! it_cur (clients w) = p"
  shows "ks (sound D (take_ref p h)) (it_client_del N disc w)"
proof -
  have "disconnect_hook disc 0 (\<lambda>c. True)" by unfold_locales simp_all
  from disconnect_hook.client_del_calm [OF this sound_refs [OF assms(1)] assms(2,3)] show ?thesis
    using sound_calm [OF assms(1)] by (metis k_Some(1))
qed

text \<open>A loop over the list whose body gives its reference back.\<close>

lemma list_until_sound:
  assumes "sound D h w"
    and body: "\<And>p w r w'. entry D h (Some p) w \<Longrightarrow> body p w = Some (r, w') \<Longrightarrow> (case r of None \<Rightarrow> sound D h w' | Some y \<Rightarrow> Q y w')"
    and run: "do { (x, u, w) \<leftarrow> clients_begin () w; for_until clients_next body x u w } = Some (r, w')"
  shows "case r of None \<Rightarrow> sound D h w' | Some y \<Rightarrow> Q y w'"
proof -
  obtain x w1 where b: "clients_begin () w = Some (x, (), w1)" and l: "for_until clients_next body x () w1 = Some (r, w')"
    using run by (auto simp: bind_eq_Some_conv)
  have n: "entry D h x w'" if "sound D h w" "clients_next u w = Some (x, u', w')" for u w x u' w'
    using next_entry [OF that(1)] that(2) by simp
  have "case r of None \<Rightarrow> \<exists>i::unit. entry D h None w' | Some y \<Rightarrow> Q y w'"
    by (rule for_until_rule [OF l, of "\<lambda>x u. entry D h x" "\<lambda>u. sound D h"]) (fact begin_entry [OF assms(1) b] n body)+
  then show ?thesis by (simp add: entry_def split: option.splits)
qed

lemma close_sound: "sound D h w \<Longrightarrow> ks (sound D h) (client_close N disc p w)"
proof -
  assume s: "sound D h w"
  have "sound D h w'" if e: "entry D h (Some i) w" and c: "close_step N disc p i w = Some (r, w')" for i w r w'
  proof (cases "i = p")
    case True
    then obtain w1 where w1: "it_client_del N disc w = Some w1" "client_delref N disc p w1 = Some w'"
      using c by (auto simp: close_step_def bind_eq_Some_conv)
    have "sound D (take_ref p h) w1" using it_del_sound [of D h p w] e True w1(1) by (simp add: entry_def ks_def)
    from delref_held [OF this] w1(2) show ?thesis by (simp add: ks_def)
  next
    case False
    then have "client_delref N disc i w = Some w'" using c by (auto simp: close_step_def bind_eq_Some_conv)
    moreover have "sound D (take_ref i h) w" using e by (simp add: entry_def)
    ultimately show ?thesis using delref_held [of D h i w] by (simp add: ks_def)
  qed
  then have b: "case r of None \<Rightarrow> sound D h w' | Some y \<Rightarrow> sound D h w'" if "entry D h (Some i) w" "close_step N disc p i w = Some (r, w')" for i w r w'
    using that by (simp split: option.split)
  have "sound D h w'" if c: "client_close N disc p w = Some w'" for w'
  proof -
    obtain r where "do { (x, u, w) \<leftarrow> clients_begin () w; for_until clients_next (close_step N disc p) x u w } = Some (r, w')"
      using c by (auto simp: client_close_def bind_eq_Some_conv)
    then have "case r of None \<Rightarrow> sound D h w' | Some y \<Rightarrow> sound D h w'" by (rule list_until_sound [OF s b, rotated 2])
    then show ?thesis by (simp split: option.splits)
  qed
  then show ?thesis by (simp add: ks_def)
qed

lemma send_sound: "sound D h w \<Longrightarrow> kp (sound D h) (client_send N disc p buf w)"
  unfolding client_send_def Let_def by (rule close_sound k_intros | assumption | erule sound_elsewhere; simp)+

lemma bcast_sound: "sound D h w \<Longrightarrow> ks (sound D h) (client_bcast N disc buf func w)"
proof -
  assume s: "sound D h w"
  have b: "sound D h w'" if e: "entry D h (Some p) w" and r: "bcast_step N disc buf func p w = Some w'" for p w w'
  proof -
    have "sound D (take_ref p h) w" using e by (simp add: entry_def)
    then have "ks (sound D h) (bcast_step N disc buf func p w)"
      unfolding bcast_step_def
      by (intro k_bind_v(1) k_then(1) [where J = "sound D (take_ref p h)", OF _ delref_held]) (auto intro: k_intros send_sound)
    with r show ?thesis by (simp add: ks_def)
  qed
  have n: "entry D h x w'" if "sound D h w" "clients_next u w = Some (x, u', w')" for u w x u' w'
    using next_entry [OF that(1)] that(2) by simp
  have "sound D h w'" if r: "client_bcast N disc buf func w = Some w'" for w'
  proof -
    obtain x w1 where x: "clients_begin () w = Some (x, (), w1)" and l: "for_each clients_next (bcast_step N disc buf func) x () w1 = Some w'"
      using r by (auto simp: client_bcast_def bind_eq_Some_conv)
    have "\<exists>i::unit. entry D h None w'"
      by (rule for_each_rule [OF l, of "\<lambda>x u. entry D h x" "\<lambda>u. sound D h"]) (fact begin_entry [OF s x] n b)+
    then show ?thesis by (simp add: entry_def)
  qed
  then show ?thesis by (simp add: ks_def)
qed

lemma get_sound:
  assumes "sound D h w" "client_get N disc i w = Some (x, w')"
  shows "case x of None \<Rightarrow> sound D h w' | Some p \<Rightarrow> sound D (take_ref p h) w'"
proof (rule list_until_sound [OF assms(1) _ assms(2) [unfolded client_get_def]])
  fix p w r w' assume "entry D h (Some p) w"
    and b: "do { c \<leftarrow> heap w p; if c_id c = i then Some (Some p, w) else do { w \<leftarrow> client_delref N disc p w; Some (None, w) } } = Some (r, w')"
  then have "sound D (take_ref p h) w" by (simp add: entry_def)
  with b delref_held [OF this] show "case r of None \<Rightarrow> sound D h w' | Some p \<Rightarrow> sound D (take_ref p h) w'"
    by (auto simp: ks_def bind_eq_Some_conv split: if_splits)
qed

lemma getline_sound: "sound D h w \<Longrightarrow> kp (sound D h) (client_getline N disc p w)"
  unfolding client_getline_def Let_def by (rule send_sound close_sound k_intros | assumption | erule (1) sound_put; simp)+

section \<open>Iterators with a list of their own\<close>

lemma delref_all_sound: "sound D (\<lambda>q. h q + count_list ps q) w \<Longrightarrow> ks (sound D h) (delref_all N disc ps w)"
proof (induction ps arbitrary: w)
  case (Cons p ps)
  have h: "(\<lambda>q. h q + count_list (p # ps) q) = take_ref p (\<lambda>q. h q + count_list ps q)" by auto
  have "ks (sound D (\<lambda>q. h q + count_list ps q)) (client_delref N disc p w)"
    by (rule delref_held) (use Cons.prems in \<open>simp only: h\<close>)
  then show ?case unfolding delref_all.simps by (rule k_then(1)) (rule Cons.IH)
qed (simp add: k_Some)

end

definition held_by :: "it_client \<Rightarrow> (ptr \<Rightarrow> nat) \<Rightarrow> ptr \<Rightarrow> nat" where
  "held_by it h = (\<lambda>q. h q + count_list (it_clients it) q)"

lemma held_by_cur [simp]: "held_by (it\<lparr>it_cur := k\<rparr>) h = held_by it h"
  by (simp add: held_by_def)

lemma fill_sound:
  "sound D (held_by it h) w \<Longrightarrow> set ps \<subseteq> set (listed w) \<Longrightarrow> it_client_fill func ps it w = Some (it', w') \<Longrightarrow> sound D (held_by it' h) w'"
proof (induction ps arbitrary: it w)
  case (Cons p ps)
  obtain c it1 w1 where 1: "(if \<not> func c then Some (it, w) else it_client_add it p w) = Some (it1, w1)"
    and f: "it_client_fill func ps it1 w1 = Some (it', w')"
    using Cons.prems(3) by (auto simp: bind_eq_Some_conv)
  have "sound D (held_by it1 h) w1 \<and> clients w1 = clients w"
  proof (cases "func c")
    case True
    have p: "p \<in> set (listed w) \<or> 0 < held_by it h p" using Cons.prems(2) by simp
    obtain w2 where w2: "client_addref p w = Some w2" "sound D (take_ref p (held_by it h)) w2" "clients w2 = clients w"
      by (rule sound_addref [OF Cons.prems(1) p])
    have "take_ref p (held_by it h) = held_by (it\<lparr>it_clients := it_clients it @ [p]\<rparr>) h"
      by (auto simp: held_by_def fun_eq_iff)
    then show ?thesis using 1 True w2 by (simp add: it_client_add_def)
  qed (use 1 Cons.prems in simp)
  then show ?case using Cons.IH [of it1 w1] Cons.prems(2) f by simp
qed simp

lemma lists_sound:
  assumes "sound D h w" "clients_list w = Some (it, w') \<or> clients_uid i w = Some (it, w')"
  shows "sound D (held_by it h) w'"
proof -
  have "sound D (held_by \<lparr>it_clients = [], it_cur = 0\<rparr> h) w" using assms(1) by (simp add: held_by_def)
  from fill_sound [OF this, of "listed w"] show ?thesis using assms(2) by (auto simp: clients_list_def clients_uid_def it_client_new_def)
qed

text \<open>The element a loop over the iterator is at.\<close>

definition item :: "ptr list \<Rightarrow> ptr set \<Rightarrow> (ptr \<Rightarrow> nat) \<Rightarrow> ptr option \<Rightarrow> it_client \<Rightarrow> ('d, 'z) netst_scheme \<Rightarrow> bool" where
  "item ps D h x it w \<longleftrightarrow> it_clients it = ps \<and>
     (case x of None \<Rightarrow> sound D (held_by it h) w | Some p \<Rightarrow> sound D (take_ref p (held_by it h)) w)"

lemma cur_item:
  assumes "sound D (held_by it h) w" "it_client_cur it w = Some (x, it', w')"
  shows "item (it_clients it) D h x it' w'"
proof (cases "it_cur it < length (it_clients it)")
  case True
  let ?p = "it_clients it ! it_cur it"
  have "0 < held_by it h ?p" using True by (simp add: held_by_def count_list_0_iff zero_less_iff_neq_zero)
  then obtain w1 where "client_addref ?p w = Some w1" "sound D (take_ref ?p (held_by it h)) w1"
    using sound_addref [OF assms(1), of ?p] by blast
  then show ?thesis using True assms(2) by (auto simp: it_client_cur_def item_def)
qed (use assms in \<open>simp add: it_client_cur_def item_def\<close>)

lemma steps_item:
  assumes "sound D (held_by it h) w"
  shows "it_client_begin it w = Some (x, it', w') \<Longrightarrow> item (it_clients it) D h x it' w'"
    and "it_client_next it w = Some (x, it', w') \<Longrightarrow> item (it_clients it) D h x it' w'"
  using assms cur_item [of D "it\<lparr>it_cur := k\<rparr>" h w x it' w' for k]
  by (auto simp: it_client_begin_def it_client_next_def item_def split: if_splits)

text \<open>A new client, on the list.\<close>

lemma sound_new:
  assumes "sound {} h w" "c_refs c = 1" "c_del c = 0"
  shows "sound {} h (w\<lparr>ext := d, fresh := fresh w + 1, maxid := i, heap := (heap w)(fresh w := Some c),
    clients := (clients w)\<lparr>it_clients := listed w @ [fresh w]\<rparr>\<rparr>)"
proof -
  let ?w = "w\<lparr>ext := d, fresh := fresh w + 1, maxid := i, heap := (heap w)(fresh w := Some c),
    clients := (clients w)\<lparr>it_clients := listed w @ [fresh w]\<rparr>\<rparr>"
  have f: "heap w (fresh w) = None" using sound_heap [OF assms(1), of "fresh w"] by (cases "heap w (fresh w)") auto
  then have "\<not> live w (fresh w)" by (simp add: live_def)
  then have l: "fresh w \<notin> set (listed w)" "h (fresh w) = 0" using sound_refs [OF assms(1)] by (auto simp: refs_ok_def)
  have "live ?w q \<longleftrightarrow> live w q \<or> q = fresh w" for q using f assms(3) by (simp add: live_def)
  then have "refs_ok h ?w" using sound_refs [OF assms(1)] l assms(2) by (auto simp: refs_ok_def)
  moreover have "c_del a = 0 \<and> q < fresh ?w" if "heap ?w q = Some a" for q a
    using sound_heap [OF assms(1), of q a] that assms(3) by (auto split: if_splits)
  ultimately show ?thesis by (simp add: sound_def)
qed

context ref_hook
begin

lemma it_done_sound: "sound D (held_by it h) w \<Longrightarrow> ks (sound D h) (it_client_done N disc it w)"
  unfolding it_client_done_def held_by_def by (rule delref_all_sound)

lemma wire_sound: "wire_frame (sound D h) N disc"
  by unfold_locales (rule send_sound bcast_sound close_sound | assumption | erule sound_elsewhere; simp)+

lemma dump_clients_sound:
  assumes "sound D (held_by it h) w"
  shows "ks (sound D (held_by it h)) (dump_clients N disc p code it w)"
proof -
  let ?f = "dump_step N disc p code (\<lambda>t w. do { c \<leftarrow> heap w t; mkclient c w }) (client_delref N disc)"
  have b: "sound D g w'" if "sound D (take_ref t g) w" "?f t w = Some (r, w')" for t g w r w'
  proof -
    let ?J = "sound D (take_ref t g)"
    have m: "kp ?J (do { c \<leftarrow> heap w t; mkclient c w })" by (rule k_bind_v wire_frame.mkrow_kp(1) [OF wire_sound] that)+
    have "kp (sound D g) (?f t w)"
      unfolding dump_step_def
      by (rule k_then(4) [OF m], erule k_then(4) [OF wire_frame.line_kp(1) [OF wire_sound]], erule k_then(2) [OF delref_held], erule k_Some)
    with that(2) show ?thesis by (simp add: kp_def)
  qed
  have n: "item (it_clients it) D h x i' w'" if "it_clients i = it_clients it \<and> sound D (held_by i h) w"
      "it_client_next i w = Some (x, i', w')" for i w x i' w'
    using steps_item(2) [of D i h w x i' w'] that by simp
  have s: "case r of None \<Rightarrow> it_clients i = it_clients it \<and> sound D (held_by i h) w' | Some y \<Rightarrow> sound D (held_by it h) w'"
    if "item (it_clients it) D h (Some t) i w" "?f t w = Some (r, w')" for t i w r w'
    using b [of "held_by i h" t w r w'] that by (auto simp: item_def held_by_def split: option.split)
  have "sound D (held_by it h) w'" if d: "dump_clients N disc p code it w = Some w'" for w'
  proof -
    obtain x i w1 r w2 where x: "it_client_begin it w = Some (x, i, w1)" and l: "for_until it_client_next ?f x i w1 = Some (r, w2)"
      and e: "dump_end N disc p code (r, w2) = Some w'"
      using d by (auto simp: dump_clients_def bind_eq_Some_conv)
    have "case r of None \<Rightarrow> \<exists>i. item (it_clients it) D h None i w2 | Some y \<Rightarrow> sound D (held_by it h) w2"
      by (rule for_until_rule [OF l, of "item (it_clients it) D h" "\<lambda>i w. it_clients i = it_clients it \<and> sound D (held_by i h) w"])
        (fact steps_item(1) [OF assms x] n s)+
    then have "sound D (held_by it h) w2" by (auto simp: item_def held_by_def split: option.splits)
    then show ?thesis using wire_frame.dump_end_ks [OF wire_sound, of D "held_by it h" "(r, w2)" p code] e by (simp add: k_defs)
  qed
  then show ?thesis by (simp add: ks_def)
qed

lemma delclient_sound: "sound D h w \<Longrightarrow> ks (sound D h) (proto_delclient N disc p w)"
  unfolding proto_delclient_def proto_bcast_logout_def
  by (rule wire_frame.bcast_row_ks [OF wire_sound] wire_frame.mkrow_kp [OF wire_sound] k_intros | assumption)+

section \<open>New connections and input\<close>

lemma newclient_sound: "sound D h w \<Longrightarrow> ks (sound D h) (proto_newclient N disc p w)"
  unfolding proto_newclient_def
  by (rule wire_frame.reply_ks [OF wire_sound] k_intros | assumption | erule (1) sound_put; simp)+

lemma accept_sound:
  assumes "sound {} h w"
  shows "kp (sound {} h) (client_accept N disc (Some (proto_newclient N disc)) has_in w)"
proof (cases has_in)
  case True
  obtain sock addr d where acc: "n_accept N (ext w) = ((sock, addr), d)" by (metis surj_pair)
  let ?c = "\<lparr>c_sock = sock, c_id = maxid w + 1, c_user = None, c_sin = addr, c_ibuf = n_junk N d, c_ilen = 0,
      c_pstate = p_open, c_pdata = None, c_ifunc = False, c_refs = 1, c_del = 0\<rparr>"
  let ?w = "w\<lparr>ext := d, fresh := fresh w + 1, maxid := maxid w + 1, heap := (heap w)(fresh w := Some ?c),
    clients := (clients w)\<lparr>it_clients := listed w @ [fresh w]\<rparr>\<rparr>"
  have 0: "sound {} h (w\<lparr>ext := d, fresh := fresh w + 1\<rparr>)"
    using assms by (auto simp: sound_def refs_ok_def live_def less_Suc_eq)
  have 1: "sound {} h ?w" by (rule sound_new [OF assms]) simp_all
  show ?thesis
  proof (cases "sock < 0")
    case True
    then show ?thesis using 0 \<open>has_in\<close> acc by (simp add: client_accept_def kp_def)
  next
    case False
    obtain ok d' where wa: "n_watch N sock (fresh w) d = (ok, d')" by fastforce
    have 2: "sound {} h (?w\<lparr>ext := d'\<rparr>)" by (rule sound_elsewhere [OF 1]) simp_all
    have e: "client_accept N disc (Some (proto_newclient N disc)) has_in w =
        (if \<not> ok then do { w \<leftarrow> client_close N disc (fresh w) (?w\<lparr>ext := d'\<rparr>); Some (True, w) }
         else do { w \<leftarrow> proto_newclient N disc (fresh w) (?w\<lparr>ext := d'\<rparr>); Some (True, w) })"
      using \<open>has_in\<close> False acc wa
      by (simp add: client_accept_def Let_def it_client_add_def client_addref_def put_def cong: if_cong)
    show ?thesis unfolding e by (rule close_sound newclient_sound 2 k_intros | assumption)+
  qed
qed (use assms in \<open>simp add: client_accept_def kp_def\<close>)

lemma read_sound:
  assumes "sound {} h w" and ifunc: "\<And>w. sound {} (take_ref p h) w \<Longrightarrow> ks (sound {} (take_ref p h)) (ifunc p w)"
  shows "kp (sound {} h) (client_read N disc ifunc has_in p w)"
proof (cases "client_addref p w")
  case None
  then show ?thesis by (simp add: client_read_def kp_def)
next
  case (Some w1)
  then obtain c where "heap w p = Some c" by (auto simp: client_addref_def bind_eq_Some_conv)
  then have "p \<in> set (listed w) \<or> 0 < h p" by (rule sound_known [OF assms(1)]) simp
  then have 1: "sound {} (take_ref p h) w1" using sound_addref [OF assms(1)] Some by (metis option.inject)
  let ?J = "sound {} (take_ref p h)"
  have e: "kp (sound {} h) (client_read_err N disc p w)" if "?J w" for w
    unfolding client_read_err_def by (rule k_then(2) [OF delref_held [OF that]]) (rule k_intros close_sound | assumption)+
  have b: "kp (sound {} h) (do { w \<leftarrow> (if b then ifunc p w else Some w); w \<leftarrow> client_delref N disc p w; Some (True, w) })" if "?J w" for w b
  proof -
    have "ks ?J (if b then ifunc p w else Some w)" using ifunc [OF that] that by (simp add: k_Some)
    then show ?thesis by (rule k_then(2)) (erule k_then(2) [OF delref_held], erule k_Some)
  qed
  have u: "?J (put p (c\<lparr>c_ibuf := m, c_ilen := l\<rparr>) (w\<lparr>ext := d\<rparr>))" if "?J w" "heap w p = Some c" for w c m l d
    by (rule sound_put [where c = c]) (use that in \<open>auto intro: sound_elsewhere\<close>)
  have x: "?J (w\<lparr>ext := d\<rparr>)" if "?J w" for w d using that by (rule sound_elsewhere) simp_all
  show ?thesis
    unfolding client_read_def Let_def Some bind.bind_lunit
    by (rule e b u x 1 k_None k_if k_prod k_bind_v | assumption)+
qed

end

section \<open>The hook of the protocol\<close>

lemma disconnect_sound:
  fixes w :: "('d, 'z) netst_scheme"
  shows "sound D h w \<Longrightarrow> ks (sound D h) (disconnect N k p w)"
proof (induction k arbitrary: D h p w)
  case (Suc k)
  have "ref_hook (Some (disconnect N k) :: ('d, 'z) disc)" by unfold_locales (auto simp: keeps_hook_def intro: Suc.IH)
  from ref_hook.delclient_sound [OF this Suc.prems] show ?case by simp
qed (simp add: k_None)

interpretation refs: ref_hook N "client_hook N" for N
  by unfold_locales (auto simp: keeps_hook_def client_hook_def simp del: disconnect.simps intro: disconnect_sound)

end
