(* ===== verification/Runsafe.thy ===== *)
theory Runsafe
  imports Login Clientrefs
begin

text \<open>
  The accounting of references in the whole program: every command, callback and step of the main loop keeps the
  invariant of \<open>Clientrefs\<close>. Between two callbacks the structures of clients are exactly the entries of the list.
\<close>

interpretation counted: daemon_frame "sound D h" S for D h S
  by (intro daemon_frame.intro state_frame.intro refs.wire_sound) (erule sound_elsewhere)

section \<open>Commands\<close>

text \<open>The commands that look for clients take references and give them back.\<close>

lemmas say_sound = wire_frame.reply_ks [OF refs.wire_sound]

lemma clientlist_sound:
  assumes "sound D h w"
  shows "ks (sound D h) (cmd_clientlist C p code argv w)"
proof -
  have "ks (sound D h) (do { w \<leftarrow> dump_clients (ce_net C) (hook_of C) p code it w1; it_client_done (ce_net C) (hook_of C) it w })"
    if "clients_list w = Some (it, w1)" for it w1
    by (rule k_then(1) [OF refs.dump_clients_sound]) (rule lists_sound [OF assms disjI1 [OF that]] refs.it_done_sound | assumption)+
  then show ?thesis unfolding cmd_clientlist_def by (intro k_bind_v(1)) (auto split: prod.split)
qed

lemma clientclose_sound:
  assumes "sound D h w"
  shows "ks (sound D h) (cmd_clientclose C p code argv w)"
proof -
  have f: "ks (sound D h) (do { w \<leftarrow> say C c ''632'' ''disconnected'' w; w \<leftarrow> client_close (ce_net C) (hook_of C) c w;
      w \<leftarrow> client_delref (ce_net C) (hook_of C) c w; say C p code ''disconnected'' w })" if "sound D (take_ref c h) w" for c w
    by (rule k_then(1) [OF say_sound [OF that]], erule k_then(1) [OF refs.close_sound], erule k_then(1) [OF refs.delref_held], erule say_sound)
  have "ks (sound D h) (case c of None \<Rightarrow> say C p ''501'' ''session not found'' w1
      | Some c \<Rightarrow> do { w \<leftarrow> say C c ''632'' ''disconnected'' w1; w \<leftarrow> client_close (ce_net C) (hook_of C) c w;
          w \<leftarrow> client_delref (ce_net C) (hook_of C) c w; say C p code ''disconnected'' w })"
    if "client_get (ce_net C) (hook_of C) i w = Some (c, w1)" for i c w1
    using refs.get_sound [OF assms that] f say_sound by (cases c) auto
  then show ?thesis unfolding cmd_clientclose_def by (intro k_bind_v(1)) (auto split: prod.split)
qed

lemma kick_sound: "sound D (take_ref t g) w \<Longrightarrow> ks (sound D g) (kick_step C t w)"
  unfolding kick_step_def
  by (rule k_then(1) [OF say_sound], assumption, erule k_then(1) [OF refs.close_sound], erule refs.delref_held)

lemma closeuser_sound:
  fixes w :: "('d, 'z) pstate"
  assumes "sound D h w"
  shows "ks (sound D h) (cmd_clientcloseuser C p code argv w)"
proof -
  have l: "sound D (held_by it h) w2" if u: "clients_uid i w = Some (it, w0)" and b: "it_client_begin it w0 = Some (x, j, w1)"
    and r: "for_each it_client_next (kick_step C) x j w1 = Some w2" for i it w0 x j w1 w2
  proof -
    have n: "item (it_clients it) D h x i' w'" if "it_clients i = it_clients it \<and> sound D (held_by i h) w"
        "it_client_next i w = Some (x, i', w')" for i x i' and w w' :: "('d, 'z) pstate"
      using steps_item(2) [of D i h w x i' w'] that by simp
    have k: "it_clients i = it_clients it \<and> sound D (held_by i h) w'" if "item (it_clients it) D h (Some t) i w" "kick_step C t w = Some w'"
      for t i w w'
      using kick_sound [of D "held_by i h" t w C] that by (simp add: item_def ks_def)
    have "\<exists>i. item (it_clients it) D h None i w2"
      by (rule for_each_rule [OF r, of "item (it_clients it) D h" "\<lambda>i w. it_clients i = it_clients it \<and> sound D (held_by i h) w"])
        (fact steps_item(1) [OF lists_sound [OF assms disjI2 [OF u]] b] n k)+
    then show ?thesis by (auto simp: item_def held_by_def)
  qed
  have "sound D h w'" if r: "cmd_clientcloseuser C p code argv w = Some w'" for w'
  proof -
    obtain i it w0 x j w1 w2 w3 where s: "clients_uid i w = Some (it, w0)" "it_client_begin it w0 = Some (x, j, w1)"
        "for_each it_client_next (kick_step C) x j w1 = Some w2" and d: "it_client_done (ce_net C) (hook_of C) it w2 = Some w3"
      and a: "(if x \<noteq> None then say C p code ''kicked'' w3 else say C p ''501'' ''user not found'' w3) = Some w'"
      using r by (auto simp: cmd_clientcloseuser_def Let_def bind_eq_Some_conv)
    have "sound D h w3" using refs.it_done_sound [OF l [OF s]] d by (simp add: ks_def)
    from say_sound [OF this] a show ?thesis by (auto simp: ks_def split: if_splits)
  qed
  then show ?thesis by (simp add: ks_def)
qed

text \<open>Logging in changes no counter.\<close>

lemma login_sound:
  assumes "sound D h w"
  shows "ks (sound D h) (cmd_user C p code argv w)" "ks (sound D h) (cmd_pass (serving S) p code argv w)"
  unfolding cmd_user_def cmd_pass_def pass_failed_def pass_final_def proto_bcast_login_def
  using assms
  by - (rule say_sound counted.served.statements wire_frame.bcast_row_ks [OF refs.wire_sound] wire_frame.mkrow_kp [OF refs.wire_sound]
      k_intros | assumption | erule (1) sound_put; simp)+

lemma run_sound:
  assumes "cmd_run (serving S) name = Some run" "sound D h w"
  shows "ks (sound D h) (run p code argv w)"
proof (cases "name \<in> {''user'', ''pass'', ''clientlist'', ''clientclose'', ''clientcloseuser''}")
  case True
  then show ?thesis
    using assms(1) login_sound [OF assms(2)] clientlist_sound [OF assms(2)] clientclose_sound [OF assms(2)] closeuser_sound [OF assms(2)]
    by (auto simp: cmd_run_clients cmd_run_login)
next
  case False
  from counted.served.run_others [OF assms(1) False assms(2)] show ?thesis .
qed

section \<open>Events\<close>

lemma line_sound: "sound D h w \<Longrightarrow> ks (sound D h) (proto_line (serving S) p line w)"
proof -
  assume s: "sound D h w"
  have "sound D h w'" if "proto_line (serving S) p line w = Some w'" for w'
    using that
  proof (cases rule: proto_line_cases)
    case (reply code body)
    then show ?thesis using say_sound [OF s] by (auto simp: ks_def)
  next
    case (run c name cmd argv run)
    then show ?thesis using run_sound [OF run(6) s] by (simp add: ks_def)
  qed
  then show ?thesis by (simp add: ks_def)
qed

lemma input_sound:
  fixes w :: "'d plst"
  assumes "sound D h w"
  shows "ks (sound D h) (proto_input (serving S) p w)"
proof -
  have "C = serving S \<Longrightarrow> sound D h w \<Longrightarrow> sound D h w'" if "proto_input C p w = Some w'" for C and w w' :: "'d plst"
    using that
  proof (induction rule: proto_input_induct)
    case (step go C p w w')
    have go: "ks (sound D h) (go (serving S) p v)" if "sound D h v" for v using step.IH that by (auto simp: ks_def)
    have "ks (sound D h) (do { (line, w) \<leftarrow> client_getline (ce_net (serving S :: ('d, unit) cmdenv)) (hook_of (serving S)) p w;
        (case line of None \<Rightarrow> Some w | Some line \<Rightarrow> do { w \<leftarrow> proto_line (serving S) p line w; go (serving S) p w }) })"
      by (rule step.prems(2) refs.getline_sound line_sound go k_intros | assumption)+
    with step.hyps [unfolded step.prems(1)] show ?case by (simp add: ks_def)
  qed
  from this [OF _ refl assms] show ?thesis by (simp add: ks_def)
qed

lemma event_sound:
  fixes w :: "'d plst"
  assumes "sound {} h w"
  shows "ks (sound {} h) (dispatch S ev w)"
proof -
  have net: "ce_net (serving S :: ('d, unit) cmdenv) = s_net S" by (simp add: serving_def proto_init_def bare_def with_db_def)
  show ?thesis
  proof (cases ev)
    case (Ev_accept b)
    then show ?thesis using k_map(1) [OF refs.accept_sound [OF assms]] net by (simp add: dispatch_def Let_def)
  next
    case (Ev_client b p)
    have "kp (sound {} h) (client_read (s_net S) (client_hook (s_net S)) (proto_input (serving S)) b p w)"
      by (rule refs.read_sound [OF assms input_sound])
    then show ?thesis using k_map(1) Ev_client net by (simp add: dispatch_def Let_def)
  qed (rule counted.callback_keeps [OF assms]; simp)+
qed

section \<open>All runs\<close>

lemma init_sound:
  fixes w0 :: "('d, 'z) pstate"
  assumes "heap w0 = (\<lambda>p. None)" "listed w0 = []"
  shows "kp (sound {} (\<lambda>p. 0)) (main_init S w0)"
proof (rule counted.main_init_keeps)
  show "sound {} (\<lambda>p. 0) w0" using assms by (simp add: sound_def refs_ok_def)
  fix port and v :: "('d, 'z) pstate" assume "heap v = heap w0"
  then have "sound {} (\<lambda>p. 0) (v\<lparr>clients := \<lparr>it_clients = [], it_cur = 0\<rparr>, ext := d\<rparr>)" for d
    using assms by (simp add: sound_def refs_ok_def)
  then show "kp (sound {} (\<lambda>p. 0)) (clients_init (s_net S) port v)"
    by (auto simp: clients_init_def Let_def it_client_new_def kp_def split: prod.splits if_splits)
qed

lemma running_sound:
  fixes w0 w :: "'d plst"
  assumes "running S w0 w" "heap w0 = (\<lambda>p. None)" "listed w0 = []"
  shows "sound {} (\<lambda>p. 0) w"
  using assms
proof (induction rule: running.induct)
  case (up w)
  from init_sound [OF up.prems, of S] up.hyps show ?case unfolding kp_def by blast
next
  case (event w ev d w')
  then have "sound {} (\<lambda>p. 0) w" by blast
  then have "sound {} (\<lambda>p. 0) (w\<lparr>ext := d\<rparr>)" by (rule sound_elsewhere) simp_all
  from event_sound [OF this] event.hyps(2) show ?case by (simp add: ks_def)
qed

text \<open>
  C3: In every state of the main loop, whatever the clients sent, whichever sends failed and whatever happened
  outside, the structures of clients are exactly the entries of the list of clients: no entry is a dead pointer or
  twice on the list, no structure is lost, each is held by the list alone, and none is half freed.
\<close>

theorem running_clients:
  fixes w0 w :: "'d plst"
  assumes "running S w0 w" "heap w0 = (\<lambda>p. None)" "it_clients (clients w0) = []"
  shows "distinct (it_clients (clients w)) \<and> set (it_clients (clients w)) = dom (heap w) \<and>
    (\<forall>p c. heap w p = Some c \<longrightarrow> c_refs c = 1 \<and> c_del c = 0)"
proof -
  note s = running_sound [OF assms]
  have h: "c_refs c = 1 \<and> c_del c = 0 \<and> p \<in> set (listed w)" if "heap w p = Some c" for p c
    using sound_heap [OF s that] sound_known [OF s that] refs_ok_count [OF sound_refs [OF s] that] by auto
  have "set (listed w) \<subseteq> dom (heap w)" using refs_ok_live [OF sound_refs [OF s]] by blast
  then show ?thesis using h sound_refs [OF s] by (auto simp: refs_ok_def)
qed

theorem running_clients_witness:
  "\<exists>w. running demo_sys demo_state w \<and> heap w 0 \<noteq> None \<and> 0 \<in> set (it_clients (clients w))"
proof -
  obtain w1 where w1: "main_init demo_sys demo_state = Some (True, w1)" "demo_up = Some (True, w1)"
    using demo_runs(1) by (auto simp: demo_up_def)
  obtain w2 c where w2: "dispatch demo_sys (Ev_accept True) (w1\<lparr>ext := []\<rparr>) = Some w2" "heap w2 0 = Some c"
    using demo_runs(2) by (auto simp: demo_connected_def w1(2))
  have r: "running demo_sys demo_state w2" by (rule running.event [OF running.up [OF w1(1)] w2(1)])
  have "heap demo_state = (\<lambda>p. None)" "it_clients (clients demo_state) = []" by (simp_all add: demo_state_def)
  from running_clients [OF r this] show ?thesis using r w2(2) by (intro exI [of _ w2]) auto
qed

end
