(* ===== verification/Shutdown.thy ===== *)
theory Shutdown
  imports Netsafe
begin

text \<open>
  Closing all connections at the end of the program (\<open>clients_done\<close> of \<open>src/client.c\<close>). Its loop frees the clients but
  leaves them on the list, and counts with the cursor of that list; freeing a client that had logged in broadcasts,
  over the same list and with the same cursor.
\<close>

text \<open>A client that has not logged in goes without a broadcast.\<close>

lemma delref_open:
  assumes "heap w p = Some c" "c_refs c = 1" "c_del c = 0" "c_pstate c = p_open"
  shows "client_delref N (client_hook N) p w = Some (w\<lparr>ext := n_close N (c_sock c) p (ext w), heap := (heap w)(p := None)\<rparr>)"
  using assms by (simp add: client_delref_def client_release_def client_hook_def proto_delclient_def Let_def put_def)

text \<open>A broadcast over a list whose first entry was freed.\<close>

lemma bcast_dead: "listed w \<noteq> [] \<Longrightarrow> heap w (listed w ! 0) = None \<Longrightarrow> client_bcast N disc buf func w = None"
  by (simp add: client_bcast_def clients_begin_def it_client_begin_def it_client_cur_def client_addref_def)

text \<open>The broadcast when a client that had logged in goes.\<close>

definition logout_line :: "client \<Rightarrow> string" where
  "logout_line c = ''631'' @ CHR '' '' # record_text (client_fields c) @ [LF]"

lemma delclient_bcast:
  assumes "heap w p = Some c" "c_pstate c \<noteq> p_open" "peer_ok c" "length (tabbuf w) = 4096"
  shows "\<exists>m. proto_delclient N disc p w = client_bcast_perm N disc (logout_line c) r_user (w\<lparr>tabbuf := m\<rparr>)"
proof -
  obtain m where "mkclient c w = Some (record_text (client_fields c), w\<lparr>tabbuf := m\<rparr>)" using mkclient_text [OF assms(3,4)] by blast
  then show ?thesis
    using assms by (auto simp: proto_delclient_def proto_bcast_logout_def bcast_row_def proto_bcast_line peer_ok_def logout_line_def)
qed

lemma delref_last:
  assumes "heap w p = Some c" "c_refs c = 1" "c_del c = 0" "c_pstate c \<noteq> p_open" "peer_ok c" "length (tabbuf w) = 4096"
  shows "\<exists>k m. client_delref N (client_hook N) p w =
    do { w \<leftarrow> client_bcast_perm N (Some (disconnect N k)) (logout_line c) r_user ((put p (c\<lparr>c_refs := 0, c_del := 1\<rparr>) w)\<lparr>tabbuf := m\<rparr>);
         c \<leftarrow> heap w p;
         Some (w\<lparr>ext := n_close N (c_sock c) p (ext w), heap := (heap w)(p := None)\<rparr>) }"
proof -
  let ?c = "c\<lparr>c_refs := 0, c_del := 1\<rparr>" and ?k = "length (listed w)"
  let ?w = "put p ?c w"
  have h: "heap ?w p = Some ?c" "c_pstate ?c \<noteq> p_open" "peer_ok ?c" "length (tabbuf ?w) = 4096"
    using assms by (simp_all add: peer_ok_count put_def)
  have l: "logout_line ?c = logout_line c" by (simp add: logout_line_def client_fields_def)
  obtain m where "proto_delclient N (Some (disconnect N ?k)) p ?w = client_bcast_perm N (Some (disconnect N ?k)) (logout_line c) r_user (?w\<lparr>tabbuf := m\<rparr>)"
    using delclient_bcast [OF h, of N "Some (disconnect N ?k)"] unfolding l by blast
  then show ?thesis
    using assms(1-3) by (intro exI [of _ ?k] exI [of _ m]) (simp add: client_delref_def client_release_def client_hook_def Let_def)
qed

text \<open>The first entry has logged in: its broadcast moves the cursor to the end of the list.\<close>

lemma done_first:
  assumes "refs_ok (\<lambda>p. 0) w" "it_cur (clients w) = 0" "listed w = a # ps" "heap w a = Some c" "c_pstate c \<noteq> p_open" "peer_ok c"
    and "length (tabbuf w) = 4096" and send: "\<And>s buf d. fst (n_send N s buf d) = int (length buf)"
  shows "\<exists>w'. clients_done_loop N (client_hook N) w = Some w' \<and> heap w' = (heap w)(a := None)"
proof -
  have c: "c_refs c = 1" "c_del c = 0"
    using refs_ok_live [OF assms(1), of a] refs_ok_count [OF assms(1), of a c] assms(3,4) by auto
  obtain k m where d: "client_delref N (client_hook N) a w =
      do { w \<leftarrow> client_bcast_perm N (Some (disconnect N k)) (logout_line c) r_user ((put a (c\<lparr>c_refs := 0, c_del := 1\<rparr>) w)\<lparr>tabbuf := m\<rparr>);
           c \<leftarrow> heap w a;
           Some (w\<lparr>ext := n_close N (c_sock c) a (ext w), heap := (heap w)(a := None)\<rparr>) }"
    using delref_last [OF assms(4) c assms(5-7)] by blast
  let ?w = "(put a (c\<lparr>c_refs := 0, c_del := 1\<rparr>) w)\<lparr>tabbuf := m\<rparr>"
  have "standing ?w"
    using refs_ok_standing [OF assms(1)] by (auto simp: standing_def put_def)
  moreover have "logout_line c \<noteq> []" by (simp add: logout_line_def)
  ultimately obtain d' where b: "client_bcast_perm N (Some (disconnect N k)) (logout_line c) r_user ?w =
      Some (?w\<lparr>ext := d', clients := (clients ?w)\<lparr>it_cur := length (listed ?w)\<rparr>\<rparr>)"
    using bcast_sent [of ?w "logout_line c" N "Some (disconnect N k)" r_user] send by blast
  obtain w1 where w1: "client_delref N (client_hook N) a w = Some w1" "heap w1 = (heap w)(a := None)" "it_cur (clients w1) = length (listed w1)"
    unfolding d b by (auto simp: put_def)
  then have "clients_done_loop N (client_hook N) w = Some (w1\<lparr>clients := (clients w1)\<lparr>it_cur := it_cur (clients w1) + 1\<rparr>\<rparr>)"
    using assms(2,3) by (simp add: clients_done_loop.simps [of N "client_hook N" w] clients_done_loop.simps [of N "client_hook N" "w1\<lparr>clients := x\<rparr>" for x])
  with w1(2) show ?thesis by simp
qed

text \<open>Entries that have not logged in before one that has: its broadcast looks at the freed ones.\<close>

lemma done_behind:
  assumes "distinct (listed w)" "listed w = os @ a # ps" "os \<noteq> []" "it_cur (clients w) \<le> length os"
    and "\<forall>p\<in>set (take (it_cur (clients w)) os). heap w p = None"
    and "\<forall>p\<in>set (drop (it_cur (clients w)) os). \<exists>c. heap w p = Some c \<and> c_refs c = 1 \<and> c_del c = 0 \<and> c_pstate c = p_open"
    and "heap w a = Some c" "c_refs c = 1" "c_del c = 0" "c_pstate c \<noteq> p_open" "peer_ok c" "length (tabbuf w) = 4096"
  shows "clients_done_loop N (client_hook N) w = None"
  using assms
proof (induction "length os - it_cur (clients w)" arbitrary: w)
  case 0
  then have k: "it_cur (clients w) = length os" by simp
  have "client_delref N (client_hook N) a w = None"
  proof -
    obtain k m where d: "client_delref N (client_hook N) a w =
        do { w \<leftarrow> client_bcast_perm N (Some (disconnect N k)) (logout_line c) r_user ((put a (c\<lparr>c_refs := 0, c_del := 1\<rparr>) w)\<lparr>tabbuf := m\<rparr>);
             c \<leftarrow> heap w a;
             Some (w\<lparr>ext := n_close N (c_sock c) a (ext w), heap := (heap w)(a := None)\<rparr>) }"
      using delref_last [OF "0.prems"(7-12)] by blast
    let ?w = "(put a (c\<lparr>c_refs := 0, c_del := 1\<rparr>) w)\<lparr>tabbuf := m\<rparr>"
    have o: "os ! 0 \<in> set os" "os ! 0 \<noteq> a" "listed w ! 0 = os ! 0" using "0.prems"(1,2,3) by (cases os; auto)+
    then have "heap ?w (listed ?w ! 0) = None" using "0.prems"(5) k by (simp add: put_def)
    then show ?thesis using bcast_dead [of ?w] "0.prems"(2) unfolding d client_bcast_perm_def by (simp add: put_def)
  qed
  then show ?case using k "0.prems"(2) by (simp add: clients_done_loop.simps [of N "client_hook N" w] nth_append)
next
  case (Suc j)
  let ?k = "it_cur (clients w)" and ?p = "listed w ! it_cur (clients w)"
  have k: "?k < length os" using Suc.hyps(2) by simp
  have p: "?p = os ! ?k" using k Suc.prems(2) by (simp add: nth_append)
  then have "?p \<in> set (drop ?k os)" using k by (simp add: Cons_nth_drop_Suc [symmetric])
  then obtain b where b: "heap w ?p = Some b" "c_refs b = 1" "c_del b = 0" "c_pstate b = p_open" using Suc.prems(6) by blast
  let ?w = "w\<lparr>ext := n_close N (c_sock b) ?p (ext w), heap := (heap w)(?p := None), clients := (clients w)\<lparr>it_cur := ?k + 1\<rparr>\<rparr>"
  have s: "clients_done_loop N (client_hook N) w = clients_done_loop N (client_hook N) ?w"
    using delref_open [OF b] k Suc.prems(2) by (simp add: clients_done_loop.simps [of N "client_hook N" w])
  have t: "take (Suc ?k) os = take ?k os @ [?p]" using k p by (simp add: take_Suc_conv_app_nth)
  have d: "drop ?k os = ?p # drop (Suc ?k) os" using k p by (simp add: Cons_nth_drop_Suc)
  have "distinct (take ?k os @ ?p # drop (Suc ?k) os @ a # ps)"
    using Suc.prems(1,2) d append_take_drop_id [of ?k os] by (metis append.assoc append_Cons)
  then have n: "?p \<noteq> a" "?p \<notin> set (drop (Suc ?k) os)" by auto
  show ?case unfolding s
    by (rule Suc.hyps(1)) (use Suc.hyps(2) Suc.prems k t d n in auto)
qed

section \<open>Property\<close>

text \<open>
  C37: Closing all connections at the end does not work once a client has logged in. When the first such client is the
  first of the list it is the only one that is freed and whose connection is closed, because its farewell moves the
  cursor of the list; when others stand before it, the broadcast of its farewell uses their freed structures.
\<close>

theorem clients_done_incomplete:
  assumes refs: "refs_ok (\<lambda>p. 0) w" and good: "all_good peer_ok w" and l: "listed w = os @ a # ps"
    and os: "\<forall>p\<in>set os. \<exists>c. heap w p = Some c \<and> c_pstate c = p_open" and a: "heap w a = Some c" "c_pstate c \<noteq> p_open"
    and send: "\<And>s buf d. fst (n_send N s buf d) = int (length buf)"
  shows "if os = [] then \<exists>w'. clients_done N (client_hook N) w = Some w' \<and> heap w' = (heap w)(a := None)
    else clients_done N (client_hook N) w = None"
proof -
  let ?w = "w\<lparr>clients := (clients w)\<lparr>it_cur := 0\<rparr>\<rparr>"
  have r: "refs_ok (\<lambda>p. 0) ?w" using refs by simp
  have ok: "peer_ok c" "length (tabbuf ?w) = 4096" using good a(1) by (auto simp: all_good_def)
  have one: "c_refs b = 1 \<and> c_del b = 0" if "p \<in> set (listed w)" "heap w p = Some b" for p b
    using refs_ok_live [OF refs, of p] refs_ok_count [OF refs that(2)] that by auto
  have a': "heap ?w a = Some c" using a by simp
  show ?thesis
  proof (cases "os = []")
    case True
    then show ?thesis using done_first [OF r _ _ a' a(2) ok send, of ps] l by (auto simp: clients_done_def)
  next
    case False
    have "clients_done_loop N (client_hook N) ?w = None"
    proof (rule done_behind [of _ os a ps c])
      show "\<forall>p\<in>set (drop (it_cur (clients ?w)) os). \<exists>c. heap ?w p = Some c \<and> c_refs c = 1 \<and> c_del c = 0 \<and> c_pstate c = p_open"
        using os one l by fastforce
    qed (use False l refs a one ok in \<open>auto simp: refs_ok_def\<close>)
    then show ?thesis using False by (simp add: clients_done_def)
  qed
qed

theorem clients_done_incomplete_witness:
  "clients_done (demo_lib []) (client_hook (demo_lib [])) (demo_peers (replicate 4096 NUL) p_open) = None \<and>
   (\<exists>w'. clients_done (demo_lib []) (client_hook (demo_lib [])) (demo_peers (replicate 4096 NUL) p_idle) = Some w' \<and> heap w' 1 \<noteq> None)"
proof
  have n: "fst (n_send (demo_lib []) s buf d) = int (length buf)" for s buf d by (simp add: demo_lib_def)
  have h: "heap (demo_peers m st) 0 = Some (demo_peer st 0)" "heap (demo_peers m st) 1 = Some (demo_peer p_idle 1)"
    "listed (demo_peers m st) = [0, 1, 2]" for m st by (simp_all add: demo_peers_def)
  have s: "c_pstate (demo_peer st p) = st" for st p by (simp add: demo_peer_def)
  show "clients_done (demo_lib []) (client_hook (demo_lib [])) (demo_peers (replicate 4096 NUL) p_open) = None"
    using clients_done_incomplete [OF demo_peers_ok demo_peers_good, of p_open "[0]" 1 "[2]", OF _ _ h(2) _ n] by (simp add: h s)
  show "\<exists>w'. clients_done (demo_lib []) (client_hook (demo_lib [])) (demo_peers (replicate 4096 NUL) p_idle) = Some w' \<and> heap w' 1 \<noteq> None"
    using clients_done_incomplete [OF demo_peers_ok demo_peers_good, of p_idle "[]" 0 "[1, 2]", OF _ _ h(1) _ n] h(2) by (auto simp: h(3) s)
qed

end
