(* ===== verification/Program.thy ===== *)
theory Program
  imports Daemon
begin

text \<open>
  The program from its command line to its exit status (\<open>main\<close> and the signal handlers of \<open>src/main.c\<close>), around the
  parts of \<open>Daemon\<close>. The option parser of glib, with the options GStreamer adds to it, the directory of the configuration
  file and the loading of a key file are parameters.
\<close>

section \<open>Command line\<close>

text \<open>What the option parser has found; a missing option leaves its variable alone.\<close>

record cmdline =
  cl_foreground :: bool
  cl_debug :: bool
  cl_port :: "int option"
  cl_pidfile :: "string option"
  cl_config :: "string option"

text \<open>
  How \<open>g_option_context_parse\<close> ends: it returns the options or an error, or it prints a help text and leaves the
  program with status 0. It sets up GStreamer as well, so it acts on the external part of the state.
\<close>

datatype parsed = Options cmdline | Bad_option | Help

record 'd config =
  cf_sysconfdir :: string
  cf_parse :: "string list \<Rightarrow> 'd \<Rightarrow> parsed \<times> 'd"
  cf_load :: "string \<Rightarrow> 'd \<Rightarrow> keyfile option"

definition progname :: "string \<Rightarrow> string" where
  "progname argv0 = (if CHR ''/'' \<in> set argv0 then rev (takeWhile (\<lambda>c. c \<noteq> CHR ''/'') (rev argv0)) else argv0)"

definition gopt :: "cmdline \<Rightarrow> opts \<Rightarrow> opts" where
  "gopt cl o0 = o0\<lparr>opt_port := (case cl_port cl of None \<Rightarrow> opt_port o0 | Some p \<Rightarrow> p),
     opt_pidfile := (case cl_pidfile cl of None \<Rightarrow> opt_pidfile o0 | Some f \<Rightarrow> f)\<rparr>"

definition main_config :: "'d config \<Rightarrow> cmdline \<Rightarrow> 'd \<Rightarrow> opts \<Rightarrow> opts" where
  "main_config F cl d o0 =
     opt_read (cf_load F (case cl_config cl of None \<Rightarrow> cf_sysconfdir F @ ''/dudld.conf'' | Some c \<Rightarrow> c) d) (gopt cl o0)"

text \<open>The values of \<open>s_opt\<close> before are those the variables are declared with.\<close>

definition configured :: "'d config \<Rightarrow> cmdline \<Rightarrow> 'd \<Rightarrow> 'd sys \<Rightarrow> 'd sys" where
  "configured F cl d S = S\<lparr>s_opt := main_config F cl d (s_opt S), s_foreground := cl_foreground cl\<rparr>"

section \<open>Signals\<close>

text \<open>The name messages are logged under, the variable \<open>debug\<close> and the least urgent priority logged; by default all are.\<close>

datatype priority = LOG_INFO | LOG_DEBUG

record logging =
  ident :: string
  debug :: bool
  logmask :: priority

definition main_log :: "string list \<Rightarrow> cmdline \<Rightarrow> logging" where
  "main_log argv cl =
     \<lparr>ident = progname (argv ! 0), debug = cl_debug cl, logmask = (if \<not> cl_debug cl then LOG_INFO else LOG_DEBUG)\<rparr>"

definition sig_usr :: "logging \<Rightarrow> logging" where
  "sig_usr l = (let d = \<not> debug l in l\<lparr>debug := d, logmask := (if d then LOG_DEBUG else LOG_INFO)\<rparr>)"

text \<open>
  The main loop: callbacks, and the handlers of \<open>SIGUSR1\<close> and of \<open>SIGTERM\<close> and \<open>SIGINT\<close>. \<open>sig_term\<close> makes the loop end
  when it comes back to its top; callbacks that are due may still run before. Nothing else depends on \<open>debug\<close>, so a
  \<open>SIGUSR1\<close> during the start is one right after it. \<open>g_main_loop_run\<close> forgets a \<open>g_main_loop_quit\<close> from before it; a
  \<open>SIGTERM\<close> before its handler is installed kills the process and is not modelled.
\<close>

inductive looping :: "'d sys \<Rightarrow> 'd plst \<Rightarrow> logging \<Rightarrow> logging \<Rightarrow> bool \<Rightarrow> 'd plst \<Rightarrow> bool" for S w0 l0 where
  enter: "main_init S w0 = Some (True, w) \<Longrightarrow> looping S w0 l0 l0 False w"
| callback: "looping S w0 l0 l quit w \<Longrightarrow> dispatch S ev (w\<lparr>ext := d\<rparr>) = Some w' \<Longrightarrow> looping S w0 l0 l quit w'"
| usr: "looping S w0 l0 l quit w \<Longrightarrow> looping S w0 l0 (sig_usr l) quit w"
| sig_term: "looping S w0 l0 l quit w \<Longrightarrow> looping S w0 l0 l True w"

section \<open>Exit status\<close>

inductive program :: "'d config \<Rightarrow> 'd sys \<Rightarrow> string list \<Rightarrow> 'd plst \<Rightarrow> int \<Rightarrow> 'd plst \<Rightarrow> bool" for F S argv w0 where
  helped: "outside (cf_parse F argv) w0 = (Help, w) \<Longrightarrow> program F S argv w0 0 w"
| usage: "outside (cf_parse F argv) w0 = (Bad_option, w) \<Longrightarrow> program F S argv w0 1 w"
| failed: "outside (cf_parse F argv) w0 = (Options cl, w) \<Longrightarrow>
    main_init (configured F cl (ext w) S) w = Some (False, w') \<Longrightarrow> program F S argv w0 1 w'"
| ended: "outside (cf_parse F argv) w0 = (Options cl, w) \<Longrightarrow>
    looping (configured F cl (ext w) S) w (main_log argv cl) l True w' \<Longrightarrow>
    main_done (configured F cl (ext w) S) (w'\<lparr>ext := d\<rparr>) = Some w'' \<Longrightarrow> program F S argv w0 0 w''"

inductive_cases program_cases: "program F S argv w0 code w"

section \<open>Properties\<close>

text \<open>Signals change nothing but the log, which follows \<open>debug\<close>.\<close>

lemma looping_running: "looping S w0 l0 l quit w \<Longrightarrow> running S w0 w"
  by (induction rule: looping.induct) (auto intro: running.intros)

lemma looping_log:
  "looping S w0 (main_log argv cl) l quit w \<Longrightarrow>
   ident l = progname (argv ! 0) \<and> logmask l = (if debug l then LOG_DEBUG else LOG_INFO)"
  by (induction rule: looping.induct) (simp_all add: main_log_def sig_usr_def Let_def)

lemma progname_base: "CHR ''/'' \<notin> set b \<Longrightarrow> progname (a @ CHR ''/'' # b) = b"
  by (auto simp: progname_def takeWhile_append)

lemma configured_same:
  "cl_foreground cl' = cl_foreground cl \<Longrightarrow> cl_config cl' = cl_config cl \<Longrightarrow> configured F cl' d S = configured F cl d S"
  by (simp add: configured_def main_config_def opt_read_overrides [of _ "gopt cl' o0" "gopt cl o0" for o0])

text \<open>
  C38: The options for the port and for the pid file have no effect, since \<open>opt_read\<close> sets both again. Take two command
  lines which the option parser reads as the same but for these two options. Then the program can end with a status in
  a state on the one exactly if it can on the other.
\<close>

theorem program_options:
  assumes "cf_parse F argv (ext w0) = (Options cl, d)"
    and "cf_parse F argv' (ext w0) = (Options (cl\<lparr>cl_port := port, cl_pidfile := pidfile\<rparr>), d)"
    and "argv' ! 0 = argv ! 0"
  shows "program F S argv' w0 code w \<longleftrightarrow> program F S argv w0 code w"
proof -
  let ?cl = "cl\<lparr>cl_port := port, cl_pidfile := pidfile\<rparr>"
  have c: "configured F ?cl e S = configured F cl e S" for e by (rule configured_same) simp_all
  have l: "main_log argv' ?cl = main_log argv cl" using assms(3) by (simp add: main_log_def)
  have p: "outside (cf_parse F argv) w0 = (Options cl, w0\<lparr>ext := d\<rparr>)"
    "outside (cf_parse F argv') w0 = (Options ?cl, w0\<lparr>ext := d\<rparr>)"
    using assms by (simp_all add: outside_def)
  show ?thesis
  proof
    assume "program F S argv' w0 code w"
    then show "program F S argv w0 code w"
      using p c l by (auto elim!: program_cases intro: program.failed program.ended)
  next
    assume "program F S argv w0 code w"
    then show "program F S argv' w0 code w"
      using p c l by (auto elim!: program_cases intro: program.failed program.ended)
  qed
qed

theorem program_options_witness:
  "let cl = \<lparr>cl_foreground = True, cl_debug = False, cl_port = None, cl_pidfile = None, cl_config = None\<rparr>;
       F = \<lparr>cf_sysconfdir = ''/etc'',
            cf_parse = \<lambda>argv d. (Options (if argv = [''dudld'', ''-f''] then cl else cl\<lparr>cl_port := Some 99\<rparr>), d),
            cf_load = \<lambda>f d. None\<rparr>
   in \<forall>S (w0 :: nat plst) code w.
        program F S [''dudld'', ''-f'', ''-p'', ''99''] w0 code w \<longleftrightarrow> program F S [''dudld'', ''-f''] w0 code w"
proof -
  let ?cl = "\<lparr>cl_foreground = True, cl_debug = False, cl_port = None, cl_pidfile = None, cl_config = None\<rparr>"
  show ?thesis
    unfolding Let_def
    by (intro allI, rule program_options [where cl = ?cl and d = "ext w" and port = "Some 99" and pidfile = None for w :: "nat plst"])
      simp_all
qed

end
