(* ===== verification/Spec2Isabelle.thy ===== *)
theory Spec2Isabelle
  imports Sqlsafe Clientline Playersafe Filterstore Exprmem Argmem Runsafe Shutdown Program
begin

text \<open>
  A verification library for \<open>dudld\<close>, a jukebox daemon: clients connect over TCP and send commands as lines of
  text; the daemon keeps artists, albums, tracks, tags, users, stored filters, a queue and a history in a PostgreSQL
  database, plays tracks with GStreamer and tells the clients what happens by broadcasts. The tracks for random play
  are chosen by a filter, an expression in a small language of its own.

  \<^bold>\<open>Conventions.\<close> C functions are HOL functions that return the new state. A C string is a list of characters without
  its terminator. \<open>None\<close> is undefined behaviour (a dead or \<open>NULL\<close> pointer, a write outside an array, a double free) or
  a call that never returns; the error returns of the source are values. Integers are \<open>int\<close> where the source cannot
  leave the range, with the conversion written out where it can (\<open>c_int\<close>, \<open>size_t\<close>). Code that is not part of the
  program is a parameter: \<open>libpq\<close> (a record of that name), the sockets and the sources of glib (\<open>netlib\<close>), GStreamer and
  timers (\<open>gst\<close>), \<open>random\<close>, \<open>crypt\<close>, \<open>time\<close>, the key file, lock files. They act on a part \<open>ext\<close> of the state the
  program does not see. Malloc succeeds.

  \<^bold>\<open>State.\<close> The static variables of the C files form one extensible record that grows with the layers: \<open>dbst\<close>
  (\<open>dudldb.c\<close>), \<open>rndst\<close> (\<open>random.c\<close>), \<open>netst\<close> (\<open>client.c\<close> and the buffers of \<open>proto_fmt.c\<close>; clients live in a heap of
  structures with reference counts), \<open>plst\<close> (\<open>player.c\<close>, \<open>sleep.c\<close>). A layer calls the one above it only through hooks
  (\<open>db_connected\<close>, \<open>client_func_disconnect\<close>, the \<open>_func_\<close> variables), which are arguments; \<open>Daemon\<close> fills them in the
  way \<open>main\<close> and \<open>proto_init\<close> do.

  \<^bold>\<open>Library.\<close>
  \<^item> \<open>Dudl_Prelude\<close>: characters, numbers in texts, the collections of rules. \<open>Cbuf\<close>: arrays, \<open>snprintf\<close> and the locale
    \<open>bounded_formatter\<close> of functions that print into the rest of an array.
  \<^item> \<open>Iterator\<close>: the \<open>begin\<close>/\<open>next\<close>/\<open>cur\<close> interface as a locale, with loops over it. \<open>Returns\<close>: which computations
    return, and which keep a property; its rules follow the structure of a definition.
  \<^item> \<open>Rowmem\<close>: stores of blocks and the locale \<open>owner\<close>, the contract of a free function.
  \<^item> \<open>Dbframe\<close>, \<open>Netframe\<close>, \<open>Serverframe\<close>, \<open>Sessionframe\<close>: what every operation of a layer keeps of the state, given
    what the layer below keeps, as locales: \<open>wire_frame\<close> for replies and broadcasts, \<open>server_frame\<close> for the player and
    the commands, \<open>daemon_frame\<close> for start and callbacks, \<open>session_frame\<close> for the commands that log in. The login
    machine and the reference counts are both interpretations of them.

  \<^bold>\<open>Filters.\<close> \<open>Parsebuf\<close> (\<open>commondb/parsebuf.c\<close>) is the input buffer, with the locale \<open>input_buffer\<close>; \<open>Parseexpr\<close>
  (\<open>commondb/parseexpr.c\<close>) the lexer and the recursive descent parser, \<open>Parseexpr_Safe\<close> its termination, the types of
  accepted filters, error reports and a write outside a block; \<open>Exprfmt\<close> the printer and its bounds; \<open>Roundtrip\<close> that
  printed filters are read back, and the strings for which they are not; \<open>Exprmem\<close> the reference counts and free
  functions of the tree and of the input buffer. The mutual recursion of the parser carries a budget of one level more than the input has
  characters; \<open>expr_parse_total\<close> shows that it is never used up.

  \<^bold>\<open>Database.\<close> \<open>Opt\<close> (\<open>opt.c\<close>); \<open>Dudldb\<close> (\<open>pgdb/dudldb.c\<close>: connection, reconnect, query buffer, escaping, results);
  \<open>Music\<close> (\<open>artist.c\<close>, \<open>album.c\<close>, \<open>track.c\<close>), \<open>User\<close> (\<open>user.c\<close>, \<open>tag.c\<close>, \<open>sfilter.c\<close>), \<open>Queue\<close> (\<open>queue.c\<close>,
  \<open>history.c\<close>), \<open>Sqlfilter\<close> (\<open>filter.c\<close>), \<open>Randomplay\<close> (\<open>random.c\<close>); \<open>Rowmem\<close> for the free functions of the rows.
  Shown: reconnecting nests at most once; a client's text stays one SQL literal in every statement (\<open>Sqlsafe\<close>); a
  merge is one transaction; fetching from the queue deletes what it returns; filters become SQL within the array, and
  the tables of parser and generator agree; result loops visit each row once; the filter in force after
  \<open>random_setfilter\<close>; and which of the off-by-one tests of the sources can be hit.

  \<^bold>\<open>Connections.\<close> \<open>Client\<close> (\<open>client.c\<close>), \<open>Clientsafe\<close>, \<open>Netsafe\<close>, \<open>Clientline\<close>. Sending fails when a connection is
  lost, a failed send closes the connection, closing it broadcasts a logout, and that broadcast sends again:
  \<open>Clientsafe\<close> states the contract of the disconnect hook (locale \<open>disconnect_hook\<close>) and \<open>Netsafe\<close> shows that the
  protocol's hook has it. The hook \<open>disconnect\<close> carries a bound on the nesting of one level more than there are listed
  clients; every nested free has unlisted one, so the bound is enough (\<open>disconnect_enough\<close>). \<open>Clientline\<close> shows how
  input is split into lines, and the packet that makes \<open>client_getline\<close> leave its buffer. \<open>Clientrefs\<close> has the contract
  of every client operation on reference counts (locale \<open>ref_hook\<close>), \<open>Runsafe\<close> the invariant it gives for all states
  of the main loop: the list holds exactly the allocated clients, each with one reference. \<open>Shutdown\<close> shows that
  \<open>clients_done\<close> does not free them all.

  \<^bold>\<open>Player.\<close> \<open>Player\<close> (\<open>player.c\<close>, \<open>sleep.c\<close>), \<open>Playersafe\<close>: the functions implement a machine with the modes stopped,
  playing, paused and gap; the current track is never a freed one but in the case \<open>player_start_dangling\<close> names; the
  random search ends exactly when a finite number of picks suffices; the sleep timer pauses.

  \<^bold>\<open>Protocol.\<close> \<open>Protofmt\<close> (\<open>proto_fmt.c\<close>, \<open>proto_helper.c\<close>: records and lines), \<open>Protosend\<close> (\<open>proto_bcast.c\<close>, replies and
  broadcasts), \<open>Protocmd\<close> (\<open>proto_cmd.c\<close>, \<open>proto_val.c\<close>, \<open>proto_arg.h\<close>, and the table that \<open>mkproto.pl\<close> generates: all 91
  commands), \<open>Proto\<close> (\<open>proto.c\<close>: finding a command, its arguments, its right, the loop over the lines of a packet),
  \<open>Argmem\<close> (freeing the arguments).

  \<^bold>\<open>Program.\<close> \<open>Daemon\<close> and \<open>Program\<close> (\<open>main.c\<close>): \<open>main_init\<close> from the lock file to the main loop, \<open>dispatch\<close> for the callbacks of
  the main loop, the step relation \<open>running\<close> of the states the loop reaches while the world outside does what it
  likes, and \<open>main_done\<close>. \<open>Login\<close> shows, for every reachable state, that the login fields of all clients follow a
  small machine of sessions: only the client a packet comes from moves, and it becomes a user only by the commands
  \<open>user\<close> and \<open>pass\<close> with a password that \<open>user_ok\<close> accepts. It also shows that a client without a name reaches neither
  the database nor the player. \<open>Filterstore\<close> shows that the filter saved at shutdown is in force after the next start.
  \<open>Program\<close> adds the command line, the signals (\<open>looping\<close>) and the exit status (\<open>program\<close>), and shows that two of the
  options have no effect.

  \<^bold>\<open>Not modelled.\<close> What glib's option parser does with the arguments and the options of GStreamer that \<open>player_options\<close>
  adds to it (a parameter of \<open>program\<close>); a signal before its handler is installed; the messages of \<open>syslog\<close> and
  \<open>db_errstr\<close>, which only feeds it; the test programs; the client templates \<open>mkproto.pl\<close> can print; the shell scripts.
  Failing allocations are left out: the branches for them only report the error.
\<close>

end
